(* ===== verification/RunCD_Prelude.thy ===== *)
theory RunCD_Prelude
  imports Main "HOL-Library.List_Lexorder" "HOL-Library.Char_ord" "HOL-Library.Sublist"
begin

text \<open>
  What the components share: the part of Go's string and slice library that the repository
  uses, loops that stop at the first error, loops that keep the first occurrence of each
  element, maps as association lists, and clock arithmetic.

  A Go string is a sequence of bytes and so is \<^typ>\<open>string\<close> here (a \<^typ>\<open>char\<close> is a byte).
  A Go map that the code ranges over is an association list with distinct keys: its order is
  the order the runtime happens to choose, so a theorem about every list is a theorem about
  every iteration order. A Go error result is a sum, the error on the left.
\<close>

named_theorems go_simps \<open>rewriting of the string, slice and loop library\<close>

section \<open>Strings\<close>

definition has_prefix :: "string \<Rightarrow> string \<Rightarrow> bool" where
  "has_prefix s p \<longleftrightarrow> take (length p) s = p"

definition cut_prefix :: "string \<Rightarrow> string \<Rightarrow> string option" where
  "cut_prefix s p = (if has_prefix s p then Some (drop (length p) s) else None)"

definition trim_prefix :: "string \<Rightarrow> string \<Rightarrow> string" where
  "trim_prefix s p = (if has_prefix s p then drop (length p) s else s)"

definition has_suffix :: "string \<Rightarrow> string \<Rightarrow> bool" where
  "has_suffix s p \<longleftrightarrow> length p \<le> length s \<and> drop (length s - length p) s = p"

definition trim_suffix :: "string \<Rightarrow> string \<Rightarrow> string" where
  "trim_suffix s p = (if has_suffix s p then take (length s - length p) s else s)"

text \<open>\<open>strings.Cut\<close> at a one byte separator: the text before and after its first occurrence.\<close>

definition cut_at :: "char \<Rightarrow> string \<Rightarrow> (string \<times> string) option" where
  "cut_at c s =
     (if c \<in> set s then Some (takeWhile (\<lambda>x. x \<noteq> c) s, tl (dropWhile (\<lambda>x. x \<noteq> c) s)) else None)"

text \<open>\<open>strings.Index\<close> and \<open>strings.LastIndex\<close> of a byte: -1 when there is none.\<close>

definition first_index :: "char \<Rightarrow> string \<Rightarrow> int" where
  "first_index c s = (if c \<in> set s then int (length (takeWhile (\<lambda>x. x \<noteq> c) s)) else -1)"

definition last_index :: "char \<Rightarrow> string \<Rightarrow> int" where
  "last_index c s = int (length s) - 1 - int (length (takeWhile (\<lambda>x. x \<noteq> c) (rev s)))"

text \<open>\<open>path.Base\<close>.\<close>

definition path_base :: "string \<Rightarrow> string" where
  "path_base p =
     (if p = [] then ''.'' else
      let q = rev (dropWhile (\<lambda>x. x = CHR ''/'') (rev p));
          b = rev (takeWhile (\<lambda>x. x \<noteq> CHR ''/'') (rev q))
      in if b = [] then ''/'' else b)"

definition is_digit :: "char \<Rightarrow> bool" where
  "is_digit c \<longleftrightarrow> CHR ''0'' \<le> c \<and> c \<le> CHR ''9''"

definition is_hex :: "char \<Rightarrow> bool" where
  "is_hex c \<longleftrightarrow> is_digit c \<or> (CHR ''a'' \<le> c \<and> c \<le> CHR ''f'')"

text \<open>The class \<open>[A-Za-z0-9_-]\<close>.\<close>

definition is_word_char :: "char \<Rightarrow> bool" where
  "is_word_char c \<longleftrightarrow> is_digit c \<or> (CHR ''A'' \<le> c \<and> c \<le> CHR ''Z'') \<or>
     (CHR ''a'' \<le> c \<and> c \<le> CHR ''z'') \<or> c = CHR ''_'' \<or> c = CHR ''-''"

text \<open>\<open>fmt\<close>'s \<open>%d\<close>.\<close>

definition digit_char :: "nat \<Rightarrow> char" where
  "digit_char d = char_of (48 + d mod 10)"

fun show_nat :: "nat \<Rightarrow> string" where
  "show_nat n = (if n < 10 then [digit_char n] else show_nat (n div 10) @ [digit_char (n mod 10)])"

declare show_nat.simps [simp del]

definition show_int :: "int \<Rightarrow> string" where
  "show_int i = (if i < 0 then CHR ''-'' # show_nat (nat (- i)) else show_nat (nat i))"

lemma has_prefix_append [simp]: "has_prefix (p @ s) p"
  by (simp add: has_prefix_def)

lemma has_prefix_iff: "has_prefix s p \<longleftrightarrow> (\<exists>t. s = p @ t)"
  unfolding has_prefix_def by (metis append_eq_conv_conj append_take_drop_id)

lemma cut_prefix_append [simp, go_simps]: "cut_prefix (p @ s) p = Some s"
  by (simp add: cut_prefix_def)

lemma cut_prefix_Some: "cut_prefix s p = Some t \<longleftrightarrow> s = p @ t"
  by (auto simp: cut_prefix_def has_prefix_iff)

lemma cut_prefix_None: "cut_prefix s p = None \<longleftrightarrow> (\<nexists>t. s = p @ t)"
  by (auto simp: cut_prefix_def has_prefix_iff)

lemma has_suffix_iff: "has_suffix s p \<longleftrightarrow> (\<exists>t. s = t @ p)"
proof
  assume "has_suffix s p"
  then have "s = take (length s - length p) s @ p"
    by (metis append_take_drop_id has_suffix_def)
  then show "\<exists>t. s = t @ p" ..
qed (auto simp: has_suffix_def)

lemma trim_suffix_append [simp]: "trim_suffix (s @ p) p = s"
  by (simp add: trim_suffix_def has_suffix_def)

lemma cut_at_Some: "cut_at c s = Some (a, b) \<longleftrightarrow> s = a @ c # b \<and> c \<notin> set a"
proof
  assume *: "cut_at c s = Some (a, b)"
  then have c: "c \<in> set s" and a: "a = takeWhile (\<lambda>x. x \<noteq> c) s"
    and b: "b = tl (dropWhile (\<lambda>x. x \<noteq> c) s)"
    by (auto simp: cut_at_def split: if_splits)
  from c have "dropWhile (\<lambda>x. x \<noteq> c) s \<noteq> []" by (auto simp: dropWhile_eq_Nil_conv)
  moreover from this have "hd (dropWhile (\<lambda>x. x \<noteq> c) s) = c"
    using hd_dropWhile [of "\<lambda>x. x \<noteq> c" s] by simp
  ultimately have "dropWhile (\<lambda>x. x \<noteq> c) s = c # b" using b by (metis list.collapse)
  then show "s = a @ c # b \<and> c \<notin> set a"
    using a by (metis set_takeWhileD takeWhile_dropWhile_id)
next
  assume "s = a @ c # b \<and> c \<notin> set a"
  then show "cut_at c s = Some (a, b)"
    by (auto simp: cut_at_def takeWhile_append dropWhile_append)
qed

lemma cut_at_None: "cut_at c s = None \<longleftrightarrow> c \<notin> set s"
  by (simp add: cut_at_def)

lemma cut_at_split [simp, go_simps]: "c \<notin> set a \<Longrightarrow> cut_at c (a @ c # b) = Some (a, b)"
  by (simp add: cut_at_Some)

lemma split_at_inj: "a @ c # b = a' @ c # b' \<Longrightarrow> c \<notin> set a \<Longrightarrow> c \<notin> set a' \<Longrightarrow> a = a' \<and> b = b'"
  for c :: char
  by (metis cut_at_split option.inject prod.inject)

lemma last_index_none: "c \<notin> set s \<Longrightarrow> last_index c s = -1"
proof -
  assume "c \<notin> set s"
  then have "takeWhile (\<lambda>x. x \<noteq> c) (rev s) = rev s"
    by (auto simp: takeWhile_eq_all_conv)
  then have "length (takeWhile (\<lambda>x. x \<noteq> c) (rev s)) = length s" by (metis length_rev)
  then show ?thesis by (simp only: last_index_def)
qed

lemma last_index_split: "c \<notin> set b \<Longrightarrow> last_index c (a @ c # b) = int (length a)"
proof -
  assume "c \<notin> set b"
  then have "takeWhile (\<lambda>x. x \<noteq> c) (rev (a @ c # b)) = rev b"
    by (auto simp: takeWhile_append)
  then have "length (takeWhile (\<lambda>x. x \<noteq> c) (rev (a @ c # b))) = length b" by (simp only: length_rev)
  then show ?thesis by (simp add: last_index_def)
qed

lemma split_last_ex: "c \<in> set s \<Longrightarrow> \<exists>a b. s = a @ c # b \<and> c \<notin> set b"
  by (metis split_list_last)

lemma last_index_neg_iff: "last_index c s < 0 \<longleftrightarrow> c \<notin> set s"
  by (metis last_index_none last_index_split of_nat_less_0_iff split_last_ex zero_less_one
      neg_less_0_iff_less)

lemmas last_index_simps = last_index_none last_index_split

text \<open>Keys of the form \<open>app + "/" + project\<close> are unambiguous when the project has no slash.\<close>

lemma slash_key_inj:
  fixes c :: char
  assumes "a @ c # p = b @ c # q" and "c \<notin> set p" and "c \<notin> set q"
  shows "a = b \<and> p = q"
proof -
  have "last_index c (a @ c # p) = int (length a)" and "last_index c (b @ c # q) = int (length b)"
    using assms(2,3) by (simp_all add: last_index_simps)
  with assms(1) have "length a = length b" by simp
  with assms(1) show ?thesis by simp
qed

section \<open>Loops\<close>

text \<open>A loop whose body returns at the first error, and a sequence of such checks.\<close>

fun first_err :: "('a \<Rightarrow> 'e option) \<Rightarrow> 'a list \<Rightarrow> 'e option" where
  "first_err f [] = None"
| "first_err f (x # xs) = (case f x of Some e \<Rightarrow> Some e | None \<Rightarrow> first_err f xs)"

definition first_some :: "'e option list \<Rightarrow> 'e option" where
  "first_some = first_err id"

text \<open>A check of each element against those before it (\<open>seen\<close>), as the duplicate checks do.\<close>

fun first_dup :: "'a list \<Rightarrow> 'a list \<Rightarrow> 'a option" where
  "first_dup seen [] = None"
| "first_dup seen (x # xs) = (if x \<in> set seen then Some x else first_dup (x # seen) xs)"

text \<open>\<open>if !seen[x] { seen[x] = true; out = append(out, x) }\<close>.\<close>

fun dedup :: "'a list \<Rightarrow> 'a list \<Rightarrow> 'a list" where
  "dedup seen [] = []"
| "dedup seen (x # xs) = (if x \<in> set seen then dedup seen xs else x # dedup (x # seen) xs)"

definition check :: "bool \<Rightarrow> 'e \<Rightarrow> 'e option" where
  "check ok e = (if ok then None else Some e)"

lemma check_None [simp, go_simps]: "check ok e = None \<longleftrightarrow> ok"
  by (simp add: check_def)

lemma check_Some [simp, go_simps]: "check ok e = Some e' \<longleftrightarrow> \<not> ok \<and> e' = e"
  by (auto simp: check_def)

lemma first_err_None [simp, go_simps]: "first_err f xs = None \<longleftrightarrow> (\<forall>x \<in> set xs. f x = None)"
  by (induction xs) (auto split: option.splits)

lemma first_err_Some:
  "first_err f xs = Some e \<Longrightarrow>
     \<exists>ys x zs. xs = ys @ x # zs \<and> (\<forall>y \<in> set ys. f y = None) \<and> f x = Some e"
proof (induction xs)
  case (Cons a xs)
  show ?case
  proof (cases "f a")
    case None
    with Cons.prems have "first_err f xs = Some e" by simp
    from Cons.IH [OF this] obtain ys x zs
      where "xs = ys @ x # zs" "\<forall>y \<in> set ys. f y = None" "f x = Some e" by blast
    with None have "a # xs = (a # ys) @ x # zs \<and> (\<forall>y \<in> set (a # ys). f y = None) \<and> f x = Some e" by simp
    then show ?thesis by blast
  next
    case (Some e')
    with Cons.prems have "a # xs = [] @ a # xs \<and> (\<forall>y \<in> set []. f y = None) \<and> f a = Some e" by simp
    then show ?thesis by blast
  qed
qed simp

lemma first_err_append:
  "first_err f (xs @ ys) = (case first_err f xs of Some e \<Rightarrow> Some e | None \<Rightarrow> first_err f ys)"
  by (induction xs) (simp_all del: first_err_None split: option.split)

lemma first_some_None [simp, go_simps]: "first_some xs = None \<longleftrightarrow> (\<forall>x \<in> set xs. x = None)"
  by (simp add: first_some_def)

lemma first_some_None_Cons: "first_some [] = None \<longleftrightarrow> True"
    "first_some (x # xs) = None \<longleftrightarrow> x = None \<and> first_some xs = None"
  by auto

lemma first_some_Cons: "first_some (x # xs) = (case x of Some e \<Rightarrow> Some e | None \<Rightarrow> first_some xs)"
  by (simp add: first_some_def split: option.splits)

lemma first_some_Nil: "first_some [] = None"
  by (simp add: first_some_def)

lemma first_dup_None [simp, go_simps]:
  "first_dup seen xs = None \<longleftrightarrow> distinct xs \<and> set seen \<inter> set xs = {}"
  by (induction xs arbitrary: seen) auto

lemma first_dup_Some: "first_dup seen xs = Some x \<Longrightarrow> x \<in> set xs"
  by (induction xs arbitrary: seen) (auto split: if_splits)

lemma set_dedup [simp, go_simps]: "set (dedup seen xs) = set xs - set seen"
  by (induction xs arbitrary: seen) auto

lemma distinct_dedup [simp]: "distinct (dedup seen xs)"
  by (induction xs arbitrary: seen) auto

lemma dedup_idem: "distinct xs \<Longrightarrow> set seen \<inter> set xs = {} \<Longrightarrow> dedup seen xs = xs"
  by (induction xs arbitrary: seen) auto

lemma dedup_cong: "set a = set b \<Longrightarrow> dedup a zs = dedup b zs"
proof (induction zs arbitrary: a b)
  case (Cons z zs)
  have "dedup (z # a) zs = dedup (z # b) zs" and "dedup a zs = dedup b zs"
    using Cons.prems by (auto intro!: Cons.IH)
  with Cons.prems show ?case by simp
qed simp

lemma dedup_append: "dedup seen (xs @ ys) = dedup seen xs @ dedup (rev xs @ seen) ys"
proof (induction xs arbitrary: seen)
  case (Cons x xs)
  have "dedup (rev xs @ x # seen) ys = dedup (x # rev xs @ seen) ys"
    and "x \<in> set seen \<Longrightarrow> dedup (rev xs @ seen) ys = dedup (rev xs @ x # seen) ys"
    by (auto intro!: dedup_cong)
  with Cons show ?case by simp
qed simp

section \<open>Maps as association lists\<close>

definition lookup :: "('k \<times> 'v) list \<Rightarrow> 'k \<Rightarrow> 'v option" where
  "lookup = map_of"

definition keys :: "('k \<times> 'v) list \<Rightarrow> 'k list" where
  "keys = map fst"

definition wf_map :: "('k \<times> 'v) list \<Rightarrow> bool" where
  "wf_map m \<longleftrightarrow> distinct (keys m)"

fun put :: "'k \<Rightarrow> 'v \<Rightarrow> ('k \<times> 'v) list \<Rightarrow> ('k \<times> 'v) list" where
  "put k v [] = [(k, v)]"
| "put k v ((k', v') # m) = (if k' = k then (k, v) # m else (k', v') # put k v m)"

lemma lookup_simps [simp, go_simps]:
  "lookup [] k = None"
  "lookup ((k', v) # m) k = (if k = k' then Some v else lookup m k)"
  by (simp_all add: lookup_def)

lemma lookup_in: "lookup m k = Some v \<Longrightarrow> (k, v) \<in> set m"
  by (simp add: lookup_def map_of_SomeD)

lemma lookup_wf: "wf_map m \<Longrightarrow> (k, v) \<in> set m \<Longrightarrow> lookup m k = Some v"
  by (simp add: lookup_def wf_map_def keys_def)

lemma lookup_wf_iff: "wf_map m \<Longrightarrow> lookup m k = Some v \<longleftrightarrow> (k, v) \<in> set m"
  by (metis lookup_in lookup_wf)

lemma lookup_None: "lookup m k = None \<longleftrightarrow> k \<notin> set (keys m)"
  by (simp add: lookup_def keys_def map_of_eq_None_iff)

lemma lookup_put [simp, go_simps]: "lookup (put k v m) = (lookup m)(k \<mapsto> v)"
  by (induction k v m rule: put.induct) (auto simp: fun_eq_iff)

lemma keys_put: "set (keys (put k v m)) = insert k (set (keys m))"
  by (induction k v m rule: put.induct) (auto simp: keys_def)

lemma put_fresh: "k \<notin> set (keys m) \<Longrightarrow> put k v m = m @ [(k, v)]"
  by (induction k v m rule: put.induct) (auto simp: keys_def)

lemma wf_map_put [simp, intro]: "wf_map m \<Longrightarrow> wf_map (put k v m)"
proof (induction k v m rule: put.induct)
  case (2 k v k' v' m)
  then show ?case using keys_put [of k v m] by (auto simp: wf_map_def keys_def)
qed (simp add: wf_map_def keys_def)

lemma wf_map_Nil [simp, intro]: "wf_map []"
  by (simp add: wf_map_def keys_def)

section \<open>Time\<close>

text \<open>
  An instant is its number of nanoseconds since the Unix epoch, in UTC; \<open>None\<close> stands for
  Go's zero \<open>time.Time\<close> where the code distinguishes it. 1 January 1970 was a Thursday.
\<close>

type_synonym time = int

definition second :: int where "second = 1000000000"
definition minute :: int where "minute = 60 * second"
definition hour :: int where "hour = 60 * minute"
definition day :: int where "day = 24 * hour"

lemma time_units: "second = 1000000000" "minute = 60000000000" "hour = 3600000000000"
    "day = 86400000000000"
  by (simp_all add: day_def hour_def minute_def second_def)

definition hour_of :: "time \<Rightarrow> int" where
  "hour_of t = (t mod day) div hour"

definition weekday_of :: "time \<Rightarrow> int" where
  "weekday_of t = (t div day + 4) mod 7"

text \<open>
  Go's \<open>time.Duration\<close> is a signed 64-bit count of nanoseconds, so a product of an \<open>int\<close> and a
  unit wraps around.
\<close>

definition wrap64 :: "int \<Rightarrow> int" where
  "wrap64 i = (i + 2 ^ 63) mod 2 ^ 64 - 2 ^ 63"

lemma wrap64_id: "- (2 ^ 63) \<le> i \<Longrightarrow> i < 2 ^ 63 \<Longrightarrow> wrap64 i = i"
  by (simp add: wrap64_def)

lemma wrap64_range: "- (2 ^ 63) \<le> wrap64 i \<and> wrap64 i < 2 ^ 63"
  by (simp add: wrap64_def)

section \<open>Database statements\<close>

text \<open>
  A statement may fail before it runs, or run and lose its acknowledgement, so that the caller sees
  an error and the tables have changed all the same.
\<close>

datatype fault = NoFault | Failed string | LostAck string

definition exec_stmt :: "fault \<Rightarrow> ('t \<Rightarrow> 'r \<times> 't) \<Rightarrow> 't \<Rightarrow> (string + 'r) \<times> 't" where
  "exec_stmt fault stmt t =
     (case fault of
        Failed e \<Rightarrow> (Inl e, t)
      | LostAck e \<Rightarrow> (Inl e, snd (stmt t))
      | NoFault \<Rightarrow> (let (r, t') = stmt t in (Inr r, t')))"

lemma exec_stmt_simps [simp]:
  "exec_stmt NoFault stmt t = (Inr (fst (stmt t)), snd (stmt t))"
  "exec_stmt (Failed e) stmt t = (Inl e, t)"
  "exec_stmt (LostAck e) stmt t = (Inl e, snd (stmt t))"
  by (simp_all add: exec_stmt_def split_beta)

lemma exec_stmt_table: "snd (exec_stmt fault stmt t) \<in> {t, snd (stmt t)}"
  by (cases fault) simp_all

lemma exec_stmt_Inr: "exec_stmt fault stmt t = (Inr r, t') \<longleftrightarrow> fault = NoFault \<and> stmt t = (r, t')"
  by (cases fault) (auto simp: prod_eq_iff)

end
