(* ===== verification/Sync_Windows.thy ===== *)
theory Sync_Windows
  imports RunCD_Prelude
begin

text \<open>
  Sync windows (\<open>internal/config/syncwindow.go\<close> and the window validation of
  \<open>internal/config/config.go\<close>): the days and UTC hours in which auto-sync is permitted.
  \<open>window_covers\<close> is the specification of a single window, a set of half open intervals of
  time, one per selected day; the lemmas show that the code's case analysis on the hour and on
  today's or yesterday's weekday decides exactly that set.
\<close>

section \<open>Model\<close>

definition sync_window_allow :: string where "sync_window_allow = ''allow''"
definition sync_window_deny :: string where "sync_window_deny = ''deny''"

record sync_window =
  w_kind :: string
  w_days :: "string list"
  w_start_hour :: int
  w_end_hour :: int

datatype window_error =
    WindowKind string
  | WindowDay string
  | WindowHours int int
  | WindowEqualHours int

definition valid_sync_window_days :: "string list" where
  "valid_sync_window_days = [''Mon'', ''Tue'', ''Wed'', ''Thu'', ''Fri'', ''Sat'', ''Sun'']"

definition window_validate :: "sync_window \<Rightarrow> window_error option" where
  "window_validate w = first_some [
     check (w_kind w = sync_window_allow \<or> w_kind w = sync_window_deny) (WindowKind (w_kind w)),
     first_err (\<lambda>d. check (d \<in> set valid_sync_window_days) (WindowDay d)) (w_days w),
     check (\<not> (w_start_hour w < 0 \<or> w_start_hour w > 24 \<or> w_end_hour w < 0 \<or> w_end_hour w > 24))
       (WindowHours (w_start_hour w) (w_end_hour w)),
     check (\<not> (w_start_hour w = w_end_hour w \<and> w_start_hour w \<noteq> 0))
       (WindowEqualHours (w_start_hour w))]"

definition sync_window_weekday :: "(int \<times> string) list" where
  "sync_window_weekday = [(0, ''Sun''), (1, ''Mon''), (2, ''Tue''), (3, ''Wed''), (4, ''Thu''),
     (5, ''Fri''), (6, ''Sat'')]"

definition day_matches :: "sync_window \<Rightarrow> int \<Rightarrow> bool" where
  "day_matches w d =
     (if w_days w = [] then True
      else let name = (case lookup sync_window_weekday d of Some n \<Rightarrow> n | None \<Rightarrow> '''')
           in list_ex (\<lambda>x. x = name) (w_days w))"

text \<open>In UTC, \<open>t.AddDate(0, 0, -1)\<close> is the same clock time one day earlier.\<close>

definition window_matches :: "sync_window \<Rightarrow> time \<Rightarrow> bool" where
  "window_matches w t =
     (if w_start_hour w = w_end_hour w then day_matches w (weekday_of t)
      else let h = hour_of t in
        if w_start_hour w < w_end_hour w
        then day_matches w (weekday_of t) \<and> h \<ge> w_start_hour w \<and> h < w_end_hour w
        else if h \<ge> w_start_hour w then day_matches w (weekday_of t)
        else if h < w_end_hour w then day_matches w (weekday_of (t - day))
        else False)"

fun windows_loop :: "bool \<Rightarrow> bool \<Rightarrow> sync_window list \<Rightarrow> time \<Rightarrow> bool" where
  "windows_loop has_allow allow_matched [] t = (if has_allow then allow_matched else True)"
| "windows_loop has_allow allow_matched (w # ws) t =
     (if w_kind w = sync_window_deny then
        (if window_matches w t then False else windows_loop has_allow allow_matched ws t)
      else if w_kind w = sync_window_allow then
        windows_loop True (if window_matches w t then True else allow_matched) ws t
      else windows_loop has_allow allow_matched ws t)"

definition windows_allow :: "sync_window list \<Rightarrow> time \<Rightarrow> bool" where
  "windows_allow ws t = windows_loop False False ws t"

section \<open>Specification\<close>

text \<open>Day number \<open>n\<close> opens the window at its start hour; it closes the same day, or the next one.\<close>

definition window_opens :: "sync_window \<Rightarrow> int \<Rightarrow> time" where
  "window_opens w n = n * day + (if w_start_hour w = w_end_hour w then 0 else w_start_hour w * hour)"

definition window_closes :: "sync_window \<Rightarrow> int \<Rightarrow> time" where
  "window_closes w n =
     (if w_start_hour w = w_end_hour w then (n + 1) * day
      else if w_start_hour w < w_end_hour w then n * day + w_end_hour w * hour
      else (n + 1) * day + w_end_hour w * hour)"

definition window_covers :: "sync_window \<Rightarrow> time \<Rightarrow> bool" where
  "window_covers w t \<longleftrightarrow>
     (\<exists>n. day_matches w ((n + 4) mod 7) \<and> window_opens w n \<le> t \<and> t < window_closes w n)"

section \<open>Lemmas\<close>

lemma day_pos: "0 < day" and hour_pos: "0 < hour" and day_hours: "day = 24 * hour"
  by (simp_all add: time_units)

lemma hour_of_ge: "h \<le> hour_of t \<longleftrightarrow> (t div day) * day + h * hour \<le> t"
  and hour_of_less: "hour_of t < h \<longleftrightarrow> t < (t div day) * day + h * hour"
proof -
  have "h \<le> r div 3600000000000 \<longleftrightarrow> h * 3600000000000 \<le> r" for r :: int
    by linarith
  moreover have "t = t div day * day + t mod day" by simp
  ultimately show "h \<le> hour_of t \<longleftrightarrow> (t div day) * day + h * hour \<le> t"
    unfolding hour_of_def time_units(3) by linarith
  then show "hour_of t < h \<longleftrightarrow> t < (t div day) * day + h * hour" by linarith
qed

lemma hour_of_range: "0 \<le> hour_of t \<and> hour_of t < 24"
  unfolding hour_of_ge hour_of_less unfolding time_units by linarith

lemma weekday_yesterday: "weekday_of (t - day) = (t div day - 1 + 4) mod 7"
proof -
  have "(t - day) div day = t div day - 1"
    unfolding time_units by linarith
  then show ?thesis by (simp add: weekday_of_def)
qed

text \<open>The day on which a window covering \<open>t\<close> opened is today or yesterday.\<close>

lemma day_interval_unique:
  assumes "n * day + a \<le> t" and "t < n * day + b" and "0 \<le> a" and "b \<le> day"
  shows "n = t div day"
  using assms unfolding time_units by linarith

lemma day_interval_wrap:
  assumes "n * day + a \<le> t" and "t < (n + 1) * day + b" and "0 \<le> a" and "b \<le> day"
  shows "n = t div day \<or> n = t div day - 1"
proof -
  have "n \<le> t div day" and "t div day \<le> n + 1"
    using assms unfolding time_units by (simp_all add: distrib_right)
  then show ?thesis by linarith
qed

lemma window_hours:
  assumes "window_validate w = None"
  shows "0 \<le> w_start_hour w" "w_start_hour w \<le> 24" "0 \<le> w_end_hour w" "w_end_hour w \<le> 24"
  using assms by (auto simp: window_validate_def)

lemma within_today: "(t div day) * day \<le> t" "t < (t div day + 1) * day"
  unfolding time_units by (simp_all add: distrib_right)

lemma whole_day_covers:
  assumes "w_start_hour w = w_end_hour w"
  shows "window_matches w t \<longleftrightarrow> window_covers w t"
proof -
  have q: "n * day \<le> t \<and> t < (n + 1) * day \<longleftrightarrow> n = t div day" for n
  proof
    assume "n * day \<le> t \<and> t < (n + 1) * day"
    then have "n * day + 0 \<le> t" and "t < n * day + day" by (simp_all add: distrib_right)
    then show "n = t div day" by (rule day_interval_unique) simp_all
  qed (use within_today in simp)
  have "window_covers w t \<longleftrightarrow> (\<exists>n. day_matches w ((n + 4) mod 7) \<and> n * day \<le> t \<and> t < (n + 1) * day)"
    unfolding window_covers_def window_opens_def window_closes_def if_P [OF assms] add_0_right ..
  also have "\<dots> \<longleftrightarrow> day_matches w ((t div day + 4) mod 7)"
    by (simp only: q) blast
  finally show ?thesis using assms by (simp add: window_matches_def weekday_of_def)
qed

lemma plain_window_covers:
  assumes "window_validate w = None" and "w_start_hour w < w_end_hour w"
  shows "window_matches w t \<longleftrightarrow> window_covers w t"
proof -
  have "n = t div day" if "n * day + w_start_hour w * hour \<le> t" "t < n * day + w_end_hour w * hour" for n
    using that window_hours [OF assms(1)]
    by (intro day_interval_unique [where a = "w_start_hour w * hour" and b = "w_end_hour w * hour"]) (auto simp: time_units)
  with assms(2) show ?thesis
    by (auto simp: window_matches_def window_covers_def window_opens_def window_closes_def weekday_of_def hour_of_ge hour_of_less)
qed

text \<open>A window over midnight covers an instant of the day it opened on, or of the day after.\<close>

lemma overnight_covers:
  assumes "window_validate w = None" and "w_end_hour w < w_start_hour w"
  shows "window_covers w t \<longleftrightarrow>
    (day_matches w ((t div day + 4) mod 7) \<and> (t div day) * day + w_start_hour w * hour \<le> t) \<or>
    (day_matches w ((t div day - 1 + 4) mod 7) \<and> t < (t div day) * day + w_end_hour w * hour)" (is "_ \<longleftrightarrow> ?R")
proof -
  let ?s = "w_start_hour w" and ?e = "w_end_hour w" and ?q = "t div day"
  note range = window_hours [OF assms(1)]
  have days: "n = ?q \<or> n = ?q - 1" if "n * day + ?s * hour \<le> t" "t < (n + 1) * day + ?e * hour" for n
    using that range by (intro day_interval_wrap [where a = "?s * hour" and b = "?e * hour"]) (auto simp: time_units)
  have late: "t < (?q + 1) * day + ?e * hour" using within_today [of t] range hour_pos
    by (smt (verit) mult_nonneg_nonneg)
  have early: "(?q - 1) * day + ?s * hour \<le> t"
    using within_today [of t] range unfolding time_units by (simp add: left_diff_distrib)
  have neq: "?s \<noteq> ?e" "\<not> ?s < ?e" using assms(2) by simp_all
  have "window_covers w t \<longleftrightarrow> (\<exists>n. day_matches w ((n + 4) mod 7) \<and> n * day + ?s * hour \<le> t \<and> t < (n + 1) * day + ?e * hour)"
    (is "_ \<longleftrightarrow> (\<exists>n. ?P n)")
    using neq by (simp only: window_covers_def window_opens_def window_closes_def if_False)
  also have "\<dots> \<longleftrightarrow> ?P ?q \<or> ?P (?q - 1)" using days by blast
  also have "\<dots> \<longleftrightarrow> ?R" using late early by simp
  finally show ?thesis .
qed

lemma window_matches_covers:
  assumes "window_validate w = None"
  shows "window_matches w t \<longleftrightarrow> window_covers w t"
proof -
  let ?s = "w_start_hour w" and ?e = "w_end_hour w" and ?q = "t div day"
  consider (all) "?s = ?e" | (plain) "?s < ?e" | (wrap) "?e < ?s" by linarith
  then show ?thesis
  proof cases
    case wrap
    have "window_matches w t \<longleftrightarrow>
       (?q * day + ?s * hour \<le> t \<and> day_matches w ((?q + 4) mod 7)) \<or>
       (\<not> ?q * day + ?s * hour \<le> t \<and> t < ?q * day + ?e * hour \<and> day_matches w ((?q - 1 + 4) mod 7))"
      using wrap weekday_yesterday [of t]
      by (simp add: window_matches_def weekday_of_def hour_of_ge hour_of_less Let_def)
    moreover have "?q * day + ?e * hour \<le> ?q * day + ?s * hour"
      using wrap hour_pos by simp
    ultimately show ?thesis using overnight_covers [OF assms wrap, of t] by auto
  qed (simp_all add: whole_day_covers plain_window_covers assms)
qed

text \<open>The loop over the windows, with its two flags.\<close>

lemma windows_loop_iff:
  "windows_loop has_allow allow_matched ws t \<longleftrightarrow>
     (\<forall>w \<in> set ws. w_kind w = sync_window_deny \<longrightarrow> \<not> window_matches w t) \<and>
     (has_allow \<or> (\<exists>w \<in> set ws. w_kind w = sync_window_allow) \<longrightarrow>
        allow_matched \<or> (\<exists>w \<in> set ws. w_kind w = sync_window_allow \<and> window_matches w t))"
  by (induction ws arbitrary: has_allow allow_matched)
    (auto simp: sync_window_allow_def sync_window_deny_def)

lemma windows_allow_iff:
  "windows_allow ws t \<longleftrightarrow>
     (\<forall>w \<in> set ws. w_kind w = sync_window_deny \<longrightarrow> \<not> window_matches w t) \<and>
     ((\<exists>w \<in> set ws. w_kind w = sync_window_allow) \<longrightarrow>
        (\<exists>w \<in> set ws. w_kind w = sync_window_allow \<and> window_matches w t))"
  by (simp add: windows_allow_def windows_loop_iff)

lemma windows_allow_Nil [simp]: "windows_allow [] t"
  by (simp add: windows_allow_iff)

section \<open>Properties\<close>

text \<open>C14: for validated windows, auto-sync is permitted at an instant exactly when no deny window's
  intervals contain it and, if any allow window is declared, some allow window's intervals do:
  the hour and weekday arithmetic, including windows that wrap past midnight, decides the declared
  intervals, and a deny window always wins.\<close>

theorem windows_allow_spec:
  assumes "\<forall>w \<in> set ws. window_validate w = None"
  shows "windows_allow ws t \<longleftrightarrow>
     (\<forall>w \<in> set ws. w_kind w = sync_window_deny \<longrightarrow> \<not> window_covers w t) \<and>
     ((\<exists>w \<in> set ws. w_kind w = sync_window_allow) \<longrightarrow>
        (\<exists>w \<in> set ws. w_kind w = sync_window_allow \<and> window_covers w t))"
  using assms by (auto simp: windows_allow_iff window_matches_covers)

text \<open>A Friday 22:00 to 06:00 deny window, at 03:00 on Saturday 3 January 1970.\<close>

definition friday_night :: sync_window where
  "friday_night = \<lparr>w_kind = ''deny'', w_days = [''Fri''], w_start_hour = 22, w_end_hour = 6\<rparr>"

theorem windows_allow_spec_witness:
  "\<not> windows_allow [friday_night] (2 * day + 3 * hour) \<and> window_covers friday_night (2 * day + 3 * hour)"
proof -
  have valid: "\<forall>w \<in> set [friday_night]. window_validate w = None"
    by (simp add: friday_night_def window_validate_def first_some_Cons first_some_Nil check_def
        valid_sync_window_days_def sync_window_deny_def)
  have "\<not> windows_allow [friday_night] (2 * day + 3 * hour)"
    by (simp add: windows_allow_def friday_night_def sync_window_deny_def window_matches_def hour_of_def
        weekday_of_def time_units day_matches_def sync_window_weekday_def)
  then show ?thesis
    using windows_allow_spec [OF valid, of "2 * day + 3 * hour"]
    by (auto simp: friday_night_def sync_window_deny_def sync_window_allow_def)
qed

end
