(* ===== verification/Config.thy ===== *)
theory Config
  imports Sync_Windows
begin

text \<open>
  The root configuration (\<open>internal/config/config.go\<close>): the types of \<open>runcd.yaml\<close>, the
  field-by-field merge of sync policies and the validation \<open>Parse\<close> performs after decoding.
  Decoding YAML (\<open>gopkg.in/yaml.v3\<close>) and parsing a URL are parameters. A slice or pointer whose
  nil value the code tells apart from an empty one is an \<^typ>\<open>'a option\<close>; a map the code ranges
  over is an association list in the order the runtime picks.
\<close>

section \<open>Types\<close>

record retry_policy =
  rp_limit :: int
  rp_backoff_seconds :: int

record sync_policy =
  sp_auto :: "bool option"
  sp_retry :: "retry_policy option"
  sp_self_heal :: "bool option"
  sp_windows :: "sync_window list option"
  sp_observe :: "bool option"

definition merge :: "sync_policy \<Rightarrow> sync_policy \<Rightarrow> sync_policy" where
  "merge base override =
     (let m = base;
          m = (if sp_auto override \<noteq> None then m\<lparr>sp_auto := sp_auto override\<rparr> else m);
          m = (if sp_retry override \<noteq> None then m\<lparr>sp_retry := sp_retry override\<rparr> else m);
          m = (if sp_self_heal override \<noteq> None then m\<lparr>sp_self_heal := sp_self_heal override\<rparr> else m);
          m = (if sp_windows override \<noteq> None then m\<lparr>sp_windows := sp_windows override\<rparr> else m);
          m = (if sp_observe override \<noteq> None then m\<lparr>sp_observe := sp_observe override\<rparr> else m)
      in m)"

text \<open>Ranging over a nil slice of windows is ranging over an empty one.\<close>

definition policy_windows :: "sync_policy \<Rightarrow> sync_window list" where
  "policy_windows p = (case sp_windows p of None \<Rightarrow> [] | Some ws \<Rightarrow> ws)"

record notify_rule =
  nr_on :: string
  nr_name :: string
  nr_for_minutes :: "int option"
  nr_for_hours :: "int option"

record notify_override =
  no_slack :: string
  no_rules :: "string list option"

record notify_config =
  nc_slack :: "(string \<times> string) list"
  nc_rules :: "notify_rule list"

record environment =
  env_projects :: "string list"
  env_folders :: "string list"
  env_region :: string
  env_sync :: sync_policy
  env_notify :: notify_override

record defaults =
  df_region :: string
  df_managed_fields :: "string list"
  df_sync :: sync_policy

record override =
  ov_region :: string
  ov_track :: string
  ov_version :: string

record source =
  src_repo :: string
  src_path :: string
  src_branch :: string

record app =
  app_name :: string
  app_env :: string
  app_source :: source
  app_overrides :: "(string \<times> override) list"
  app_exclude :: "string list"
  app_ignore_fields :: "string list"
  app_ignore_preconditions :: "string list"

record root =
  root_environments :: "(string \<times> environment) list"
  root_defaults :: defaults
  root_apps :: "app list"
  root_notify :: notify_config

text \<open>The place of a sync policy in \<open>runcd.yaml\<close>, as its errors name it.\<close>

datatype sync_path = DefaultsSync | EnvironmentSync string

datatype config_error =
    ParseYaml string
  | UnknownEnvironment string string
  | DuplicateUnit string string
  | DuplicateProject string string
  | DuplicateFolder string string
  | UnknownManagedField string
  | TrackAndVersion string string
  | UnknownIgnoreField string string
  | BadIgnorePrecondition string string
  | DefaultsWindow window_error
  | EnvironmentWindow string window_error
  | RetryNotImplemented sync_path
  | SelfHealNotImplemented sync_path
  | BadRuleName string
  | RuleNeedsForMinutes
  | ForMinutesNotPositive int
  | RuleNeedsForHours
  | ForHoursNotPositive int
  | UnknownRule string
  | MissingDefaultSlack
  | BadWebhookUrl string
  | UnknownSlackName string string
  | UnknownRuleReference string string
  | AmbiguousRuleReference string string

section \<open>Validation\<close>

definition valid_managed_fields :: "string list" where
  "valid_managed_fields = [''image'', ''traffic'', ''env'']"

definition valid_precondition_types :: "string list" where
  "valid_precondition_types = [''pubsubTopic'', ''pubsubSubscription'']"

definition valid_rule_name :: "string \<Rightarrow> bool" where
  "valid_rule_name s \<longleftrightarrow> s \<noteq> [] \<and> list_all is_word_char s"

definition validate_ignore_precondition :: "string \<Rightarrow> bool" where
  "validate_ignore_precondition entry =
     (case cut_at (CHR '':'') entry of
        None \<Rightarrow> False
      | Some (ty, name) \<Rightarrow> if name = '''' then False else ty \<in> set valid_precondition_types)"

definition validate_sync_not_implemented :: "sync_policy \<Rightarrow> sync_path \<Rightarrow> config_error option" where
  "validate_sync_not_implemented sync path =
     (if sp_retry sync \<noteq> None then Some (RetryNotImplemented path)
      else if sp_self_heal sync \<noteq> None then Some (SelfHealNotImplemented path)
      else None)"

text \<open>\<open>url_parse\<close> is \<open>url.Parse\<close>: the scheme and the host, or no value on an error.\<close>

definition validate_webhook_url :: "(string \<Rightarrow> (string \<times> string) option) \<Rightarrow> string \<Rightarrow> bool" where
  "validate_webhook_url url_parse raw =
     (if raw = '''' then False
      else case url_parse raw of
        None \<Rightarrow> False
      | Some (scheme, host) \<Rightarrow> \<not> ((scheme \<noteq> ''http'' \<and> scheme \<noteq> ''https'') \<or> host = ''''))"

definition lookup_environment :: "root \<Rightarrow> string \<Rightarrow> environment option" where
  "lookup_environment r name = lookup (root_environments r) name"

definition app_declared_projects :: "root \<Rightarrow> app \<Rightarrow> string list" where
  "app_declared_projects r a =
     (case lookup_environment r (app_env a) of None \<Rightarrow> []
      | Some e \<Rightarrow> filter (\<lambda>p. p \<notin> set (app_exclude a)) (env_projects e))"

definition unit_key :: "string \<Rightarrow> string \<Rightarrow> string" where
  "unit_key a p = a @ CHR ''/'' # p"

fun check_units :: "string list \<Rightarrow> (string \<times> string) list \<Rightarrow> config_error option" where
  "check_units seen [] = None"
| "check_units seen ((a, p) # us) =
     (if unit_key a p \<in> set seen then Some (DuplicateUnit a p) else check_units (unit_key a p # seen) us)"

definition check_environment :: "string \<times> environment \<Rightarrow> config_error option" where
  "check_environment ne =
     first_some [map_option (DuplicateProject (fst ne)) (first_dup [] (env_projects (snd ne))),
                 map_option (DuplicateFolder (fst ne)) (first_dup [] (env_folders (snd ne)))]"

definition check_overrides :: "app \<Rightarrow> config_error option" where
  "check_overrides a = first_err (\<lambda>(project, ov).
     check (\<not> (ov_track ov \<noteq> '''' \<and> ov_version ov \<noteq> '''')) (TrackAndVersion (app_name a) project))
     (app_overrides a)"

definition check_ignores :: "app \<Rightarrow> config_error option" where
  "check_ignores a =
     first_some [first_err (\<lambda>f. check (f \<in> set valid_managed_fields) (UnknownIgnoreField (app_name a) f))
                   (app_ignore_fields a),
                 first_err (\<lambda>p. check (validate_ignore_precondition p) (BadIgnorePrecondition (app_name a) p))
                   (app_ignore_preconditions a)]"

definition check_rule :: "notify_rule \<Rightarrow> config_error option" where
  "check_rule rule =
     (if nr_name rule \<noteq> '''' \<and> \<not> valid_rule_name (nr_name rule) then Some (BadRuleName (nr_name rule))
      else if nr_on rule = ''syncFailed'' \<or> nr_on rule = ''healthRecovered'' then None
      else if nr_on rule = ''healthDegraded'' then
        (case nr_for_minutes rule of
           None \<Rightarrow> Some RuleNeedsForMinutes
         | Some n \<Rightarrow> if n \<le> 0 then Some (ForMinutesNotPositive n) else None)
      else if nr_on rule = ''outOfSyncGated'' then
        (case nr_for_hours rule of
           None \<Rightarrow> Some RuleNeedsForHours
         | Some n \<Rightarrow> if n \<le> 0 then Some (ForHoursNotPositive n) else None)
      else Some (UnknownRule (nr_on rule)))"

definition config_rule_id :: "notify_rule \<Rightarrow> string" where
  "config_rule_id rule = (if nr_name rule = '''' then nr_on rule else nr_name rule)"

definition check_env_notify :: "notify_config \<Rightarrow> string \<times> environment \<Rightarrow> config_error option" where
  "check_env_notify n ne =
     (let o_n = env_notify (snd ne); ids = map config_rule_id (nc_rules n) in
      first_some
       [if no_slack o_n \<noteq> '''' then
          (case lookup (nc_slack n) (no_slack o_n) of
             None \<Rightarrow> Some (UnknownSlackName (fst ne) (no_slack o_n)) | Some _ \<Rightarrow> None)
        else None,
        first_err (\<lambda>r. if count_list ids r = 0 then Some (UnknownRuleReference (fst ne) r)
                       else if count_list ids r = 1 then None
                       else Some (AmbiguousRuleReference (fst ne) r))
          (case no_rules o_n of None \<Rightarrow> [] | Some rs \<Rightarrow> rs)])"

definition config_check :: "(string \<Rightarrow> (string \<times> string) option) \<Rightarrow> root \<Rightarrow> config_error option" where
  "config_check url_parse r = first_some
    [first_err (\<lambda>a. check (lookup_environment r (app_env a) \<noteq> None)
                      (UnknownEnvironment (app_name a) (app_env a))) (root_apps r),
     check_units [] (concat (map (\<lambda>a. map (Pair (app_name a)) (app_declared_projects r a)) (root_apps r))),
     first_err check_environment (root_environments r),
     first_err (\<lambda>f. check (f \<in> set valid_managed_fields) (UnknownManagedField f))
       (df_managed_fields (root_defaults r)),
     first_err check_overrides (root_apps r),
     first_err check_ignores (root_apps r),
     first_err (\<lambda>w. map_option DefaultsWindow (window_validate w)) (policy_windows (df_sync (root_defaults r))),
     first_err (\<lambda>ne. first_err (\<lambda>w. map_option (EnvironmentWindow (fst ne)) (window_validate w))
       (policy_windows (env_sync (snd ne)))) (root_environments r),
     validate_sync_not_implemented (df_sync (root_defaults r)) DefaultsSync,
     first_err (\<lambda>ne. validate_sync_not_implemented (env_sync (snd ne))
       (EnvironmentSync (fst ne))) (root_environments r),
     first_err check_rule (nc_rules (root_notify r)),
     check (\<not> (nc_rules (root_notify r) \<noteq> [] \<and>
               (case lookup (nc_slack (root_notify r)) ''default'' of None \<Rightarrow> [] | Some u \<Rightarrow> u) = []))
       MissingDefaultSlack,
     first_err (\<lambda>(name, raw). check (validate_webhook_url url_parse raw) (BadWebhookUrl name))
       (nc_slack (root_notify r)),
     first_err (check_env_notify (root_notify r)) (root_environments r)]"

definition config_parse ::
  "(string \<Rightarrow> string + root) \<Rightarrow> (string \<Rightarrow> (string \<times> string) option) \<Rightarrow> string \<Rightarrow> config_error + root" where
  "config_parse unmarshal url_parse data =
     (case unmarshal data of
        Inl e \<Rightarrow> Inl (ParseYaml e)
      | Inr r \<Rightarrow> (case config_check url_parse r of Some e \<Rightarrow> Inl e | None \<Rightarrow> Inr r))"

section \<open>Well-formed configurations\<close>

text \<open>What a configuration accepted by \<open>config_parse\<close> satisfies, stated on its own terms.\<close>

definition wf_rule :: "notify_rule \<Rightarrow> bool" where
  "wf_rule rule \<longleftrightarrow>
     (nr_name rule = [] \<or> list_all is_word_char (nr_name rule)) \<and>
     nr_on rule \<in> {''syncFailed'', ''healthDegraded'', ''outOfSyncGated'', ''healthRecovered''} \<and>
     (nr_on rule = ''healthDegraded'' \<longrightarrow> (\<exists>n > 0. nr_for_minutes rule = Some n)) \<and>
     (nr_on rule = ''outOfSyncGated'' \<longrightarrow> (\<exists>n > 0. nr_for_hours rule = Some n))"

definition wf_precondition_entry :: "string \<Rightarrow> bool" where
  "wf_precondition_entry s \<longleftrightarrow>
     (\<exists>ty name. s = ty @ CHR '':'' # name \<and> name \<noteq> [] \<and> ty \<in> {''pubsubTopic'', ''pubsubSubscription''})"

definition wf_app :: "root \<Rightarrow> app \<Rightarrow> bool" where
  "wf_app r a \<longleftrightarrow>
     app_env a \<in> set (keys (root_environments r)) \<and>
     (\<forall>(p, ov) \<in> set (app_overrides a). ov_track ov = [] \<or> ov_version ov = []) \<and>
     set (app_ignore_fields a) \<subseteq> {''image'', ''traffic'', ''env''} \<and>
     (\<forall>s \<in> set (app_ignore_preconditions a). wf_precondition_entry s)"

definition wf_policy :: "sync_policy \<Rightarrow> bool" where
  "wf_policy p \<longleftrightarrow> sp_retry p = None \<and> sp_self_heal p = None \<and>
     (\<forall>w \<in> set (policy_windows p). window_validate w = None)"

text \<open>Each rule an environment selects is the identifier of exactly one configured rule.\<close>

definition identifies_one :: "notify_config \<Rightarrow> string \<Rightarrow> bool" where
  "identifies_one n r \<longleftrightarrow> (\<exists>!i. i < length (nc_rules n) \<and> config_rule_id (nc_rules n ! i) = r)"

definition wf_environment :: "notify_config \<Rightarrow> environment \<Rightarrow> bool" where
  "wf_environment n e \<longleftrightarrow>
     distinct (env_projects e) \<and> distinct (env_folders e) \<and> wf_policy (env_sync e) \<and>
     (no_slack (env_notify e) = [] \<or> no_slack (env_notify e) \<in> set (keys (nc_slack n))) \<and>
     (\<forall>ids. no_rules (env_notify e) = Some ids \<longrightarrow>
        (\<forall>id \<in> set ids. identifies_one n id))"

definition declared_units :: "root \<Rightarrow> (string \<times> string) list" where
  "declared_units r = concat (map (\<lambda>a. map (Pair (app_name a)) (app_declared_projects r a)) (root_apps r))"

definition wf_root :: "(string \<Rightarrow> (string \<times> string) option) \<Rightarrow> root \<Rightarrow> bool" where
  "wf_root url_parse r \<longleftrightarrow>
     (\<forall>a \<in> set (root_apps r). wf_app r a) \<and>
     distinct (map (\<lambda>(a, p). unit_key a p) (declared_units r)) \<and>
     (\<forall>e \<in> snd ` set (root_environments r). wf_environment (root_notify r) e) \<and>
     set (df_managed_fields (root_defaults r)) \<subseteq> {''image'', ''traffic'', ''env''} \<and>
     wf_policy (df_sync (root_defaults r)) \<and>
     (\<forall>rule \<in> set (nc_rules (root_notify r)). wf_rule rule) \<and>
     (nc_rules (root_notify r) \<noteq> [] \<longrightarrow>
        (\<exists>u. lookup (nc_slack (root_notify r)) ''default'' = Some u \<and> u \<noteq> [])) \<and>
     (\<forall>(n, u) \<in> set (nc_slack (root_notify r)). validate_webhook_url url_parse u)"

section \<open>Lemmas\<close>

lemma merge_fields [simp]:
  "sp_auto (merge b ov) = (case sp_auto ov of None \<Rightarrow> sp_auto b | Some x \<Rightarrow> Some x)"
  "sp_retry (merge b ov) = (case sp_retry ov of None \<Rightarrow> sp_retry b | Some x \<Rightarrow> Some x)"
  "sp_self_heal (merge b ov) = (case sp_self_heal ov of None \<Rightarrow> sp_self_heal b | Some x \<Rightarrow> Some x)"
  "sp_windows (merge b ov) = (case sp_windows ov of None \<Rightarrow> sp_windows b | Some x \<Rightarrow> Some x)"
  "sp_observe (merge b ov) = (case sp_observe ov of None \<Rightarrow> sp_observe b | Some x \<Rightarrow> Some x)"
  by (auto simp: merge_def Let_def split: option.splits)

lemma check_units_None:
  "check_units seen us = None \<longleftrightarrow>
     distinct (map (\<lambda>(a, p). unit_key a p) us) \<and> set seen \<inter> (\<lambda>(a, p). unit_key a p) ` set us = {}"
  by (induction seen us rule: check_units.induct) auto

lemma unit_key_inj:
  "unit_key a p = unit_key b q \<Longrightarrow> CHR ''/'' \<notin> set p \<Longrightarrow> CHR ''/'' \<notin> set q \<Longrightarrow> a = b \<and> p = q"
  unfolding unit_key_def by (rule slash_key_inj)

lemma validate_ignore_precondition_iff:
  "validate_ignore_precondition s \<longleftrightarrow> wf_precondition_entry s"
proof (cases "cut_at (CHR '':'') s")
  case None
  moreover from None have "CHR '':'' \<notin> set s" by (simp add: cut_at_None)
  ultimately show ?thesis
    by (auto simp: validate_ignore_precondition_def wf_precondition_entry_def)
next
  case (Some ab)
  then obtain a b where ab: "ab = (a, b)" and s: "s = a @ CHR '':'' # b" "CHR '':'' \<notin> set a"
    by (metis cut_at_Some surj_pair)
  have uniq: "ty = a \<and> name = b"
    if "s = ty @ CHR '':'' # name" "ty \<in> {''pubsubTopic'', ''pubsubSubscription''}" for ty name
  proof -
    from that have "CHR '':'' \<notin> set ty" by auto
    with that have "cut_at (CHR '':'') s = Some (ty, name)" by (simp add: cut_at_Some)
    with Some ab show ?thesis by simp
  qed
  have "wf_precondition_entry s \<longleftrightarrow> b \<noteq> [] \<and> a \<in> {''pubsubTopic'', ''pubsubSubscription''}"
    unfolding wf_precondition_entry_def using uniq s(1) by blast
  moreover have "validate_ignore_precondition s \<longleftrightarrow> b \<noteq> [] \<and> a \<in> {''pubsubTopic'', ''pubsubSubscription''}"
    unfolding validate_ignore_precondition_def Some ab valid_precondition_types_def
    by (simp only: option.case prod.case list.set if_bool_eq_conj) blast
  ultimately show ?thesis by blast
qed

lemma check_rule_None: "check_rule rule = None \<longleftrightarrow> wf_rule rule"
  by (auto simp: check_rule_def wf_rule_def valid_rule_name_def split: option.splits)

lemma count_list_one:
  "count_list xs x = Suc 0 \<longleftrightarrow> (\<exists>!i. i < length xs \<and> xs ! i = x)"
proof -
  have "count_list xs x = card {i. i < length xs \<and> xs ! i = x}"
    using length_filter_conv_card [of "(=) x" xs]
    by (simp add: count_list_eq_length_filter eq_commute)
  then have "count_list xs x = Suc 0 \<longleftrightarrow> (\<exists>a. {i. i < length xs \<and> xs ! i = x} = {a})"
    by (simp add: card_1_singleton_iff)
  also have "\<dots> \<longleftrightarrow> (\<exists>!i. i < length xs \<and> xs ! i = x)"
    unfolding set_eq_iff by (simp only: mem_Collect_eq singleton_iff Ex1_def) blast
  finally show ?thesis .
qed

lemma check_env_notify_None:
  "check_env_notify n (name, e) = None \<longleftrightarrow>
     (no_slack (env_notify e) = [] \<or> no_slack (env_notify e) \<in> set (keys (nc_slack n))) \<and>
     (\<forall>ids. no_rules (env_notify e) = Some ids \<longrightarrow>
        (\<forall>id \<in> set ids. identifies_one n id))"
proof -
  have one: "(if c = 0 then Some a else if c = 1 then None else Some b) = None \<longleftrightarrow> c = Suc 0"
    for c :: nat and a b :: config_error by simp
  have ex1: "identifies_one n r \<longleftrightarrow> count_list (map config_rule_id (nc_rules n)) r = Suc 0" for r
    unfolding count_list_one identifies_one_def by (rule arg_cong [where f = Ex1]) (auto simp: fun_eq_iff)
  have slack: "(case lookup m k of None \<Rightarrow> Some e | Some _ \<Rightarrow> None) = None \<longleftrightarrow> k \<in> set (keys m)"
    for m :: "(string \<times> string) list" and k and e :: config_error
    using lookup_None [of m k] by (auto split: option.splits)
  show ?thesis
    unfolding check_env_notify_def ex1 Let_def first_some_None
    by (cases "no_rules (env_notify e)") (auto simp: one slack)
qed

lemma validate_sync_not_implemented_None:
  "validate_sync_not_implemented p path = None \<longleftrightarrow> sp_retry p = None \<and> sp_self_heal p = None"
  by (simp add: validate_sync_not_implemented_def)

lemma check_environment_None:
  "check_environment (n, e) = None \<longleftrightarrow> distinct (env_projects e) \<and> distinct (env_folders e)"
  by (simp add: check_environment_def)

lemma check_app_None:
  "check_overrides a = None \<longleftrightarrow> (\<forall>(p, ov) \<in> set (app_overrides a). ov_track ov = [] \<or> ov_version ov = [])"
  "check_ignores a = None \<longleftrightarrow> set (app_ignore_fields a) \<subseteq> {''image'', ''traffic'', ''env''} \<and>
     (\<forall>s \<in> set (app_ignore_preconditions a). wf_precondition_entry s)"
  by (auto simp: check_overrides_def check_ignores_def validate_ignore_precondition_iff
      valid_managed_fields_def split: prod.splits)

lemmas config_checks = check_rule_None check_env_notify_None validate_sync_not_implemented_None
  check_environment_None check_app_None

lemma config_check_None: "config_check url_parse r = None \<longleftrightarrow> wf_root url_parse r"
proof -
  have units: "check_units [] (declared_units r) = None \<longleftrightarrow>
      distinct (map (\<lambda>(a, p). unit_key a p) (declared_units r))"
    by (simp add: check_units_None)
  have envs: "(\<forall>e \<in> snd ` set (root_environments r). wf_environment (root_notify r) e) \<longleftrightarrow>
      (\<forall>ne \<in> set (root_environments r). check_environment ne = None) \<and>
      (\<forall>ne \<in> set (root_environments r). \<forall>w \<in> set (policy_windows (env_sync (snd ne))). window_validate w = None) \<and>
      (\<forall>ne \<in> set (root_environments r). sp_retry (env_sync (snd ne)) = None \<and> sp_self_heal (env_sync (snd ne)) = None) \<and>
      (\<forall>ne \<in> set (root_environments r). check_env_notify (root_notify r) ne = None)"
    unfolding wf_environment_def wf_policy_def
    by (auto simp: check_environment_None check_env_notify_None)
  have apps: "(\<forall>a \<in> set (root_apps r). wf_app r a) \<longleftrightarrow>
      (\<forall>a \<in> set (root_apps r). lookup_environment r (app_env a) \<noteq> None) \<and>
      (\<forall>a \<in> set (root_apps r). check_overrides a = None) \<and>
      (\<forall>a \<in> set (root_apps r). check_ignores a = None)"
    unfolding wf_app_def check_app_None lookup_environment_def lookup_None not_not by blast
  have fields: "set fs \<subseteq> {''image'', ''traffic'', ''env''} \<longleftrightarrow> (\<forall>f \<in> set fs. f \<in> set valid_managed_fields)" for fs
    unfolding valid_managed_fields_def list.set by blast
  have default: "(nc_rules n \<noteq> [] \<longrightarrow> (\<exists>u. lookup (nc_slack n) ''default'' = Some u \<and> u \<noteq> [])) \<longleftrightarrow>
      \<not> (nc_rules n \<noteq> [] \<and> (case lookup (nc_slack n) ''default'' of None \<Rightarrow> [] | Some u \<Rightarrow> u) = [])"
    for n :: notify_config
    by (cases "lookup (nc_slack n) ''default''") auto
  have urls: "first_err (\<lambda>(name, raw). check (validate_webhook_url url_parse raw) (BadWebhookUrl name)) m = None \<longleftrightarrow>
      (\<forall>(n, u) \<in> set m. validate_webhook_url url_parse u)" for m
    by (simp add: split_beta)
  show ?thesis
    unfolding config_check_def wf_root_def first_some_None_Cons declared_units_def [symmetric]
      envs apps fields default wf_policy_def urls
    unfolding first_err_None check_None units validate_sync_not_implemented_None check_rule_None
      option.map_disc_iff
    by blast
qed

section \<open>Properties\<close>

text \<open>C12: \<open>Parse\<close> accepts a decoded \<open>runcd.yaml\<close> exactly when it is well formed: every app names a
  declared environment, no (app, project) pair is declared twice, managed and ignored fields and
  precondition types are known, windows are valid, no unimplemented policy is set, each notify rule
  has the threshold it needs, a default sink exists when there are rules, every webhook URL is valid,
  and every rule an environment selects identifies exactly one configured rule.\<close>

theorem config_parse_iff:
  "config_parse unmarshal url_parse data = Inr r \<longleftrightarrow> unmarshal data = Inr r \<and> wf_root url_parse r"
  unfolding config_parse_def config_check_None [symmetric]
  by (auto split: sum.splits option.splits)

lemma config_parse_wf: "config_parse unmarshal url_parse data = Inr r \<Longrightarrow> wf_root url_parse r"
  unfolding config_parse_def config_check_None [symmetric]
  by (auto split: sum.splits option.splits)

text \<open>The field-by-field merge of sync policies is associative and has the empty policy as its
  unit, so layering defaults and an environment's overrides does not depend on the grouping, and a
  field an override leaves unset is inherited.\<close>

theorem merge_monoid:
  "merge (merge a b) c = merge a (merge b c) \<and>
   merge a \<lparr>sp_auto = None, sp_retry = None, sp_self_heal = None, sp_windows = None, sp_observe = None\<rparr> = a \<and>
   merge \<lparr>sp_auto = None, sp_retry = None, sp_self_heal = None, sp_windows = None, sp_observe = None\<rparr> a = a"
  by (auto intro!: sync_policy.equality split: option.splits)

end
