(* ===== verification/Expander.thy ===== *)
theory Expander
  imports Config
begin

text \<open>
  Expansion of the configuration into sync units (\<open>internal/expander/expander.go\<close>): the flat
  list of (app, project) pairs the reconcile loop iterates over. \<open>expands_to\<close> is the declarative
  account of which unit an app yields for a project; the lemmas show that the loops compute exactly
  those units, in order, and reject every configuration that names a project outside the
  environment, resolves no region or maps two units to one key.
\<close>

section \<open>Model\<close>

record sync_unit =
  su_app :: string
  su_project :: string
  su_env :: string
  su_region :: string
  su_sync :: sync_policy
  su_source_repo :: string
  su_source_path :: string
  su_source_branch :: string
  su_ignore_fields :: "string list"
  su_ignore_preconditions :: "string list"
  su_track :: string
  su_version :: string

datatype expand_error =
    ExpandUnknownEnvironment string string
  | OverrideUnknownProject string string
  | ExcludeUnknownProject string string
  | OverriddenAndExcluded string string
  | NoRegion string string
  | UnitCollision string string

text \<open>The checks of one app against its environment's project list.\<close>

definition check_app_projects :: "app \<Rightarrow> environment \<Rightarrow> expand_error option" where
  "check_app_projects a e = first_some
     [first_err (\<lambda>(project, _). check (project \<in> set (env_projects e))
        (OverrideUnknownProject (app_name a) project)) (app_overrides a),
      first_err (\<lambda>project.
        if project \<notin> set (env_projects e) then Some (ExcludeUnknownProject (app_name a) project)
        else if lookup (app_overrides a) project \<noteq> None
        then Some (OverriddenAndExcluded (app_name a) project) else None) (app_exclude a)]"

definition unit_region :: "root \<Rightarrow> app \<Rightarrow> environment \<Rightarrow> string \<Rightarrow> string" where
  "unit_region r a e project =
     (let region = df_region (root_defaults r);
          region = (if env_region e \<noteq> [] then env_region e else region)
      in case lookup (app_overrides a) project of
           None \<Rightarrow> region
         | Some ov \<Rightarrow> if ov_region ov \<noteq> [] then ov_region ov else region)"

definition make_unit :: "root \<Rightarrow> app \<Rightarrow> environment \<Rightarrow> string \<Rightarrow> sync_unit" where
  "make_unit r a e project =
     \<lparr>su_app = app_name a, su_project = project, su_env = app_env a,
      su_region = unit_region r a e project,
      su_sync = merge (df_sync (root_defaults r)) (env_sync e),
      su_source_repo = src_repo (app_source a),
      su_source_path = src_path (app_source a),
      su_source_branch = src_branch (app_source a),
      su_ignore_fields = app_ignore_fields a,
      su_ignore_preconditions = app_ignore_preconditions a,
      su_track = (case lookup (app_overrides a) project of None \<Rightarrow> [] | Some ov \<Rightarrow> ov_track ov),
      su_version = (case lookup (app_overrides a) project of None \<Rightarrow> [] | Some ov \<Rightarrow> ov_version ov)\<rparr>"

text \<open>The inner loop over the environment's projects; the state is \<open>seenAppProject\<close> and \<open>units\<close>.\<close>

fun expand_projects ::
  "root \<Rightarrow> app \<Rightarrow> environment \<Rightarrow> string list \<Rightarrow> string list \<times> sync_unit list \<Rightarrow>
     expand_error + (string list \<times> sync_unit list)" where
  "expand_projects r a e [] st = Inr st"
| "expand_projects r a e (project # ps) (seen, units) =
     (if project \<in> set (app_exclude a) then expand_projects r a e ps (seen, units)
      else if unit_region r a e project = [] then Inl (NoRegion (app_name a) project)
      else if unit_key (app_name a) project \<in> set seen then Inl (UnitCollision (app_name a) project)
      else expand_projects r a e ps
             (unit_key (app_name a) project # seen, units @ [make_unit r a e project]))"

fun expand_apps ::
  "root \<Rightarrow> app list \<Rightarrow> string list \<times> sync_unit list \<Rightarrow> expand_error + sync_unit list" where
  "expand_apps r [] (seen, units) = Inr units"
| "expand_apps r (a # as) st =
     (case lookup_environment r (app_env a) of
        None \<Rightarrow> Inl (ExpandUnknownEnvironment (app_name a) (app_env a))
      | Some e \<Rightarrow>
         (case check_app_projects a e of
            Some err \<Rightarrow> Inl err
          | None \<Rightarrow>
             (case expand_projects r a e (env_projects e) st of
                Inl err \<Rightarrow> Inl err
              | Inr st' \<Rightarrow> expand_apps r as st')))"

definition expand :: "root \<Rightarrow> expand_error + sync_unit list" where
  "expand r = expand_apps r (root_apps r) ([], [])"

definition su_key :: "sync_unit \<Rightarrow> string" where
  "su_key u = unit_key (su_app u) (su_project u)"

section \<open>Specification\<close>

text \<open>The environment an app is bound to, and the units it yields there, in project order.\<close>

definition app_units :: "root \<Rightarrow> app \<Rightarrow> sync_unit list" where
  "app_units r a =
     (case lookup_environment r (app_env a) of None \<Rightarrow> []
      | Some e \<Rightarrow> map (make_unit r a e) (filter (\<lambda>p. p \<notin> set (app_exclude a)) (env_projects e)))"

definition all_units :: "root \<Rightarrow> sync_unit list" where
  "all_units r = concat (map (app_units r) (root_apps r))"

definition app_ok :: "root \<Rightarrow> app \<Rightarrow> bool" where
  "app_ok r a \<longleftrightarrow>
     (\<exists>e. lookup_environment r (app_env a) = Some e \<and>
        set (keys (app_overrides a)) \<subseteq> set (env_projects e) \<and>
        set (app_exclude a) \<subseteq> set (env_projects e) \<and>
        set (keys (app_overrides a)) \<inter> set (app_exclude a) = {})"

section \<open>Lemmas\<close>

lemma make_unit_simps [simp]:
  "su_app (make_unit r a e p) = app_name a" "su_project (make_unit r a e p) = p"
  "su_env (make_unit r a e p) = app_env a" "su_region (make_unit r a e p) = unit_region r a e p"
  "su_sync (make_unit r a e p) = merge (df_sync (root_defaults r)) (env_sync e)"
  "su_key (make_unit r a e p) = unit_key (app_name a) p"
  by (simp_all add: make_unit_def su_key_def)

lemma check_app_projects_None:
  "check_app_projects a e = None \<longleftrightarrow>
     set (keys (app_overrides a)) \<subseteq> set (env_projects e) \<and>
     set (app_exclude a) \<subseteq> set (env_projects e) \<and>
     set (keys (app_overrides a)) \<inter> set (app_exclude a) = {}"
proof -
  have ovs: "first_err (\<lambda>(project, _). check (project \<in> set (env_projects e))
        (OverrideUnknownProject (app_name a) project)) (app_overrides a) = None \<longleftrightarrow>
      set (keys (app_overrides a)) \<subseteq> set (env_projects e)"
    by (auto simp: keys_def)
  have exc: "first_err (\<lambda>project.
        if project \<notin> set (env_projects e) then Some (ExcludeUnknownProject (app_name a) project)
        else if lookup (app_overrides a) project \<noteq> None
        then Some (OverriddenAndExcluded (app_name a) project) else None) (app_exclude a) = None \<longleftrightarrow>
      set (app_exclude a) \<subseteq> set (env_projects e) \<and>
      set (keys (app_overrides a)) \<inter> set (app_exclude a) = {}"
    unfolding first_err_None lookup_None not_not by (auto split: if_splits)
  show ?thesis
    unfolding check_app_projects_def first_some_None list.set ball_simps ovs exc by blast
qed

lemma expand_projects_Inr:
  "expand_projects r a e ps (seen, units) = Inr (seen', units') \<longleftrightarrow>
     (let ps' = filter (\<lambda>p. p \<notin> set (app_exclude a)) ps; ks = map (unit_key (app_name a)) ps' in
      (\<forall>p \<in> set ps'. unit_region r a e p \<noteq> []) \<and> distinct ks \<and> set ks \<inter> set seen = {} \<and>
      seen' = rev ks @ seen \<and> units' = units @ map (make_unit r a e) ps')"
  by (induction r a e ps "(seen, units)" arbitrary: seen units rule: expand_projects.induct)
    (auto simp: Let_def)

lemma expand_projects_total:
  "\<exists>st'. expand_projects r a e ps st = Inl st' \<or> (\<exists>seen' units'. expand_projects r a e ps st = Inr (seen', units'))"
  by (cases "expand_projects r a e ps st") auto

text \<open>One app: its units, when its overrides fit, every unit has a region and no key is taken.\<close>

lemma expand_app_units:
  assumes "lookup_environment r (app_env a) = Some e"
  shows "expand_projects r a e (env_projects e) (seen, units) = Inr (seen', units') \<longleftrightarrow>
    (\<forall>u \<in> set (app_units r a). su_region u \<noteq> []) \<and> distinct (map su_key (app_units r a)) \<and>
    set (map su_key (app_units r a)) \<inter> set seen = {} \<and>
    seen' = rev (map su_key (app_units r a)) @ seen \<and> units' = units @ app_units r a"
proof -
  have "app_units r a = map (make_unit r a e) (filter (\<lambda>p. p \<notin> set (app_exclude a)) (env_projects e))"
    using assms by (simp add: app_units_def)
  then show ?thesis unfolding expand_projects_Inr by (auto simp: Let_def o_def)
qed

lemma expand_apps_Cons:
  "expand_apps r (a # as) (seen, units) = Inr us \<longleftrightarrow>
     app_ok r a \<and> (\<forall>u \<in> set (app_units r a). su_region u \<noteq> []) \<and> distinct (map su_key (app_units r a)) \<and>
     set (map su_key (app_units r a)) \<inter> set seen = {} \<and>
     expand_apps r as (rev (map su_key (app_units r a)) @ seen, units @ app_units r a) = Inr us"
proof (cases "lookup_environment r (app_env a)")
  case None
  then show ?thesis by (simp add: app_ok_def)
next
  case (Some e)
  have ok: "check_app_projects a e = None \<longleftrightarrow> app_ok r a"
    using Some by (simp add: app_ok_def check_app_projects_None)
  show ?thesis
  proof (cases "expand_projects r a e (env_projects e) (seen, units)")
    case (Inl err)
    then show ?thesis using Some ok expand_app_units [OF Some, of seen units] by (cases "app_ok r a") (auto split: option.split)
  next
    case (Inr st')
    moreover obtain seen' units' where "st' = (seen', units')" by (cases st')
    ultimately show ?thesis
      using Some ok expand_app_units [OF Some, of seen units seen' units']
      by (cases "app_ok r a") (auto split: option.split)
  qed
qed

lemma expand_apps_Inr:
  "expand_apps r as (seen, units) = Inr us \<longleftrightarrow>
     (let new = concat (map (app_units r) as) in
      (\<forall>a \<in> set as. app_ok r a) \<and> (\<forall>u \<in> set new. su_region u \<noteq> []) \<and>
      distinct (map su_key new) \<and> set (map su_key new) \<inter> set seen = {} \<and> us = units @ new)"
proof (induction as arbitrary: seen units)
  case (Cons a as)
  obtain A N where AN: "app_units r a = A" "concat (map (app_units r) as) = N" by blast
  obtain kA kN where k: "map su_key A = kA" "map su_key N = kN" by blast
  have cat: "concat (map (app_units r) (a # as)) = A @ N" using AN by simp
  show ?case
    unfolding expand_apps_Cons Cons.IH Let_def cat AN map_append k set_append distinct_append set_rev
    by (auto simp: ball_Un)
qed auto

lemma expand_Inr:
  "expand r = Inr us \<longleftrightarrow>
     (\<forall>a \<in> set (root_apps r). app_ok r a) \<and> (\<forall>u \<in> set (all_units r). su_region u \<noteq> []) \<and>
     distinct (map su_key (all_units r)) \<and> us = all_units r"
  unfolding expand_def expand_apps_Inr all_units_def Let_def by auto

lemma distinct_keys_expand: "expand r = Inr us \<Longrightarrow> distinct (map su_key us)"
  by (auto simp: expand_Inr)

lemma map_key_app_units:
  "map su_key (app_units r a) = map (unit_key (app_name a)) (app_declared_projects r a)"
  by (auto simp: app_units_def app_declared_projects_def o_def split: option.split)

lemma map_key_all_units:
  "map su_key (all_units r) = map (\<lambda>(a, p). unit_key a p) (declared_units r)"
proof -
  have "map su_key (concat (map (app_units r) as)) =
      map (\<lambda>(a, p). unit_key a p) (concat (map (\<lambda>a. map (Pair (app_name a)) (app_declared_projects r a)) as))" for as
    by (induction as) (simp_all add: map_key_app_units o_def)
  then show ?thesis by (simp add: all_units_def declared_units_def)
qed

lemma expand_projects_collision:
  "expand_projects r a e ps (seen, units) = Inl (UnitCollision n p) \<Longrightarrow>
     \<not> (distinct (map (unit_key (app_name a)) (filter (\<lambda>p. p \<notin> set (app_exclude a)) ps)) \<and>
        set (map (unit_key (app_name a)) (filter (\<lambda>p. p \<notin> set (app_exclude a)) ps)) \<inter> set seen = {})"
  by (induction r a e ps "(seen, units)" arbitrary: seen units rule: expand_projects.induct)
    (auto split: if_splits)

lemma expand_apps_collision:
  "expand_apps r as (seen, units) = Inl (UnitCollision n p) \<Longrightarrow>
     \<not> (distinct (map su_key (concat (map (app_units r) as))) \<and>
        set (map su_key (concat (map (app_units r) as))) \<inter> set seen = {})"
proof (induction as arbitrary: seen units)
  case (Cons a as)
  then obtain e where e: "lookup_environment r (app_env a) = Some e"
    by (auto split: option.splits)
  have ok: "check_app_projects a e \<noteq> Some (UnitCollision n p)"
    by (auto simp: check_app_projects_def first_some_Cons first_some_Nil dest!: first_err_Some split: option.splits if_splits)
  from Cons.prems e ok have "check_app_projects a e = None"
    by (auto split: option.splits)
  note step = Cons.prems [unfolded expand_apps.simps e option.case this]
  have keys: "map su_key (app_units r a) =
      map (unit_key (app_name a)) (filter (\<lambda>p. p \<notin> set (app_exclude a)) (env_projects e))"
    by (simp add: map_key_app_units app_declared_projects_def e)
  show ?case
  proof (cases "expand_projects r a e (env_projects e) (seen, units)")
    case (Inl err)
    with step have "expand_projects r a e (env_projects e) (seen, units) = Inl (UnitCollision n p)" by simp
    from expand_projects_collision [OF this] show ?thesis
      unfolding keys [symmetric] by auto
  next
    case (Inr st')
    then obtain seen' units' where st': "st' = (seen', units')" by (metis surj_pair)
    with Inr have seen': "seen' = rev (map su_key (app_units r a)) @ seen"
      unfolding keys expand_projects_Inr by (simp add: expand_projects_Inr Let_def)
    have "expand_apps r as (seen', units') = Inl (UnitCollision n p)"
      using step Inr st' by simp
    from Cons.IH [OF this] show ?thesis
      unfolding seen' by (auto simp: Int_Un_distrib Int_Un_distrib2)
  qed
qed simp

section \<open>Properties\<close>

text \<open>C13: \<open>Expand\<close> succeeds exactly when every app's overrides and exclusions name projects of its
  environment and do not overlap, every unit resolves a region and no two units share a key; it then
  returns, in app order and within an app in project order, one unit per app and project that is not
  excluded, with the override's, else the environment's, else the default region.\<close>

theorem expand_iff:
  "expand r = Inr us \<longleftrightarrow>
     list_all (app_ok r) (root_apps r) \<and> list_all (\<lambda>u. su_region u \<noteq> []) (all_units r) \<and>
     distinct (map su_key (all_units r)) \<and> us = all_units r"
  by (simp add: expand_Inr list_all_iff)

text \<open>A configuration \<open>Parse\<close> accepted never fails expansion with a unit collision (the check in
  \<open>Expand\<close> only matters for projects that a folder adds after parsing).\<close>

theorem expand_no_collision:
  assumes "config_parse unmarshal url_parse data = Inr r"
  shows "expand r \<noteq> Inl (UnitCollision n p)"
proof
  assume "expand r = Inl (UnitCollision n p)"
  then have "\<not> distinct (map su_key (all_units r))"
    using expand_apps_collision [of r "root_apps r" "[]" "[]" n p] by (simp add: expand_def all_units_def)
  then show False
    using config_parse_wf [OF assms] by (simp add: map_key_all_units wf_root_def)
qed

definition example_root :: root where
  "example_root =
    \<lparr>root_environments = [(''prd'', \<lparr>env_projects = [''p1'', ''p2''], env_folders = [], env_region = ''eu'',
       env_sync = \<lparr>sp_auto = Some False, sp_retry = None, sp_self_heal = None, sp_windows = None, sp_observe = None\<rparr>,
       env_notify = \<lparr>no_slack = [], no_rules = None\<rparr>\<rparr>)],
     root_defaults = \<lparr>df_region = ''us'', df_managed_fields = [''image''],
       df_sync = \<lparr>sp_auto = Some True, sp_retry = None, sp_self_heal = None, sp_windows = None, sp_observe = None\<rparr>\<rparr>,
     root_apps = [\<lparr>app_name = ''web'', app_env = ''prd'',
       app_source = \<lparr>src_repo = ''o/r'', src_path = ''web.yaml'', src_branch = []\<rparr>,
       app_overrides = [(''p2'', \<lparr>ov_region = ''asia'', ov_track = [], ov_version = []\<rparr>)], app_exclude = [],
       app_ignore_fields = [], app_ignore_preconditions = []\<rparr>],
     root_notify = \<lparr>nc_slack = [], nc_rules = []\<rparr>\<rparr>"

lemma example_root_parses:
  "config_parse (\<lambda>_. Inr example_root) (\<lambda>_. None) data = Inr example_root"
  by (simp add: config_parse_def config_check_def example_root_def first_some_Cons first_some_Nil
      lookup_environment_def app_declared_projects_def unit_key_def check_environment_def
      check_overrides_def check_ignores_def valid_managed_fields_def policy_windows_def
      validate_sync_not_implemented_def check_env_notify_def check_def)

theorem expand_no_collision_witness:
  "expand example_root \<noteq> Inl (UnitCollision ''web'' ''p1'') \<and>
   map su_region (all_units example_root) = [''eu'', ''asia'']"
proof -
  have "map su_region (all_units example_root) = [''eu'', ''asia'']"
    by (simp add: all_units_def app_units_def example_root_def lookup_environment_def unit_region_def)
  then show ?thesis
    using expand_no_collision [OF example_root_parses] by blast
qed

text \<open>Within one expansion a unit is determined by its app and project: no later lookup keyed on
  the pair can confuse two units.\<close>

theorem expand_unit_unique:
  assumes "expand r = Inr us" and "u \<in> set us" and "v \<in> set us"
    and "su_app u = su_app v" and "su_project u = su_project v"
  shows "u = v"
proof -
  have "su_key u = su_key v" using assms(4,5) by (simp add: su_key_def)
  with distinct_keys_expand [OF assms(1)] assms(2,3) show ?thesis
    by (auto simp: distinct_map inj_on_def)
qed

theorem expand_unit_unique_witness:
  "\<exists>u v. expand example_root = Inr [u, v] \<and> su_project u = ''p1'' \<and> su_project v = ''p2'' \<and>
     (\<forall>w \<in> {u, v}. su_app w = ''web'' \<and> su_project w = ''p1'' \<longrightarrow> w = u)"
proof -
  obtain u v where uv: "expand example_root = Inr [u, v]" "su_project u = ''p1''" "su_project v = ''p2''"
      "su_app u = ''web''" "su_app v = ''web''"
    by (simp add: expand_def example_root_def lookup_environment_def unit_region_def unit_key_def
        check_app_projects_def first_some_Cons first_some_Nil check_def)
  have "w = u" if "w \<in> {u, v}" "su_app w = ''web''" "su_project w = ''p1''" for w
    using expand_unit_unique [OF uv(1), of w u] that uv by simp
  with uv show ?thesis by blast
qed

end
