(* ===== verification/Rbac.thy ===== *)
theory Rbac
  imports Expander
begin

text \<open>
  Access control (\<open>internal/rbac/rbac.go\<close>): rules map a subject to scopes, and a scope covers a
  sync unit. Decoding YAML is a parameter. The folder membership map is an association list, an
  absent key being Go's nil slice. \<open>Store\<close> holds two values that are swapped independently.
\<close>

section \<open>Model\<close>

record rbac_rule =
  rule_subject :: string
  rule_role :: string
  rule_scope :: "string list"

type_synonym rbac_config = "rbac_rule list"
type_synonym membership = "(string \<times> string list) list"

definition role_admin :: string where "role_admin = ''admin''"
definition role_syncer :: string where "role_syncer = ''syncer''"

datatype rbac_error = RbacYaml string | UnknownRole string string

definition rbac_parse :: "(string \<Rightarrow> string + rbac_config) \<Rightarrow> string \<Rightarrow> rbac_error + rbac_config" where
  "rbac_parse unmarshal data =
     (case unmarshal data of
        Inl e \<Rightarrow> Inl (RbacYaml e)
      | Inr cfg \<Rightarrow>
         (case first_err (\<lambda>rule. if rule_role rule \<noteq> role_admin \<and> rule_role rule \<noteq> role_syncer
                              then Some (UnknownRole (rule_subject rule) (rule_role rule)) else None) cfg of
            Some e \<Rightarrow> Inl e
          | None \<Rightarrow> Inr cfg))"

definition members :: "membership \<Rightarrow> string \<Rightarrow> string list" where
  "members m folder = (case lookup m folder of None \<Rightarrow> [] | Some ps \<Rightarrow> ps)"

definition scope_matches :: "string \<Rightarrow> sync_unit \<Rightarrow> membership \<Rightarrow> bool" where
  "scope_matches scope u m =
     (if scope = ''*'' then True
      else case cut_prefix scope ''folder:'' of
        Some folder \<Rightarrow> list_ex (\<lambda>p. p = su_project u) (members m folder)
      | None \<Rightarrow>
        (case cut_prefix scope ''env:'' of
           Some env \<Rightarrow> env = su_env u
         | None \<Rightarrow>
           (case cut_prefix scope ''app:'' of
              Some a \<Rightarrow> (case cut_at (CHR ''@'') a of
                           Some (name, project) \<Rightarrow> name = su_app u \<and> project = su_project u
                         | None \<Rightarrow> False)
            | None \<Rightarrow> False)))"

text \<open>A nil configuration grants nothing.\<close>

definition can_sync_folders :: "rbac_config option \<Rightarrow> membership \<Rightarrow> string \<Rightarrow> sync_unit \<Rightarrow> bool" where
  "can_sync_folders cfg m subject u =
     (case cfg of
        None \<Rightarrow> False
      | Some rules \<Rightarrow>
          list_ex (\<lambda>rule. rule_subject rule = subject \<and>
                          list_ex (\<lambda>scope. scope_matches scope u m) (rule_scope rule)) rules)"

definition can_sync :: "rbac_config option \<Rightarrow> string \<Rightarrow> sync_unit \<Rightarrow> bool" where
  "can_sync cfg subject u = can_sync_folders cfg [] subject u"

definition folder_scopes :: "rbac_config option \<Rightarrow> string list" where
  "folder_scopes cfg =
     (case cfg of
        None \<Rightarrow> []
      | Some rules \<Rightarrow>
          dedup [] (concat (map (\<lambda>scope. case cut_prefix scope ''folder:'' of Some f \<Rightarrow> [f] | None \<Rightarrow> [])
                     (concat (map rule_scope rules)))))"

definition is_recognized_scope :: "string \<Rightarrow> bool" where
  "is_recognized_scope scope =
     (if scope = ''*'' then True
      else case cut_prefix scope ''folder:'' of
        Some folder \<Rightarrow> folder \<noteq> []
      | None \<Rightarrow>
        (case cut_prefix scope ''env:'' of
           Some env \<Rightarrow> env \<noteq> []
         | None \<Rightarrow>
           (case cut_prefix scope ''app:'' of
              Some a \<Rightarrow> (case cut_at (CHR ''@'') a of
                           Some (name, project) \<Rightarrow> name \<noteq> [] \<and> project \<noteq> []
                         | None \<Rightarrow> False)
            | None \<Rightarrow> False)))"

definition has_any_grant :: "rbac_config option \<Rightarrow> string \<Rightarrow> bool" where
  "has_any_grant cfg subject =
     (case cfg of
        None \<Rightarrow> False
      | Some rules \<Rightarrow>
          list_ex (\<lambda>rule. rule_subject rule = subject \<and> list_ex is_recognized_scope (rule_scope rule)) rules)"

record rbac_store =
  rs_config :: "rbac_config option"
  rs_folder :: "membership option"

definition new_store :: "rbac_config option \<Rightarrow> rbac_store" where
  "new_store cfg = \<lparr>rs_config = cfg, rs_folder = Some []\<rparr>"

definition store_set :: "rbac_config option \<Rightarrow> rbac_store \<Rightarrow> rbac_store" where
  "store_set cfg s = s\<lparr>rs_config := cfg\<rparr>"

definition store_get :: "rbac_store \<Rightarrow> rbac_config option" where
  "store_get s = rs_config s"

definition set_folder_membership :: "membership \<Rightarrow> rbac_store \<Rightarrow> rbac_store" where
  "set_folder_membership m s = s\<lparr>rs_folder := Some m\<rparr>"

definition folder_membership :: "rbac_store \<Rightarrow> membership" where
  "folder_membership s = (case rs_folder s of None \<Rightarrow> [] | Some m \<Rightarrow> m)"

section \<open>Lemmas\<close>

text \<open>The four forms of a scope start differently, so at most one branch applies.\<close>

lemma cut_prefix_Cons [simp]:
  "cut_prefix (c # s) (c' # p) = (if c = c' then cut_prefix s p else None)"
  "cut_prefix s [] = Some s"
  "cut_prefix [] (c # p) = None"
  by (auto simp: cut_prefix_def has_prefix_def)

lemma scope_matches_iff:
  "scope_matches scope u m \<longleftrightarrow>
     scope = ''*'' \<or>
     (\<exists>folder. scope = ''folder:'' @ folder \<and> su_project u \<in> set (members m folder)) \<or>
     scope = ''env:'' @ su_env u \<or>
     (scope = ''app:'' @ su_app u @ CHR ''@'' # su_project u \<and> CHR ''@'' \<notin> set (su_app u))"
proof -
  consider (star) "scope = ''*''" | (folder) f where "scope = ''folder:'' @ f"
    | (env) e where "scope = ''env:'' @ e" | (app) a where "scope = ''app:'' @ a"
    | (other) "scope \<noteq> ''*''" "cut_prefix scope ''folder:'' = None" "cut_prefix scope ''env:'' = None"
        "cut_prefix scope ''app:'' = None"
    using cut_prefix_Some by blast
  then show ?thesis
  proof cases
    case star
    then show ?thesis by (simp add: scope_matches_def)
  next
    case folder
    then show ?thesis by (auto simp: scope_matches_def list_ex_iff)
  next
    case env
    then show ?thesis by (auto simp: scope_matches_def)
  next
    case app
    then show ?thesis
      by (auto simp: scope_matches_def cut_at_Some [symmetric] split: option.splits)
  next
    case other
    then have "\<not> scope_matches scope u m"
      by (simp add: scope_matches_def)
    with other show ?thesis
      unfolding cut_prefix_None by auto
  qed
qed

lemma is_recognized_scope_iff:
  "is_recognized_scope scope \<longleftrightarrow>
     scope = ''*'' \<or> (\<exists>f. scope = ''folder:'' @ f \<and> f \<noteq> []) \<or> (\<exists>e. scope = ''env:'' @ e \<and> e \<noteq> []) \<or>
     (\<exists>n p. scope = ''app:'' @ n @ CHR ''@'' # p \<and> CHR ''@'' \<notin> set n \<and> n \<noteq> [] \<and> p \<noteq> [])"
proof -
  consider (star) "scope = ''*''" | (folder) f where "scope = ''folder:'' @ f"
    | (env) e where "scope = ''env:'' @ e" | (app) a where "scope = ''app:'' @ a"
    | (other) "scope \<noteq> ''*''" "cut_prefix scope ''folder:'' = None" "cut_prefix scope ''env:'' = None"
        "cut_prefix scope ''app:'' = None"
    using cut_prefix_Some by blast
  then show ?thesis
  proof cases
    case star
    then show ?thesis by (simp add: is_recognized_scope_def)
  next
    case folder
    then show ?thesis by (auto simp: is_recognized_scope_def)
  next
    case env
    then show ?thesis by (auto simp: is_recognized_scope_def)
  next
    case app
    show ?thesis
    proof (cases "cut_at (CHR ''@'') a")
      case None
      then have "CHR ''@'' \<notin> set a" by (simp add: cut_at_None)
      with None app show ?thesis by (auto simp: is_recognized_scope_def)
    next
      case (Some np)
      then obtain n p where np: "np = (n, p)" "a = n @ CHR ''@'' # p" "CHR ''@'' \<notin> set n"
        by (metis cut_at_Some surj_pair)
      with Some app show ?thesis
        by (auto simp: is_recognized_scope_def dest: split_at_inj)
    qed
  next
    case other
    then have "\<not> is_recognized_scope scope"
      by (simp add: is_recognized_scope_def)
    with other show ?thesis
      unfolding cut_prefix_None by auto
  qed
qed

lemma can_sync_folders_iff:
  "can_sync_folders cfg m subject u \<longleftrightarrow>
     (\<exists>rules rule scope. cfg = Some rules \<and> rule \<in> set rules \<and> rule_subject rule = subject \<and>
        scope \<in> set (rule_scope rule) \<and> scope_matches scope u m)"
  by (auto simp: can_sync_folders_def list_ex_iff split: option.splits)

lemma has_any_grant_iff:
  "has_any_grant cfg subject \<longleftrightarrow>
     (\<exists>rules rule scope. cfg = Some rules \<and> rule \<in> set rules \<and> rule_subject rule = subject \<and>
        scope \<in> set (rule_scope rule) \<and> is_recognized_scope scope)"
  by (auto simp: has_any_grant_def list_ex_iff split: option.splits)

lemma folder_scopes_iff:
  "f \<in> set (folder_scopes cfg) \<longleftrightarrow>
     (\<exists>rules rule. cfg = Some rules \<and> rule \<in> set rules \<and> ''folder:'' @ f \<in> set (rule_scope rule))"
proof -
  have one: "f \<in> set (case cut_prefix s ''folder:'' of Some g \<Rightarrow> [g] | None \<Rightarrow> []) \<longleftrightarrow> s = ''folder:'' @ f" for s
    unfolding cut_prefix_Some [symmetric] by (auto split: option.splits)
  show ?thesis
  proof (cases cfg)
    case (Some rules)
    have "f \<in> set (folder_scopes cfg) \<longleftrightarrow> (\<exists>s \<in> set (concat (map rule_scope rules)).
        f \<in> set (case cut_prefix s ''folder:'' of Some g \<Rightarrow> [g] | None \<Rightarrow> []))"
      unfolding folder_scopes_def Some option.case set_dedup set_concat set_map list.set by blast
    also have "\<dots> \<longleftrightarrow> (\<exists>rule \<in> set rules. ''folder:'' @ f \<in> set (rule_scope rule))"
      unfolding one by auto
    finally show ?thesis using Some by blast
  qed (simp add: folder_scopes_def)
qed

lemma distinct_folder_scopes: "distinct (folder_scopes cfg)"
  by (simp add: folder_scopes_def split: option.split)

lemma store_simps [simp]:
  "store_get (new_store cfg) = cfg" "folder_membership (new_store cfg) = []"
  "store_get (store_set cfg s) = cfg" "folder_membership (store_set cfg s) = folder_membership s"
  "folder_membership (set_folder_membership m s) = m" "store_get (set_folder_membership m s) = store_get s"
  by (simp_all add: new_store_def store_get_def store_set_def set_folder_membership_def folder_membership_def)

section \<open>Properties\<close>

text \<open>C16: a subject may sync a unit exactly when some rule of that subject has a scope that is \<open>*\<close>, a
  folder the unit's project is a member of, \<open>env:\<close> and the unit's environment, or \<open>app:name@project\<close>
  naming the unit (for an app name without \<open>@\<close>); without a configuration nobody may.\<close>

theorem can_sync_folders_spec:
  "can_sync_folders cfg m subject u \<longleftrightarrow>
     (\<exists>rules rule scope. cfg = Some rules \<and> rule \<in> set rules \<and> rule_subject rule = subject \<and>
        scope \<in> set (rule_scope rule) \<and>
        (scope = ''*'' \<or>
         (\<exists>folder. scope = ''folder:'' @ folder \<and> su_project u \<in> set (members m folder)) \<or>
         scope = ''env:'' @ su_env u \<or>
         (scope = ''app:'' @ su_app u @ CHR ''@'' # su_project u \<and> CHR ''@'' \<notin> set (su_app u))))"
  unfolding can_sync_folders_iff scope_matches_iff ..

text \<open>Resolving only the folders \<open>FolderScopes\<close> reports is enough: any two membership maps that agree
  on them grant every subject the same units.\<close>

theorem can_sync_folders_cong:
  assumes "\<forall>f \<in> set (folder_scopes cfg). set (members m f) = set (members m' f)"
  shows "can_sync_folders cfg m subject u = can_sync_folders cfg m' subject u"
proof -
  have "scope_matches scope u m = scope_matches scope u m'"
    if "cfg = Some rules" "rule \<in> set rules" "scope \<in> set (rule_scope rule)" for rules rule scope
  proof -
    have "set (members m f) = set (members m' f)" if "scope = ''folder:'' @ f" for f
      using assms that \<open>cfg = Some rules\<close> \<open>rule \<in> set rules\<close> \<open>scope \<in> set (rule_scope rule)\<close>
        folder_scopes_iff [of f cfg] by blast
    then show ?thesis unfolding scope_matches_iff by blast
  qed
  then show ?thesis unfolding can_sync_folders_iff by blast
qed

definition example_rules :: rbac_config where
  "example_rules =
     [\<lparr>rule_subject = ''a@x'', rule_role = ''syncer'', rule_scope = [''folder:7'', ''env:dev'']\<rparr>,
      \<lparr>rule_subject = ''b@x'', rule_role = ''admin'', rule_scope = [''*'']\<rparr>]"

definition example_unit :: sync_unit where
  "example_unit = \<lparr>su_app = ''web'', su_project = ''p1'', su_env = ''prd'', su_region = ''eu'',
     su_sync = \<lparr>sp_auto = None, sp_retry = None, sp_self_heal = None, sp_windows = None, sp_observe = None\<rparr>,
     su_source_repo = [], su_source_path = [], su_source_branch = [], su_ignore_fields = [],
     su_ignore_preconditions = [], su_track = [], su_version = []\<rparr>"

theorem can_sync_folders_cong_witness:
  "folder_scopes (Some example_rules) = [''7''] \<and>
   can_sync_folders (Some example_rules) [(''7'', [''p1'']), (''8'', [''p9''])] ''a@x'' example_unit"
proof -
  have scopes: "folder_scopes (Some example_rules) = [''7'']"
    by (simp add: folder_scopes_def example_rules_def)
  have "can_sync_folders (Some example_rules) [(''7'', [''p1''])] ''a@x'' example_unit"
    by (simp add: can_sync_folders_def example_rules_def example_unit_def scope_matches_def members_def)
  then have "can_sync_folders (Some example_rules) [(''7'', [''p1'']), (''8'', [''p9''])] ''a@x'' example_unit"
    using can_sync_folders_cong [of "Some example_rules" "[(''7'', [''p1''])]"
        "[(''7'', [''p1'']), (''8'', [''p9''])]" "''a@x''" example_unit]
    by (simp add: scopes members_def)
  with scopes show ?thesis by simp
qed

text \<open>A subject who may sync any unit with non-empty names passes \<open>HasAnyGrant\<close>, so the guard on
  fleet-wide scans never refuses a caller with a usable grant.\<close>

theorem has_any_grant_complete:
  assumes "can_sync_folders cfg m subject u"
    and "su_app u \<noteq> []" and "su_project u \<noteq> []" and "su_env u \<noteq> []" and "members m [] = []"
  shows "has_any_grant cfg subject"
proof -
  obtain rules rule scope where r: "cfg = Some rules" "rule \<in> set rules" "rule_subject rule = subject"
      "scope \<in> set (rule_scope rule)" "scope_matches scope u m"
    using assms(1) by (auto simp: can_sync_folders_iff)
  have "is_recognized_scope scope"
    using r(5) assms(2-5) unfolding scope_matches_iff is_recognized_scope_iff by force
  with r show ?thesis unfolding has_any_grant_iff by blast
qed

theorem has_any_grant_complete_witness:
  "has_any_grant (Some example_rules) ''b@x'' \<and> \<not> has_any_grant (Some example_rules) ''c@x''"
proof -
  have "can_sync_folders (Some example_rules) [] ''b@x'' example_unit"
    by (simp add: can_sync_folders_def example_rules_def example_unit_def scope_matches_def)
  then have "has_any_grant (Some example_rules) ''b@x''"
    using has_any_grant_complete [of "Some example_rules" "[]" "''b@x''" example_unit]
    by (simp add: example_unit_def members_def)
  moreover have "\<not> has_any_grant (Some example_rules) ''c@x''"
    by (simp add: has_any_grant_def example_rules_def)
  ultimately show ?thesis by simp
qed

end
