(* ===== verification/Manifest.thy ===== *)
theory Manifest
  imports RunCD_Prelude
begin

text \<open>
  Service definitions (\<open>internal/manifest/service.go\<close>): one YAML file per app, holding the image
  digest the reconcile loop deploys. Decoding YAML is a parameter; \<open>env\<close> is an association list
  with distinct keys. \<open>wf_service\<close> states what the checks of \<open>Parse\<close> leave.
\<close>

section \<open>Types\<close>

datatype resource_type = Service | Job | WorkerPool

definition resource_type_name :: "resource_type \<Rightarrow> string" where
  "resource_type_name t = (case t of Service \<Rightarrow> ''service'' | Job \<Rightarrow> ''job'' | WorkerPool \<Rightarrow> ''workerPool'')"

record image_spec =
  im_digest :: string
  im_track :: string
  im_version :: string
  im_repository :: string

record traffic =
  tr_latest_percent :: "int option"

record precondition =
  pc_type :: string
  pc_name :: string

record secret_ref =
  sec_name :: string
  sec_secret :: string
  sec_version :: string

record service_def =
  sd_resource_type :: string
  sd_image :: image_spec
  sd_traffic :: "traffic option"
  sd_env :: "(string \<times> string) list"
  sd_secrets :: "secret_ref list"
  sd_requires :: "precondition list"

datatype manifest_error =
    ManifestYaml string
  | UnknownResourceType string
  | DigestRequired
  | DigestMalformed string
  | ImageTrackAndVersion
  | RepositoryRequired
  | TrafficPercent int
  | EnvEmptyName
  | SecretMissingName
  | SecretMissingSecret string
  | SecretListedTwice string
  | EnvAndSecret string

section \<open>Parsing\<close>

text \<open>The pattern \<open>^sha256:[0-9a-f]{64}$\<close>.\<close>

definition digest_pattern :: "string \<Rightarrow> bool" where
  "digest_pattern s =
     (case cut_prefix s ''sha256:'' of None \<Rightarrow> False | Some h \<Rightarrow> length h = 64 \<and> list_all is_hex h)"

definition validate_image :: "image_spec \<Rightarrow> manifest_error option" where
  "validate_image img =
     (if im_digest img = [] then Some DigestRequired
      else if \<not> digest_pattern (im_digest img) then Some (DigestMalformed (im_digest img))
      else if im_track img \<noteq> [] \<and> im_version img \<noteq> [] then Some ImageTrackAndVersion
      else if (im_track img \<noteq> [] \<or> im_version img \<noteq> []) \<and> im_repository img = [] then Some RepositoryRequired
      else None)"

definition validate_traffic :: "traffic option \<Rightarrow> manifest_error option" where
  "validate_traffic t =
     (case t of None \<Rightarrow> None
      | Some tr \<Rightarrow> (case tr_latest_percent tr of None \<Rightarrow> None
                  | Some p \<Rightarrow> if p \<noteq> 100 then Some (TrafficPercent p) else None))"

fun validate_secrets_loop ::
  "(string \<times> string) list \<Rightarrow> string list \<Rightarrow> secret_ref list \<Rightarrow> manifest_error option" where
  "validate_secrets_loop env seen [] = None"
| "validate_secrets_loop env seen (s # ss) =
     (if sec_name s = [] then Some SecretMissingName
      else if sec_secret s = [] then Some (SecretMissingSecret (sec_name s))
      else if sec_name s \<in> set seen then Some (SecretListedTwice (sec_name s))
      else if lookup env (sec_name s) \<noteq> None then Some (EnvAndSecret (sec_name s))
      else validate_secrets_loop env (sec_name s # seen) ss)"

definition validate_secrets :: "(string \<times> string) list \<Rightarrow> secret_ref list \<Rightarrow> manifest_error option" where
  "validate_secrets env secrets =
     (if lookup env [] \<noteq> None then Some EnvEmptyName else validate_secrets_loop env [] secrets)"

definition default_resource_type :: "service_def \<Rightarrow> service_def" where
  "default_resource_type sd =
     (if sd_resource_type sd = [] then sd\<lparr>sd_resource_type := resource_type_name Service\<rparr> else sd)"

definition manifest_parse :: "(string \<Rightarrow> string + service_def) \<Rightarrow> string \<Rightarrow> manifest_error + service_def" where
  "manifest_parse unmarshal data =
     (case unmarshal data of
        Inl e \<Rightarrow> Inl (ManifestYaml e)
      | Inr sd0 \<Rightarrow>
         let sd = default_resource_type sd0 in
         if sd_resource_type sd \<notin> set (map resource_type_name [Service, Job, WorkerPool])
         then Inl (UnknownResourceType (sd_resource_type sd))
         else case first_some [validate_image (sd_image sd), validate_traffic (sd_traffic sd),
                               validate_secrets (sd_env sd) (sd_secrets sd)] of
           Some e \<Rightarrow> Inl e
         | None \<Rightarrow> Inr sd)"

section \<open>Specification\<close>

definition wf_digest :: "string \<Rightarrow> bool" where
  "wf_digest s \<longleftrightarrow> (\<exists>h. s = ''sha256:'' @ h \<and> length h = 64 \<and> list_all is_hex h)"

definition wf_image :: "image_spec \<Rightarrow> bool" where
  "wf_image img \<longleftrightarrow> wf_digest (im_digest img) \<and> (im_track img = [] \<or> im_version img = []) \<and>
     (im_track img \<noteq> [] \<or> im_version img \<noteq> [] \<longrightarrow> im_repository img \<noteq> [])"

text \<open>Every variable of the container is declared once, under a non-empty name.\<close>

definition env_names :: "service_def \<Rightarrow> string list" where
  "env_names sd = keys (sd_env sd) @ map sec_name (sd_secrets sd)"

definition wf_service :: "service_def \<Rightarrow> bool" where
  "wf_service sd \<longleftrightarrow>
     sd_resource_type sd \<in> {''service'', ''job'', ''workerPool''} \<and>
     wf_image (sd_image sd) \<and>
     (\<forall>tr p. sd_traffic sd = Some tr \<longrightarrow> tr_latest_percent tr = Some p \<longrightarrow> p = 100) \<and>
     distinct (env_names sd) \<and> [] \<notin> set (env_names sd) \<and>
     (\<forall>s \<in> set (sd_secrets sd). sec_secret s \<noteq> [])"

section \<open>Lemmas\<close>

lemma digest_pattern_iff: "digest_pattern s \<longleftrightarrow> wf_digest s"
proof (cases "cut_prefix s ''sha256:''")
  case None
  then show ?thesis unfolding digest_pattern_def wf_digest_def using cut_prefix_None [of s "''sha256:''"] by auto
next
  case (Some h)
  then have "s = ''sha256:'' @ h" unfolding cut_prefix_Some .
  with Some show ?thesis unfolding digest_pattern_def wf_digest_def by auto
qed

lemma wf_digest_nonempty: "wf_digest s \<Longrightarrow> s \<noteq> []"
  by (auto simp: wf_digest_def)

lemma validate_image_None: "validate_image img = None \<longleftrightarrow> wf_image img"
  by (auto simp: validate_image_def wf_image_def digest_pattern_iff wf_digest_nonempty)

lemma validate_traffic_None:
  "validate_traffic t = None \<longleftrightarrow> (\<forall>tr p. t = Some tr \<longrightarrow> tr_latest_percent tr = Some p \<longrightarrow> p = 100)"
  by (auto simp: validate_traffic_def split: option.splits)

lemma validate_secrets_loop_None:
  "validate_secrets_loop env seen ss = None \<longleftrightarrow>
     (\<forall>s \<in> set ss. sec_name s \<noteq> [] \<and> sec_secret s \<noteq> []) \<and> distinct (map sec_name ss) \<and>
     set (map sec_name ss) \<inter> (set seen \<union> set (keys env)) = {}"
proof (induction env seen ss rule: validate_secrets_loop.induct)
  case (2 env seen s ss)
  then show ?case by (auto simp: lookup_None)
qed simp

lemma validate_secrets_None:
  assumes "distinct (keys (sd_env sd))"
  shows "validate_secrets (sd_env sd) (sd_secrets sd) = None \<longleftrightarrow>
     distinct (env_names sd) \<and> [] \<notin> set (env_names sd) \<and> (\<forall>s \<in> set (sd_secrets sd). sec_secret s \<noteq> [])"
  using assms unfolding validate_secrets_def env_names_def
  by (auto simp: validate_secrets_loop_None lookup_None) (metis image_eqI)+

lemma default_resource_type_simps [simp]:
  "sd_image (default_resource_type sd) = sd_image sd" "sd_traffic (default_resource_type sd) = sd_traffic sd"
  "sd_env (default_resource_type sd) = sd_env sd" "sd_secrets (default_resource_type sd) = sd_secrets sd"
  "sd_requires (default_resource_type sd) = sd_requires sd"
  by (simp_all add: default_resource_type_def)

lemma manifest_parse_Inr:
  assumes "\<And>d. unmarshal data = Inr d \<Longrightarrow> distinct (keys (sd_env d))"
  shows "manifest_parse unmarshal data = Inr sd \<longleftrightarrow>
     (\<exists>d. unmarshal data = Inr d \<and> sd = default_resource_type d \<and> wf_service sd)"
proof (cases "unmarshal data")
  case (Inl e)
  then show ?thesis by (simp add: manifest_parse_def)
next
  case (Inr d)
  let ?d = "default_resource_type d"
  have dist: "distinct (keys (sd_env ?d))" using assms Inr by simp
  have types: "set (map resource_type_name [Service, Job, WorkerPool]) = {''service'', ''job'', ''workerPool''}"
    by (simp add: resource_type_name_def)
  define ok where "ok \<longleftrightarrow> sd_resource_type ?d \<in> set (map resource_type_name [Service, Job, WorkerPool])"
  define err where "err = first_some [validate_image (sd_image ?d), validate_traffic (sd_traffic ?d),
        validate_secrets (sd_env ?d) (sd_secrets ?d)]"
  have "wf_service ?d \<longleftrightarrow> ok \<and> err = None"
    unfolding ok_def err_def first_some_None_Cons validate_image_None validate_traffic_None
      validate_secrets_None [OF dist] wf_service_def types by blast
  moreover have "manifest_parse unmarshal data =
      (if \<not> ok then Inl (UnknownResourceType (sd_resource_type ?d))
       else case err of Some e \<Rightarrow> Inl e | None \<Rightarrow> Inr ?d)"
    unfolding manifest_parse_def Inr sum.case Let_def ok_def err_def ..
  ultimately show ?thesis
    using Inr by (cases err) auto
qed

section \<open>Properties\<close>

text \<open>C15: \<open>Parse\<close> accepts exactly the well-formed service definitions, after defaulting the resource
  type to \<open>service\<close>: the image is pinned to \<open>sha256:\<close> and 64 hex digits, at most one of track and
  version is set and either needs a repository, the traffic percentage is 100 if given, and every
  environment variable, plain or secret, is declared exactly once under a non-empty name.\<close>

theorem manifest_parse_iff:
  assumes "\<And>d. unmarshal data = Inr d \<Longrightarrow> distinct (keys (sd_env d))"
  shows "manifest_parse unmarshal data = Inr sd \<longleftrightarrow>
     (\<exists>d. unmarshal data = Inr d \<and> sd = default_resource_type d \<and> wf_service sd)"
  using assms by (rule manifest_parse_Inr)

definition example_service :: service_def where
  "example_service = \<lparr>sd_resource_type = [],
     sd_image = \<lparr>im_digest = ''sha256:'' @ replicate 64 (CHR ''a''), im_track = ''latest'', im_version = [],
       im_repository = ''us-docker.pkg.dev/p/r/i''\<rparr>,
     sd_traffic = Some \<lparr>tr_latest_percent = Some 100\<rparr>, sd_env = [(''A'', ''1'')],
     sd_secrets = [\<lparr>sec_name = ''B'', sec_secret = ''s'', sec_version = []\<rparr>], sd_requires = []\<rparr>"

lemma example_service_wf: "wf_service (default_resource_type example_service)"
  unfolding wf_service_def env_names_def default_resource_type_simps
  by (simp add: default_resource_type_def example_service_def wf_image_def wf_digest_def
      keys_def resource_type_name_def is_hex_def less_eq_char_def list_all_iff)

theorem manifest_parse_iff_witness:
  "manifest_parse (\<lambda>_. Inr example_service) [] = Inr (default_resource_type example_service) \<and>
   sd_resource_type (default_resource_type example_service) = ''service''"
proof -
  have "distinct (keys (sd_env example_service))" by (simp add: example_service_def keys_def)
  then have "manifest_parse (\<lambda>_. Inr example_service) [] = Inr (default_resource_type example_service)"
    using example_service_wf
    by (subst manifest_parse_iff) (auto simp: sum.inject)
  then show ?thesis
    by (simp add: default_resource_type_def example_service_def resource_type_name_def)
qed

end
