(* ===== verification/Expiring_Cache.thy ===== *)
theory Expiring_Cache
  imports RunCD_Prelude
begin

text \<open>
  The cache discipline that \<open>gitsource.Source\<close>, \<open>registry.Client\<close>, \<open>precondition.GCPChecker\<close>,
  \<open>folders.GCPResolver\<close> and \<open>githubapp.Client\<close> share: look under the mutex, join the key's
  singleflight group, look again, fetch, store successes only. The locale \<open>expiring_cache\<close> is the
  interface between that discipline and a component's own map of entries; what a caller may be
  served is proved once from its two laws. \<open>stale_cache\<close> adds the fallback of \<open>folders\<close>.
\<close>

section \<open>Calls\<close>

text \<open>
  A call looks at instant \<open>t1\<close>. On a miss it either leads the key's flight, where it looks again at
  \<open>t2\<close> and uses its own fetch, storing at \<open>t3\<close>, or it joins a flight in progress and shares that
  flight's result.
\<close>

datatype ('e, 'v) flight = Lead "'e + 'v" | Join "'e + 'v"

datatype ('k, 'e, 'v) call = Call (call_key: 'k) (call_t1: time) (call_t2: time) (call_flight: "('e, 'v) flight") (call_t3: time)

definition cached_get ::
  "('c \<Rightarrow> 'k \<Rightarrow> time \<Rightarrow> 'v option) \<Rightarrow> ('c \<Rightarrow> 'k \<Rightarrow> 'v \<Rightarrow> time \<Rightarrow> 'c) \<Rightarrow> ('k, 'e, 'v) call \<Rightarrow> 'c \<Rightarrow>
     ('e + 'v) \<times> 'c" where
  "cached_get read store cl c =
     (case read c (call_key cl) (call_t1 cl) of
        Some v \<Rightarrow> (Inr v, c)
      | None \<Rightarrow>
         (case call_flight cl of
            Join r \<Rightarrow> (r, c)
          | Lead r \<Rightarrow>
             (case read c (call_key cl) (call_t2 cl) of
                Some v \<Rightarrow> (Inr v, c)
              | None \<Rightarrow>
                 (case r of
                    Inl e \<Rightarrow> (Inl e, c)
                  | Inr v \<Rightarrow> (Inr v, store c (call_key cl) v (call_t3 cl))))))"

fun run_calls ::
  "(('k, 'e, 'v) call \<Rightarrow> 'c \<Rightarrow> ('e + 'v) \<times> 'c) \<Rightarrow> ('k, 'e, 'v) call list \<Rightarrow> 'c \<Rightarrow> ('e + 'v) list \<times> 'c" where
  "run_calls get [] c = ([], c)"
| "run_calls get (cl # cls) c =
     (let (r, c1) = get cl c; (rs, c2) = run_calls get cls c1 in (r # rs, c2))"

lemma run_calls_length: "run_calls get cls c = (rs, c') \<Longrightarrow> length rs = length cls"
  by (induction get cls c arbitrary: rs c' rule: run_calls.induct) (auto split: prod.splits)

text \<open>The successful fetches of a sequence of calls: key, value and instant.\<close>

definition fetches :: "('k, 'e, 'v) call list \<Rightarrow> ('k \<times> 'v \<times> time) set" where
  "fetches cls = {(call_key cl, v, call_t3 cl) |cl v. cl \<in> set cls \<and> call_flight cl = Lead (Inr v)}"

text \<open>A value a call may return: its own flight's, or one of an earlier fetch that is still live.\<close>

definition may_serve ::
  "('v \<Rightarrow> time \<Rightarrow> time \<Rightarrow> bool) \<Rightarrow> ('k \<times> 'v \<times> time) set \<Rightarrow> ('k, 'e, 'v) call \<Rightarrow> 'v \<Rightarrow> bool" where
  "may_serve live fs cl v \<longleftrightarrow>
     call_flight cl = Lead (Inr v) \<or> call_flight cl = Join (Inr v) \<or>
     (\<exists>t0. (call_key cl, v, t0) \<in> fs \<and> (live v t0 (call_t1 cl) \<or> live v t0 (call_t2 cl)))"

lemma fetches_Nil [simp]: "fetches [] = {}"
  by (simp add: fetches_def)

lemma in_fetches:
  "(k, v, t) \<in> fetches cls \<longleftrightarrow>
     (\<exists>cl \<in> set cls. call_key cl = k \<and> call_t3 cl = t \<and> call_flight cl = Lead (Inr v))"
  unfolding fetches_def by (auto simp: eq_commute)

lemma fetches_mono: "set xs \<subseteq> set ys \<Longrightarrow> fetches xs \<subseteq> fetches ys"
  by (auto simp: fetches_def)

lemma fetches_snoc:
  "fetches (cls @ [cl]) = fetches cls \<union>
     (case call_flight cl of Lead (Inr v) \<Rightarrow> {(call_key cl, v, call_t3 cl)} | _ \<Rightarrow> {})"
  by (auto simp: fetches_def split: flight.splits sum.splits)

section \<open>The interface\<close>

locale expiring_cache =
  fixes empty :: 'c
    and read :: "'c \<Rightarrow> 'k \<Rightarrow> time \<Rightarrow> 'v option"
    and store :: "'c \<Rightarrow> 'k \<Rightarrow> 'v \<Rightarrow> time \<Rightarrow> 'c"
    and live :: "'v \<Rightarrow> time \<Rightarrow> time \<Rightarrow> bool"
  assumes read_empty: "read empty k t = None"
    and read_store: "read (store c k v t0) k' t = (if k' = k then (if live v t0 t then Some v else None) else read c k' t)"
begin

text \<open>Every entry the cache can serve comes from a successful fetch that is still live.\<close>

definition justified :: "('k \<times> 'v \<times> time) set \<Rightarrow> 'c \<Rightarrow> bool" where
  "justified fs c \<longleftrightarrow> (\<forall>k t v. read c k t = Some v \<longrightarrow> (\<exists>t0. (k, v, t0) \<in> fs \<and> live v t0 t))"

lemma justified_empty: "justified fs empty"
  by (simp add: justified_def read_empty)

lemma justified_mono: "justified fs c \<Longrightarrow> fs \<subseteq> gs \<Longrightarrow> justified gs c"
  unfolding justified_def by blast

lemma justified_store: "justified fs c \<Longrightarrow> justified (insert (k, v, t0) fs) (store c k v t0)"
  unfolding justified_def read_store by (auto split: if_splits)

lemma cached_get_cases:
  assumes "cached_get read store cl c = (r, c')"
  shows "(c' = c \<and> (\<exists>v t. r = Inr v \<and> t \<in> {call_t1 cl, call_t2 cl} \<and> read c (call_key cl) t = Some v)) \<or>
     (c' = c \<and> call_flight cl = Join r) \<or>
     (c' = c \<and> (\<exists>e. r = Inl e \<and> call_flight cl = Lead (Inl e))) \<or>
     (\<exists>v. r = Inr v \<and> call_flight cl = Lead (Inr v) \<and> c' = store c (call_key cl) v (call_t3 cl))"
  using assms by (auto simp: cached_get_def split: option.splits flight.splits sum.splits)

lemma cached_get_served:
  assumes "justified fs c" and "cached_get read store cl c = (Inr v, c')"
  shows "may_serve live fs cl v"
proof -
  consider t where "t \<in> {call_t1 cl, call_t2 cl}" "read c (call_key cl) t = Some v"
    | "call_flight cl \<in> {Join (Inr v), Lead (Inr v)}"
    using cached_get_cases [OF assms(2)] by auto
  then show ?thesis
  proof cases
    case 1
    then obtain t0 where "(call_key cl, v, t0) \<in> fs" "live v t0 t"
      using assms(1) unfolding justified_def by blast
    moreover have "live v t0 (call_t1 cl) \<or> live v t0 (call_t2 cl)"
      using 1(1) \<open>live v t0 t\<close> by blast
    ultimately show ?thesis unfolding may_serve_def by blast
  next
    case 2
    then show ?thesis unfolding may_serve_def by blast
  qed
qed

lemma cached_get_justified:
  assumes "justified (fetches cls) c" and "cached_get read store cl c = (r, c')"
  shows "justified (fetches (cls @ [cl])) c'"
proof -
  have mono: "justified (fetches (cls @ [cl])) c"
    by (rule justified_mono [OF assms(1) fetches_mono]) auto
  consider "c' = c" | v where "call_flight cl = Lead (Inr v)" "c' = store c (call_key cl) v (call_t3 cl)"
    using cached_get_cases [OF assms(2)] by blast
  then show ?thesis
  proof cases
    case 1
    with mono show ?thesis by simp
  next
    case 2
    then show ?thesis using justified_store [OF assms(1)] by (simp add: fetches_snoc)
  qed
qed

lemma run_calls_served_aux:
  assumes "justified (fetches pre) c" and "run_calls (cached_get read store) cls c = (rs, c')"
    and "i < length cls" and "rs ! i = Inr v"
  shows "may_serve live (fetches (pre @ take i cls)) (cls ! i) v"
  using assms
proof (induction cls arbitrary: pre c rs i)
  case (Cons cl cls)
  obtain r c1 where get: "cached_get read store cl c = (r, c1)" by (metis surj_pair)
  obtain rs' where run: "run_calls (cached_get read store) cls c1 = (rs', c')" and rs: "rs = r # rs'"
    using Cons.prems(2) get by (auto split: prod.splits)
  show ?case
  proof (cases i)
    case 0
    with Cons.prems rs get show ?thesis by (auto intro: cached_get_served)
  next
    case (Suc j)
    from cached_get_justified [OF Cons.prems(1) get] run
    have "may_serve live (fetches ((pre @ [cl]) @ take j cls)) (cls ! j) v"
      using Cons.prems(3,4) Suc rs by (intro Cons.IH) auto
    with Suc show ?thesis by simp
  qed
qed simp

lemma run_calls_served:
  assumes "run_calls (cached_get read store) cls empty = (rs, c')" and "i < length cls" and "rs ! i = Inr v"
  shows "may_serve live (fetches (take i cls)) (cls ! i) v"
  using run_calls_served_aux [where pre = "[]", OF _ assms] by (simp add: justified_empty)

lemma run_calls_justified_aux:
  assumes "justified (fetches pre) c" and "run_calls (cached_get read store) cls c = (rs, c')"
  shows "justified (fetches (pre @ cls)) c'"
  using assms
proof (induction cls arbitrary: pre c rs)
  case (Cons cl cls)
  obtain r c1 where get: "cached_get read store cl c = (r, c1)" by (metis surj_pair)
  then obtain rs' where "run_calls (cached_get read store) cls c1 = (rs', c')"
    using Cons.prems(2) by (auto split: prod.splits)
  from Cons.IH [OF cached_get_justified [OF Cons.prems(1) get] this] show ?case by simp
qed simp

lemma run_calls_justified:
  "run_calls (cached_get read store) cls empty = (rs, c') \<Longrightarrow> justified (fetches cls) c'"
  using run_calls_justified_aux [of "[]" empty cls rs c'] by (simp add: justified_empty)

text \<open>A failed fetch leaves the cache as it was, so it cannot hide a later success.\<close>

lemma cached_get_failed: "cached_get read store cl c = (Inl e, c') \<Longrightarrow> c' = c"
  using cached_get_cases [of cl c "Inl e" c'] by auto

end

text \<open>With \<open>peek\<close>, the value stored last for a key whatever its age.\<close>

locale stale_cache = expiring_cache empty read store live
  for empty :: 'c and read :: "'c \<Rightarrow> 'k \<Rightarrow> time \<Rightarrow> 'v option" and store and live +
  fixes peek :: "'c \<Rightarrow> 'k \<Rightarrow> 'v option"
  assumes peek_empty: "peek empty k = None"
    and peek_store: "peek (store c k v t0) k' = (if k' = k then Some v else peek c k')"
begin

lemma peek_cached_get:
  assumes "cached_get read store cl c = (r, c')" and "peek c k = Some v"
  shows "\<exists>v'. peek c' k = Some v'"
  using cached_get_cases [OF assms(1)] assms(2) by (auto simp: peek_store)

end

section \<open>Entries stamped with the time they were fetched\<close>

definition fresh :: "int \<Rightarrow> ('k \<times> ('v \<times> time)) list \<Rightarrow> 'k \<Rightarrow> time \<Rightarrow> 'v option" where
  "fresh ttl c k now =
     (case lookup c k of None \<Rightarrow> None | Some (v, at) \<Rightarrow> if now - at < ttl then Some v else None)"

definition stamp :: "('k \<times> ('v \<times> time)) list \<Rightarrow> 'k \<Rightarrow> 'v \<Rightarrow> time \<Rightarrow> ('k \<times> ('v \<times> time)) list" where
  "stamp c k v t = put k (v, t) c"

definition within :: "int \<Rightarrow> 'v \<Rightarrow> time \<Rightarrow> time \<Rightarrow> bool" where
  "within ttl v t0 t \<longleftrightarrow> t - t0 < ttl"

lemma fresh_empty: "fresh ttl [] k t = None"
  by (simp add: fresh_def)

lemma fresh_stamp:
  "fresh ttl (stamp c k v t0) k' t = (if k' = k then (if within ttl v t0 t then Some v else None) else fresh ttl c k' t)"
  by (simp add: fresh_def stamp_def within_def)

end
