(* ===== verification/Gitsource.thy ===== *)
theory Gitsource
  imports Expiring_Cache Expander
begin

text \<open>
  The manifest source (\<open>internal/gitsource/gitsource.go\<close>): manifests fetched through the GitHub
  client, cached per repository, path and branch. The fetch itself and the singleflight group are
  the environment's part of a \<^typ>\<open>('k, 'e, 'v) call\<close>; a flight's result is shared between callers whose
  group key, a NUL separated string, is the same.
\<close>

section \<open>Model\<close>

record cache_key =
  ck_repo :: string
  ck_path :: string
  ck_branch :: string

type_synonym manifest_cache = "(cache_key \<times> (string \<times> time)) list"

definition default_cache_ttl :: int where "default_cache_ttl = 10 * second"

definition source_ttl :: "int \<Rightarrow> int" where
  "source_ttl cache_ttl = (if cache_ttl \<le> 0 then default_cache_ttl else cache_ttl)"

definition source_key :: "sync_unit \<Rightarrow> cache_key" where
  "source_key u = \<lparr>ck_repo = su_source_repo u, ck_path = su_source_path u, ck_branch = su_source_branch u\<rparr>"

definition group_key :: "sync_unit \<Rightarrow> string" where
  "group_key u = su_source_repo u @ CHR 0x00 # su_source_path u @ CHR 0x00 # su_source_branch u"

definition source_cached :: "int \<Rightarrow> manifest_cache \<Rightarrow> cache_key \<Rightarrow> time \<Rightarrow> string option" where
  "source_cached ttl cache key now =
     (case lookup cache key of
        None \<Rightarrow> None
      | Some (data, fetched_at) \<Rightarrow> if now - fetched_at \<ge> ttl then None else Some data)"

definition source_get ::
  "int \<Rightarrow> sync_unit \<Rightarrow> time \<Rightarrow> time \<Rightarrow> ('e, string) flight \<Rightarrow> time \<Rightarrow> manifest_cache \<Rightarrow> ('e + string) \<times> manifest_cache" where
  "source_get cache_ttl u t1 t2 flight t3 cache =
     (let key = source_key u; ttl = source_ttl cache_ttl in
      case source_cached ttl cache key t1 of
        Some data \<Rightarrow> (Inr data, cache)
      | None \<Rightarrow>
         (case flight of
            Join r \<Rightarrow> (r, cache)
          | Lead fetch \<Rightarrow>
             (case source_cached ttl cache key t2 of
                Some data \<Rightarrow> (Inr data, cache)
              | None \<Rightarrow>
                 (case fetch of
                    Inl e \<Rightarrow> (Inl e, cache)
                  | Inr data \<Rightarrow> (Inr data, put key (data, t3) cache)))))"

section \<open>Lemmas\<close>

lemma source_ttl_pos: "0 < source_ttl ttl"
  by (simp add: source_ttl_def default_cache_ttl_def time_units)

lemma source_cached_fresh: "source_cached ttl = fresh ttl"
  by (auto simp: source_cached_def fresh_def fun_eq_iff split: option.split)

lemma source_get_cached_get:
  "source_get cache_ttl u t1 t2 flight t3 =
     cached_get (fresh (source_ttl cache_ttl)) stamp (Call (source_key u) t1 t2 flight t3)"
  unfolding source_get_def cached_get_def source_cached_fresh stamp_def Let_def call.sel ..

interpretation source: expiring_cache "[]" "fresh (source_ttl ttl)" stamp "within (source_ttl ttl)" for ttl
  by unfold_locales (simp_all add: fresh_empty fresh_stamp)

text \<open>A unit's request, as the environment resolves it.\<close>

definition source_call ::
  "sync_unit \<times> time \<times> time \<times> ('e, string) flight \<times> time \<Rightarrow> (cache_key, 'e, string) call" where
  "source_call = (\<lambda>(u, t1, t2, flight, t3). Call (source_key u) t1 t2 flight t3)"

lemma source_call_tuple [simp]:
  "source_call (u, t1, t2, flight, t3) = Call (source_key u) t1 t2 flight t3"
  by (simp add: source_call_def)

fun source_run ::
  "int \<Rightarrow> (sync_unit \<times> time \<times> time \<times> ('e, string) flight \<times> time) list \<Rightarrow> manifest_cache \<Rightarrow>
     ('e + string) list \<times> manifest_cache" where
  "source_run cache_ttl [] cache = ([], cache)"
| "source_run cache_ttl ((u, t1, t2, flight, t3) # reqs) cache =
     (let (r, cache1) = source_get cache_ttl u t1 t2 flight t3 cache;
          (rs, cache2) = source_run cache_ttl reqs cache1
      in (r # rs, cache2))"

lemma source_run_run_calls:
  "source_run cache_ttl reqs cache =
     run_calls (cached_get (fresh (source_ttl cache_ttl)) stamp) (map source_call reqs) cache"
proof (induction reqs arbitrary: cache)
  case (Cons q reqs)
  obtain u t1 t2 flight t3 where q: "q = (u, t1, t2, flight, t3)" by (cases q) auto
  show ?case by (simp add: q source_get_cached_get Cons.IH split: prod.split)
qed simp

lemma group_key_inj:
  assumes "group_key u = group_key v"
    and "\<forall>w \<in> {u, v}. CHR 0x00 \<notin> set (su_source_path w) \<union> set (su_source_branch w)"
  shows "source_key u = source_key v"
proof -
  let ?z = "CHR 0x00"
  have "(su_source_repo u @ ?z # su_source_path u) @ ?z # su_source_branch u =
      (su_source_repo v @ ?z # su_source_path v) @ ?z # su_source_branch v"
    using assms(1) by (simp add: group_key_def)
  from slash_key_inj [OF this] assms(2)
  have "su_source_branch u = su_source_branch v"
    "su_source_repo u @ ?z # su_source_path u = su_source_repo v @ ?z # su_source_path v"
    by simp_all
  with slash_key_inj [OF this(2)] assms(2) show ?thesis by (simp add: source_key_def)
qed

section \<open>Properties\<close>


definition example_source_unit :: sync_unit where
  "example_source_unit = \<lparr>su_app = ''web'', su_project = ''p'', su_env = ''e'', su_region = ''r'',
     su_sync = \<lparr>sp_auto = None, sp_retry = None, sp_self_heal = None, sp_windows = None, sp_observe = None\<rparr>,
     su_source_repo = ''o/r'', su_source_path = ''web.yaml'', su_source_branch = [],
     su_ignore_fields = [], su_ignore_preconditions = [], su_track = [], su_version = []\<rparr>"


text \<open>Callers whose singleflight key coincides ask for the same manifest, since no path or branch
  contains a NUL byte: a shared flight never answers a request for another file.\<close>

theorem group_key_same_source:
  assumes "group_key u = group_key v"
    and "\<forall>w \<in> {u, v}. CHR 0x00 \<notin> set (su_source_path w) \<union> set (su_source_branch w)"
  shows "source_key u = source_key v"
  using assms by (rule group_key_inj)

theorem group_key_same_source_witness:
  "source_key (example_source_unit\<lparr>su_app := ''x''\<rparr>) = source_key example_source_unit"
  by (rule group_key_same_source) (simp_all add: group_key_def example_source_unit_def)

end
