(* ===== verification/Registry.thy ===== *)
theory Registry
  imports Expiring_Cache
begin

text \<open>
  Artifact Registry (\<open>internal/registry\<close>): parsing image references, listing the tags of one image
  and resolving a track or a semver constraint to a digest. The functions of
  \<open>golang.org/x/mod/semver\<close> are the fields of the record \<open>semver_lib\<close>; the Admin API's answer, the images
  of a repository and possibly an error ending the iteration, is an argument.
\<close>

section \<open>Parsing references\<close>

record tag =
  tag_name :: string
  tag_digest :: string

datatype registry_error =
    BadRepository string
  | ListImages string string
  | NoTagNamed string
  | BadConstraint string
  | NoTagSatisfies string

definition is_location_char :: "char \<Rightarrow> bool" where
  "is_location_char c \<longleftrightarrow> is_digit c \<or> (CHR ''a'' \<le> c \<and> c \<le> CHR ''z'') \<or> c = CHR ''-''"

text \<open>The pattern \<open>^([a-z0-9-]+)-docker\.pkg\.dev/([^/]+)/([^/]+)/(.+)$\<close>; a dot matches no newline.\<close>

definition match_repository :: "string \<Rightarrow> (string \<times> string \<times> string \<times> string) option" where
  "match_repository r =
     (case cut_at (CHR ''/'') r of None \<Rightarrow> None
      | Some (host, r1) \<Rightarrow>
        (case cut_at (CHR ''/'') r1 of None \<Rightarrow> None
         | Some (project, r2) \<Rightarrow>
           (case cut_at (CHR ''/'') r2 of None \<Rightarrow> None
            | Some (repo, im) \<Rightarrow>
               let location = trim_suffix host ''-docker.pkg.dev'' in
               if has_suffix host ''-docker.pkg.dev'' \<and> location \<noteq> [] \<and> list_all is_location_char location \<and>
                  project \<noteq> [] \<and> repo \<noteq> [] \<and> im \<noteq> [] \<and> CHR 0x0A \<notin> set im
               then Some (location, project, repo, im) else None)))"

definition parse_repository :: "string \<Rightarrow> registry_error + (string \<times> string)" where
  "parse_repository r =
     (case match_repository r of
        None \<Rightarrow> Inl (BadRepository r)
      | Some (location, project, repo, im) \<Rightarrow>
          Inr (''projects/'' @ project @ ''/locations/'' @ location @ ''/repositories/'' @ repo,
               project @ CHR ''/'' # repo @ CHR ''/'' # im))"

definition split_digest :: "string \<Rightarrow> (string \<times> string) option" where
  "split_digest uri =
     (let at = last_index (CHR ''@'') uri in
      if at < 0 then None
      else let digest = drop (nat (at + 1)) uri; rest = take (nat at) uri; slash = first_index (CHR ''/'') rest in
        if slash < 0 then None else Some (digest, drop (nat (slash + 1)) rest))"

section \<open>Listing tags\<close>

record docker_image =
  di_uri :: string
  di_tags :: "string list"

text \<open>The answer of \<open>ListDockerImages\<close>: the images it yields before it is done or fails.\<close>

type_synonym image_listing = "docker_image list \<times> string option"

fun collect_tags :: "string \<Rightarrow> docker_image list \<Rightarrow> tag list \<Rightarrow> tag list" where
  "collect_tags want [] tags = tags"
| "collect_tags want (img # imgs) tags =
     (case split_digest (di_uri img) of
        None \<Rightarrow> collect_tags want imgs tags
      | Some (digest, path) \<Rightarrow>
          if path \<noteq> want then collect_tags want imgs tags
          else collect_tags want imgs (tags @ map (\<lambda>n. \<lparr>tag_name = n, tag_digest = digest\<rparr>) (di_tags img)))"

definition list_tags_uncached :: "(string \<Rightarrow> image_listing) \<Rightarrow> string \<Rightarrow> registry_error + tag list" where
  "list_tags_uncached list_images repository =
     (case parse_repository repository of
        Inl e \<Rightarrow> Inl e
      | Inr (parent, want) \<Rightarrow>
          (case list_images parent of
             (imgs, Some e) \<Rightarrow> Inl (ListImages parent e)
           | (imgs, None) \<Rightarrow> Inr (collect_tags want imgs [])))"

type_synonym tags_cache = "(string \<times> (tag list \<times> time)) list"

definition default_tags_cache_ttl :: int where "default_tags_cache_ttl = 30 * second"

definition tags_ttl :: "int \<Rightarrow> int" where
  "tags_ttl cache_ttl = (if cache_ttl = 0 then default_tags_cache_ttl else cache_ttl)"

definition list_tags ::
  "int \<Rightarrow> string \<Rightarrow> time \<Rightarrow> time \<Rightarrow> ('e, tag list) flight \<Rightarrow> time \<Rightarrow> tags_cache \<Rightarrow> ('e + tag list) \<times> tags_cache" where
  "list_tags cache_ttl repository t1 t2 flight t3 cache =
     (let ttl = tags_ttl cache_ttl;
          cached = (\<lambda>now. case lookup cache repository of None \<Rightarrow> None
                    | Some (tags, fetched_at) \<Rightarrow> if now - fetched_at < ttl then Some tags else None)
      in case cached t1 of
        Some tags \<Rightarrow> (Inr tags, cache)
      | None \<Rightarrow>
         (case flight of
            Join r \<Rightarrow> (r, cache)
          | Lead fetch \<Rightarrow>
             (case cached t2 of
                Some tags \<Rightarrow> (Inr tags, cache)
              | None \<Rightarrow>
                 (case fetch of
                    Inl e \<Rightarrow> (Inl e, cache)
                  | Inr tags \<Rightarrow> (Inr tags, put repository (tags, t3) cache)))))"

section \<open>Resolving track and version\<close>

record semver_lib =
  sv_is_valid :: "string \<Rightarrow> bool"
  sv_canonical :: "string \<Rightarrow> string"
  sv_major :: "string \<Rightarrow> string"
  sv_major_minor :: "string \<Rightarrow> string"
  sv_prerelease :: "string \<Rightarrow> string"
  sv_compare :: "string \<Rightarrow> string \<Rightarrow> int"

definition canonical_semver :: "string \<Rightarrow> string" where
  "canonical_semver s = (if has_prefix s ''v'' then s else ''v'' @ s)"

definition semver_level :: "semver_lib \<Rightarrow> nat \<Rightarrow> string \<Rightarrow> string" where
  "semver_level sv depth v =
     (if depth = 0 then sv_major sv v else if depth = 1 then sv_major_minor sv v else sv_canonical sv v)"

fun best_match_loop ::
  "semver_lib \<Rightarrow> string \<Rightarrow> nat \<Rightarrow> string \<Rightarrow> tag list \<Rightarrow> string \<times> string \<Rightarrow> string" where
  "best_match_loop sv pre depth constraint [] (best_digest, best_version) = best_digest"
| "best_match_loop sv pre depth constraint (t # ts) (best_digest, best_version) =
     (case (if pre \<noteq> [] then cut_prefix (tag_name t) pre else Some (tag_name t)) of
        None \<Rightarrow> best_match_loop sv pre depth constraint ts (best_digest, best_version)
      | Some name \<Rightarrow>
          let v = canonical_semver name in
          if \<not> sv_is_valid sv v \<or> sv_prerelease sv v \<noteq> [] then
            best_match_loop sv pre depth constraint ts (best_digest, best_version)
          else if semver_level sv depth v \<noteq> constraint then
            best_match_loop sv pre depth constraint ts (best_digest, best_version)
          else if best_version = [] \<or> sv_compare sv v best_version > 0 then
            best_match_loop sv pre depth constraint ts (tag_digest t, v)
          else best_match_loop sv pre depth constraint ts (best_digest, best_version))"

definition best_match :: "semver_lib \<Rightarrow> tag list \<Rightarrow> string \<Rightarrow> nat \<Rightarrow> string \<Rightarrow> string" where
  "best_match sv tags pre depth constraint = best_match_loop sv pre depth constraint tags ([], [])"

fun find_tag :: "tag list \<Rightarrow> string \<Rightarrow> string option" where
  "find_tag [] name = None"
| "find_tag (t # ts) name = (if tag_name t = name then Some (tag_digest t) else find_tag ts name)"

definition constraint_depth :: "string \<Rightarrow> nat" where
  "constraint_depth version = count_list (trim_prefix (canonical_semver version) ''v'') (CHR ''.'')"

definition resolve_constraint :: "semver_lib \<Rightarrow> string \<Rightarrow> string" where
  "resolve_constraint sv version =
     (if constraint_depth version \<ge> 2 then sv_canonical sv (canonical_semver version)
      else canonical_semver version)"

definition resolve :: "semver_lib \<Rightarrow> tag list \<Rightarrow> string \<Rightarrow> string \<Rightarrow> string \<Rightarrow> registry_error + string" where
  "resolve sv tags track version image_name =
     (if track \<noteq> [] then
        (case find_tag tags track of Some d \<Rightarrow> Inr d | None \<Rightarrow> Inl (NoTagNamed track))
      else if \<not> sv_is_valid sv (canonical_semver version) then Inl (BadConstraint version)
      else
        let depth = constraint_depth version;
            constraint = resolve_constraint sv version;
            bare = best_match sv tags [] depth constraint;
            prefixed = best_match sv tags (image_name @ ''-'') depth constraint
        in if prefixed \<noteq> [] \<and> (bare = [] \<or> prefixed = bare) then Inr prefixed
           else if bare \<noteq> [] then Inr bare
           else Inl (NoTagSatisfies version))"

section \<open>Specification\<close>

text \<open>The documented behaviour of \<open>semver.Compare\<close> on valid versions: a total preorder.\<close>

definition semver_order :: "semver_lib \<Rightarrow> bool" where
  "semver_order sv \<longleftrightarrow>
     (\<forall>u v. sv_is_valid sv u \<longrightarrow> sv_is_valid sv v \<longrightarrow> sv_compare sv u v > 0 \<longrightarrow> sv_compare sv v u \<le> 0) \<and>
     (\<forall>u. sv_is_valid sv u \<longrightarrow> sv_compare sv u u \<le> 0) \<and>
     (\<forall>u v w. sv_is_valid sv u \<longrightarrow> sv_is_valid sv v \<longrightarrow> sv_is_valid sv w \<longrightarrow>
        sv_compare sv u v \<le> 0 \<longrightarrow> sv_compare sv v w \<le> 0 \<longrightarrow> sv_compare sv u w \<le> 0)"

text \<open>The release version a tag stands for under a prefix, when it satisfies the constraint.\<close>

definition tag_release :: "semver_lib \<Rightarrow> string \<Rightarrow> nat \<Rightarrow> string \<Rightarrow> tag \<Rightarrow> string \<Rightarrow> bool" where
  "tag_release sv pre depth constraint t v \<longleftrightarrow>
     (\<exists>name. tag_name t = pre @ name \<and> v = canonical_semver name) \<and>
     sv_is_valid sv v \<and> sv_prerelease sv v = [] \<and> semver_level sv depth v = constraint"

definition is_highest :: "semver_lib \<Rightarrow> tag list \<Rightarrow> string \<Rightarrow> nat \<Rightarrow> string \<Rightarrow> string \<Rightarrow> bool" where
  "is_highest sv tags pre depth constraint d \<longleftrightarrow>
     (\<exists>t v. t \<in> set tags \<and> tag_digest t = d \<and> tag_release sv pre depth constraint t v \<and>
        (\<forall>t' v'. t' \<in> set tags \<longrightarrow> tag_release sv pre depth constraint t' v' \<longrightarrow> sv_compare sv v' v \<le> 0))"

section \<open>Lemmas\<close>

lemma canonical_semver_nonempty: "canonical_semver s \<noteq> []"
  by (auto simp: canonical_semver_def has_prefix_def)

lemma has_suffix_append [simp]: "has_suffix (s @ p) p"
  by (auto simp: has_suffix_iff)

lemma match_repository_iff:
  "match_repository r = Some (location, project, repo, im) \<longleftrightarrow>
     r = location @ ''-docker.pkg.dev/'' @ project @ CHR ''/'' # repo @ CHR ''/'' # im \<and>
     location \<noteq> [] \<and> list_all is_location_char location \<and>
     project \<noteq> [] \<and> CHR ''/'' \<notin> set project \<and> repo \<noteq> [] \<and> CHR ''/'' \<notin> set repo \<and>
     im \<noteq> [] \<and> CHR 0x0A \<notin> set im" (is "?L \<longleftrightarrow> ?R")
proof
  assume ?L
  then obtain host r1 r2 where "cut_at (CHR ''/'') r = Some (host, r1)"
      "cut_at (CHR ''/'') r1 = Some (project, r2)" "cut_at (CHR ''/'') r2 = Some (repo, im)"
      "has_suffix host ''-docker.pkg.dev''" "location = trim_suffix host ''-docker.pkg.dev''"
      "location \<noteq> []" "list_all is_location_char location" "project \<noteq> []" "repo \<noteq> []" "im \<noteq> []"
      "CHR 0x0A \<notin> set im"
    by (auto simp: match_repository_def Let_def split: option.splits prod.splits if_splits)
  then show ?R unfolding cut_at_Some has_suffix_iff by auto
next
  assume R: ?R
  then have "CHR ''/'' \<notin> set location"
    by (auto simp: list_all_iff is_location_char_def is_digit_def less_eq_char_def)
  with R have "cut_at (CHR ''/'') r =
      Some (location @ ''-docker.pkg.dev'', project @ CHR ''/'' # repo @ CHR ''/'' # im)"
    unfolding cut_at_Some by simp
  with R show ?L by (simp add: match_repository_def)
qed

lemma split_digest_iff:
  "split_digest uri = Some (digest, path) \<longleftrightarrow>
     (\<exists>host. uri = host @ CHR ''/'' # path @ CHR ''@'' # digest \<and> CHR ''/'' \<notin> set host \<and> CHR ''@'' \<notin> set digest)"
    (is "?L \<longleftrightarrow> ?R")
proof
  assume L: ?L
  then have at: "CHR ''@'' \<in> set uri"
    unfolding split_digest_def Let_def last_index_neg_iff by (auto split: if_splits)
  then obtain a b where uri: "uri = a @ CHR ''@'' # b" "CHR ''@'' \<notin> set b"
    using split_last_ex by metis
  with L have sl: "CHR ''/'' \<in> set a" "b = digest" "drop (nat (first_index (CHR ''/'') a + 1)) a = path"
    by (auto simp: split_digest_def last_index_simps first_index_def nat_add_distrib split: if_splits)
  then obtain h p where a: "a = h @ CHR ''/'' # p" "CHR ''/'' \<notin> set h"
    using split_list_first [of "CHR ''/''" a] by metis
  then have "first_index (CHR ''/'') a = int (length h)"
    by (auto simp: first_index_def takeWhile_append)
  with sl a have "path = p" by (auto simp: nat_add_distrib)
  with uri a sl show ?R by auto
next
  assume ?R
  then obtain h where h: "uri = (h @ CHR ''/'' # path) @ CHR ''@'' # digest" "CHR ''/'' \<notin> set h"
      "CHR ''@'' \<notin> set digest" by auto
  then have "first_index (CHR ''/'') (h @ CHR ''/'' # path) = int (length h)"
    by (auto simp: first_index_def takeWhile_append)
  with h(3) show ?L
    unfolding h(1) split_digest_def Let_def last_index_split [OF h(3)]
    by (simp add: nat_add_distrib)
qed

lemma collect_tags_append: "collect_tags want imgs tags = tags @ collect_tags want imgs []"
proof (induction imgs arbitrary: tags)
  case (Cons img imgs)
  show ?case
    using Cons [of "tags @ map (\<lambda>n. \<lparr>tag_name = n, tag_digest = d\<rparr>) (di_tags img)" for d]
      Cons [of "map (\<lambda>n. \<lparr>tag_name = n, tag_digest = d\<rparr>) (di_tags img)" for d] Cons [of tags]
    by (auto split: option.split prod.split)
qed simp

lemma set_collect_tags:
  "set (collect_tags want imgs tags) = set tags \<union>
     {\<lparr>tag_name = n, tag_digest = d\<rparr> |n d img. img \<in> set imgs \<and> split_digest (di_uri img) = Some (d, want) \<and>
        n \<in> set (di_tags img)}"
  by (induction want imgs tags rule: collect_tags.induct) (auto split: option.splits prod.splits)

lemma tag_release_iff:
  "tag_release sv pre depth constraint t v \<longleftrightarrow>
     (\<exists>name. (if pre \<noteq> [] then cut_prefix (tag_name t) pre else Some (tag_name t)) = Some name \<and>
        v = canonical_semver name \<and> sv_is_valid sv v \<and> sv_prerelease sv v = [] \<and>
        semver_level sv depth v = constraint)"
  by (auto simp: tag_release_def cut_prefix_Some)

lemma find_tag_find: "find_tag tags name = map_option tag_digest (List.find (\<lambda>t. tag_name t = name) tags)"
  by (induction tags) simp_all

lemma tag_release_nonempty: "tag_release sv pre depth constraint t v \<Longrightarrow> v \<noteq> []"
  using canonical_semver_nonempty by (auto simp: tag_release_def)

text \<open>The loop's accumulator is empty, or the digest and version of a highest release so far.\<close>

definition best_so_far ::
  "semver_lib \<Rightarrow> string \<Rightarrow> nat \<Rightarrow> string \<Rightarrow> tag list \<Rightarrow> string \<Rightarrow> string \<Rightarrow> bool" where
  "best_so_far sv pre depth constraint seen d v \<longleftrightarrow>
     (v = [] \<and> d = [] \<and> (\<forall>t \<in> set seen. \<forall>w. \<not> tag_release sv pre depth constraint t w)) \<or>
     ((\<exists>t \<in> set seen. tag_digest t = d \<and> tag_release sv pre depth constraint t v) \<and>
      (\<forall>t \<in> set seen. \<forall>w. tag_release sv pre depth constraint t w \<longrightarrow> sv_compare sv w v \<le> 0))"

lemma best_so_far_skip:
  "best_so_far sv pre depth constraint seen d v \<Longrightarrow> \<forall>w. \<not> tag_release sv pre depth constraint t w \<Longrightarrow>
     best_so_far sv pre depth constraint (seen @ [t]) d v"
  unfolding best_so_far_def by auto

lemma tag_release_fun:
  "tag_release sv pre depth constraint t v \<Longrightarrow> tag_release sv pre depth constraint t w \<Longrightarrow> v = w"
  by (auto simp: tag_release_def)

lemma best_so_far_snoc:
  assumes "t' \<in> set (seen @ [t])" and "tag_release sv pre depth constraint t' v"
    and "\<And>u x. u \<in> set (seen @ [t]) \<Longrightarrow> tag_release sv pre depth constraint u x \<Longrightarrow> sv_compare sv x v \<le> 0"
  shows "best_so_far sv pre depth constraint (seen @ [t]) (tag_digest t') v"
  unfolding best_so_far_def using assms by blast

lemma best_so_far_replace:
  assumes order: "semver_order sv" and best: "best_so_far sv pre depth constraint seen d v"
    and rel: "tag_release sv pre depth constraint t w" and better: "v = [] \<or> sv_compare sv w v > 0"
  shows "best_so_far sv pre depth constraint (seen @ [t]) (tag_digest t) w"
proof (rule best_so_far_snoc [of t, OF _ rel])
  fix u x
  assume u: "u \<in> set (seen @ [t])" and x: "tag_release sv pre depth constraint u x"
  have valid: "sv_is_valid sv y" if "tag_release sv pre depth constraint u' y" for u' y
    using that by (simp add: tag_release_def)
  show "sv_compare sv x w \<le> 0"
  proof (cases "u \<in> set seen")
    case True
    then have "v \<noteq> []" using best x tag_release_nonempty unfolding best_so_far_def by blast
    with best True x obtain u' where u': "tag_release sv pre depth constraint u' v" "sv_compare sv x v \<le> 0"
      unfolding best_so_far_def by blast
    have "sv_compare sv v w \<le> 0"
      using order better \<open>v \<noteq> []\<close> valid [OF rel] valid [OF u'(1)] by (simp add: semver_order_def)
    with u'(2) show ?thesis
      using order valid [OF x] valid [OF u'(1)] valid [OF rel] unfolding semver_order_def by blast
  next
    case False
    with u have "u = t" by simp
    with x tag_release_fun [OF rel] have "x = w" by simp
    then show ?thesis using order valid [OF rel] by (simp add: semver_order_def)
  qed
qed simp

lemma best_so_far_keep:
  assumes best: "best_so_far sv pre depth constraint seen d v"
    and rel: "tag_release sv pre depth constraint t w" and keep: "v \<noteq> []" "\<not> sv_compare sv w v > 0"
  shows "best_so_far sv pre depth constraint (seen @ [t]) d v"
proof -
  obtain u where u: "u \<in> set seen" "tag_digest u = d" "tag_release sv pre depth constraint u v"
    and high: "\<And>t' x. t' \<in> set seen \<Longrightarrow> tag_release sv pre depth constraint t' x \<Longrightarrow> sv_compare sv x v \<le> 0"
    using best keep(1) unfolding best_so_far_def by blast
  have "sv_compare sv x v \<le> 0" if "t' \<in> set (seen @ [t])" "tag_release sv pre depth constraint t' x" for t' x
    using that high keep(2) tag_release_fun [OF rel] by (cases "t' \<in> set seen") auto
  with u show ?thesis using best_so_far_snoc [of u seen t] by auto
qed

lemma best_so_far_step:
  assumes "semver_order sv" and "best_so_far sv pre depth constraint seen d v"
    and "tag_release sv pre depth constraint t w"
  shows "best_so_far sv pre depth constraint (seen @ [t])
     (if v = [] \<or> sv_compare sv w v > 0 then tag_digest t else d)
     (if v = [] \<or> sv_compare sv w v > 0 then w else v)"
  using best_so_far_replace [OF assms] best_so_far_keep [OF assms(2,3)] by simp

lemma best_match_loop_inv:
  assumes "semver_order sv" and "best_so_far sv pre depth constraint seen d v"
  shows "\<exists>v'. best_so_far sv pre depth constraint (seen @ tags)
           (best_match_loop sv pre depth constraint tags (d, v)) v'"
  using assms(2)
proof (induction tags arbitrary: seen d v)
  case (Cons t tags)
  show ?case
  proof (cases "\<exists>w. tag_release sv pre depth constraint t w")
    case False
    then have "best_match_loop sv pre depth constraint (t # tags) (d, v) =
        best_match_loop sv pre depth constraint tags (d, v)"
      unfolding tag_release_iff by (auto simp: Let_def split: option.split)
    with Cons.IH [OF best_so_far_skip [OF Cons.prems]] False show ?thesis by simp
  next
    case True
    then obtain w where w: "tag_release sv pre depth constraint t w" ..
    define better where "better \<longleftrightarrow> v = [] \<or> sv_compare sv w v > 0"
    have "best_match_loop sv pre depth constraint (t # tags) (d, v) =
        best_match_loop sv pre depth constraint tags (if better then tag_digest t else d, if better then w else v)"
      using w unfolding tag_release_iff better_def by (auto simp: Let_def)
    with Cons.IH [OF best_so_far_step [OF assms(1) Cons.prems w]] show ?thesis
      by (simp add: better_def)
  qed
qed auto

lemma best_match_cases:
  assumes "semver_order sv" and "\<forall>t \<in> set tags. tag_digest t \<noteq> []"
  shows "(best_match sv tags pre depth constraint = [] \<and>
       (\<forall>t \<in> set tags. \<forall>v. \<not> tag_release sv pre depth constraint t v)) \<or>
     (best_match sv tags pre depth constraint \<noteq> [] \<and>
       is_highest sv tags pre depth constraint (best_match sv tags pre depth constraint))"
proof -
  have "best_so_far sv pre depth constraint [] [] []" by (simp add: best_so_far_def)
  from best_match_loop_inv [OF assms(1) this, of tags]
  obtain v' where "best_so_far sv pre depth constraint tags (best_match sv tags pre depth constraint) v'"
    by (auto simp: best_match_def)
  with assms(2) show ?thesis unfolding best_so_far_def is_highest_def by metis
qed

lemma list_tags_cached_get:
  "list_tags cache_ttl r t1 t2 flight t3 =
     cached_get (fresh (tags_ttl cache_ttl)) stamp (Call r t1 t2 flight t3)"
  unfolding list_tags_def cached_get_def fresh_def stamp_def Let_def call.sel ..

interpretation tags: expiring_cache "[]" "fresh (tags_ttl ttl)" stamp "within (tags_ttl ttl)" for ttl
  by unfold_locales (simp_all add: fresh_empty fresh_stamp)

section \<open>A semver library for plain versions\<close>

text \<open>
  An implementation of the documented functions on versions \<open>vMAJOR[.MINOR[.PATCH]]\<close>, to instantiate
  the parameter: versions are compared through a linear order on their three numbers.
\<close>

datatype release = Release (rel_major: nat) (rel_minor: nat) (rel_patch: nat)

instantiation release :: linorder
begin

definition less_eq_release :: "release \<Rightarrow> release \<Rightarrow> bool" where
  "less_eq_release r s \<longleftrightarrow> rel_major r < rel_major s \<or> (rel_major r = rel_major s \<and>
     (rel_minor r < rel_minor s \<or> (rel_minor r = rel_minor s \<and> rel_patch r \<le> rel_patch s)))"

definition less_release :: "release \<Rightarrow> release \<Rightarrow> bool" where
  "less_release r s \<longleftrightarrow> r \<le> s \<and> \<not> s \<le> (r :: release)"

instance
  by standard (auto simp: less_eq_release_def less_release_def intro: release.expand)

end

fun parse_digits :: "nat \<Rightarrow> string \<Rightarrow> nat" where
  "parse_digits n [] = n"
| "parse_digits n (c # cs) = parse_digits (10 * n + (of_char c - 48)) cs"

fun split_dots :: "string \<Rightarrow> string list" where
  "split_dots [] = [[]]"
| "split_dots (c # cs) =
     (if c = CHR ''.'' then [] # split_dots cs
      else case split_dots cs of [] \<Rightarrow> [[c]] | w # ws \<Rightarrow> (c # w) # ws)"

definition plain_parts :: "string \<Rightarrow> string list" where
  "plain_parts v = split_dots (trim_prefix v ''v'')"

definition plain_release :: "string \<Rightarrow> release" where
  "plain_release v =
     (case map (parse_digits 0) (plain_parts v) of
        [a] \<Rightarrow> Release a 0 0 | [a, b] \<Rightarrow> Release a b 0 | [a, b, c] \<Rightarrow> Release a b c | _ \<Rightarrow> Release 0 0 0)"

definition plain_semver :: semver_lib where
  "plain_semver =
     \<lparr>sv_is_valid = (\<lambda>v. has_prefix v ''v'' \<and> length (plain_parts v) \<le> 3 \<and>
        list_all (\<lambda>p. p \<noteq> [] \<and> list_all is_digit p) (plain_parts v)),
      sv_canonical = (\<lambda>v. v @ concat (replicate (3 - length (plain_parts v)) ''.0'')),
      sv_major = (\<lambda>v. CHR ''v'' # hd (plain_parts v)),
      sv_major_minor = (\<lambda>v. CHR ''v'' # hd (plain_parts v) @ CHR ''.'' #
        (case tl (plain_parts v) of [] \<Rightarrow> ''0'' | m # _ \<Rightarrow> m)),
      sv_prerelease = (\<lambda>v. []),
      sv_compare = (\<lambda>u v. if plain_release u < plain_release v then -1
        else if plain_release v < plain_release u then 1 else 0)\<rparr>"

lemma plain_semver_order: "semver_order plain_semver"
  by (auto simp: semver_order_def plain_semver_def)

section \<open>Properties\<close>

text \<open>C18: a version constraint resolves to the digest of a highest satisfying release among the bare
  tags, or, only when no bare tag satisfies it, among the image's own prefixed tags; prerelease and
  non-semver tags never count, and an error means that no tag of either kind satisfies it. A prefixed
  tag never overrides a bare one, whatever their version numbers.\<close>

theorem resolve_version:
  assumes "semver_order sv" and "\<forall>t \<in> set tags. tag_digest t \<noteq> []"
    and "sv_is_valid sv (canonical_semver version)"
    and "depth = constraint_depth version" and "con = resolve_constraint sv version"
  shows "(case resolve sv tags [] version image_name of
      Inr d \<Rightarrow> is_highest sv tags [] depth con d \<or>
        ((\<forall>t \<in> set tags. \<forall>v. \<not> tag_release sv [] depth con t v) \<and>
         is_highest sv tags (image_name @ ''-'') depth con d)
    | Inl e \<Rightarrow> e = NoTagSatisfies version \<and>
        (\<forall>t \<in> set tags. \<forall>v. \<not> tag_release sv [] depth con t v \<and> \<not> tag_release sv (image_name @ ''-'') depth con t v))"
proof -
  define bare where "bare = best_match sv tags [] depth con"
  define prefixed where "prefixed = best_match sv tags (image_name @ ''-'') depth con"
  have res: "resolve sv tags [] version image_name =
      (if bare \<noteq> [] then Inr bare else if prefixed \<noteq> [] then Inr prefixed else Inl (NoTagSatisfies version))"
    using assms(3) by (simp add: resolve_def bare_def prefixed_def assms(4,5) Let_def)
  note b = best_match_cases [OF assms(1,2), of "[]" depth con, folded bare_def]
  note p = best_match_cases [OF assms(1,2), of "image_name @ ''-''" depth con, folded prefixed_def]
  show ?thesis
    unfolding res using b p by (cases "bare = []"; cases "prefixed = []") auto
qed

text \<open>The service's own tag is numbered higher but the bare release wins.\<close>

definition example_tags :: "tag list" where
  "example_tags = [\<lparr>tag_name = ''latest'', tag_digest = ''d0''\<rparr>, \<lparr>tag_name = ''1.9.0'', tag_digest = ''d1''\<rparr>,
     \<lparr>tag_name = ''v1.10.2'', tag_digest = ''d2''\<rparr>, \<lparr>tag_name = ''web-1.99.0'', tag_digest = ''d3''\<rparr>]"

theorem resolve_version_witness:
  "resolve plain_semver example_tags [] ''1'' ''web'' = Inr ''d2'' \<and>
   is_highest plain_semver example_tags [] 0 ''v1'' ''d2''"
proof -
  have run: "resolve plain_semver example_tags [] ''1'' ''web'' = Inr ''d2''"
    by (simp add: resolve_def example_tags_def plain_semver_def canonical_semver_def constraint_depth_def
        resolve_constraint_def best_match_def semver_level_def plain_parts_def plain_release_def trim_prefix_def
        has_prefix_def cut_prefix_def is_digit_def less_eq_char_def less_release_def less_eq_release_def)
  have facts: "constraint_depth ''1'' = 0" "resolve_constraint plain_semver ''1'' = ''v1''"
      "sv_is_valid plain_semver (canonical_semver ''1'')" "\<forall>t \<in> set example_tags. tag_digest t \<noteq> []"
    by (simp_all add: constraint_depth_def resolve_constraint_def canonical_semver_def has_prefix_def
        trim_prefix_def plain_semver_def plain_parts_def is_digit_def less_eq_char_def example_tags_def)
  have some: "tag_release plain_semver [] 0 ''v1'' \<lparr>tag_name = ''1.9.0'', tag_digest = ''d1''\<rparr> ''v1.9.0''"
    by (simp add: tag_release_def plain_semver_def canonical_semver_def semver_level_def plain_parts_def
        trim_prefix_def has_prefix_def is_digit_def less_eq_char_def)
  have mem: "\<lparr>tag_name = ''1.9.0'', tag_digest = ''d1''\<rparr> \<in> set example_tags" by (simp add: example_tags_def)
  show ?thesis
    using resolve_version [OF plain_semver_order facts(4,3) facts(1,2) [symmetric], of "''web''"] run some mem
    unfolding run sum.case by blast
qed

text \<open>Listing an image's tags returns exactly the tags of the images in its repository whose
  reference is \<open>HOST/PROJECT/REPO/IMAGE@DIGEST\<close> for this project, repository and image, each with that
  image's digest; tags of sibling images in the same repository never appear.\<close>

theorem list_tags_uncached_exact:
  assumes "list_tags_uncached list_images r = Inr tags"
  shows "\<exists>location project repo im imgs.
     r = location @ ''-docker.pkg.dev/'' @ project @ CHR ''/'' # repo @ CHR ''/'' # im \<and>
     list_images (''projects/'' @ project @ ''/locations/'' @ location @ ''/repositories/'' @ repo) = (imgs, None) \<and>
     set tags = {\<lparr>tag_name = n, tag_digest = d\<rparr> |n d. \<exists>img host. img \<in> set imgs \<and> n \<in> set (di_tags img) \<and>
        di_uri img = host @ CHR ''/'' # project @ CHR ''/'' # repo @ CHR ''/'' # im @ CHR ''@'' # d \<and>
        CHR ''/'' \<notin> set host \<and> CHR ''@'' \<notin> set d}"
proof -
  obtain location project repo im where m: "match_repository r = Some (location, project, repo, im)"
    using assms by (auto simp: list_tags_uncached_def parse_repository_def split: option.splits)
  let ?parent = "''projects/'' @ project @ ''/locations/'' @ location @ ''/repositories/'' @ repo"
  let ?want = "project @ CHR ''/'' # repo @ CHR ''/'' # im"
  obtain imgs where imgs: "list_images ?parent = (imgs, None)" "tags = collect_tags ?want imgs []"
    using assms m by (auto simp: list_tags_uncached_def parse_repository_def split: prod.splits option.splits)
  have "set tags = {\<lparr>tag_name = n, tag_digest = d\<rparr> |n d. \<exists>img host. img \<in> set imgs \<and> n \<in> set (di_tags img) \<and>
        di_uri img = host @ CHR ''/'' # ?want @ CHR ''@'' # d \<and> CHR ''/'' \<notin> set host \<and> CHR ''@'' \<notin> set d}"
    unfolding imgs(2) set_collect_tags split_digest_iff by auto
  with imgs(1) m [unfolded match_repository_iff] show ?thesis
    by (intro exI [of _ location] exI [of _ project] exI [of _ repo] exI [of _ im] exI [of _ imgs]) simp
qed

theorem list_tags_uncached_exact_witness:
  "list_tags_uncached (\<lambda>_. ([\<lparr>di_uri = ''us-docker.pkg.dev/p/r/web@sha256:1'', di_tags = [''v1'']\<rparr>,
      \<lparr>di_uri = ''us-docker.pkg.dev/p/r/other@sha256:2'', di_tags = [''v2'']\<rparr>], None)) ''us-docker.pkg.dev/p/r/web'' =
     Inr [\<lparr>tag_name = ''v1'', tag_digest = ''sha256:1''\<rparr>] \<and>
   (\<exists>location. ''us-docker.pkg.dev/p/r/web'' = location @ ''-docker.pkg.dev/p/r/web'')"
proof -
  let ?list = "\<lambda>_ :: string. ([\<lparr>di_uri = ''us-docker.pkg.dev/p/r/web@sha256:1'', di_tags = [''v1'']\<rparr>,
      \<lparr>di_uri = ''us-docker.pkg.dev/p/r/other@sha256:2'', di_tags = [''v2'']\<rparr>], None :: string option)"
  have m: "match_repository ''us-docker.pkg.dev/p/r/web'' = Some (''us'', ''p'', ''r'', ''web'')"
    by (simp add: match_repository_iff is_location_char_def is_digit_def less_eq_char_def)
  have run: "list_tags_uncached ?list ''us-docker.pkg.dev/p/r/web'' =
      Inr [\<lparr>tag_name = ''v1'', tag_digest = ''sha256:1''\<rparr>]"
    by (simp add: list_tags_uncached_def parse_repository_def m split_digest_def last_index_def first_index_def)
  have "\<exists>location. ''us-docker.pkg.dev/p/r/web'' = location @ ''-docker.pkg.dev/p/r/web''"
    by (rule exI [of _ "''us''"]) simp
  with run list_tags_uncached_exact [OF run] show ?thesis by blast
qed

end
