(* ===== verification/Cloudrun.thy ===== *)
theory Cloudrun
  imports Manifest Registry
begin

text \<open>
  The Cloud Run client (\<open>internal/cloudrun\<close>): the state the diff and health assessments read, image
  references, the container environment, and the read and deploy calls over the Admin API. The API is
  an argument, a record of functions on a world \<open>'w\<close>; the tags of a repository come through
  \<open>api_list_tags\<close>, the lister the registry client provides. A nil protobuf message reads as its
  default, so an absent template has no containers.
\<close>

section \<open>State\<close>

type_synonym secret_source = "string \<times> string"

record service_state =
  st_digest :: string
  st_percent :: "int option"
  st_env :: "(string \<times> string) list option"
  st_secrets :: "(string \<times> secret_source) list option"

record live_service =
  ls_state :: service_state
  ls_has_revision :: bool
  ls_ready :: bool
  ls_creating :: bool

datatype execution_status = ExecNone | ExecutionRunning | ExecutionSucceeded | ExecutionFailed

record live_job =
  lj_state :: service_state
  lj_has_execution :: bool
  lj_status :: execution_status

text \<open>The fields of the API's messages that the client reads or writes.\<close>

datatype env_value = EnvValue string | EnvSecret string string | EnvOtherSource | EnvUnset

record env_var =
  ev_name :: string
  ev_value :: env_value

record container =
  ct_image :: string
  ct_env :: "env_var list"

datatype target_type = TargetUnspecified | TargetLatest | TargetRevision

record traffic_target =
  tt_type :: target_type
  tt_percent :: int

datatype cond_state = CondUnspecified | CondPending | CondReconciling | CondSucceeded | CondFailed

record service_msg =
  sm_name :: string
  sm_containers :: "container list"
  sm_traffic :: "traffic_target list"
  sm_condition :: "cond_state option"
  sm_reconciling :: bool

record worker_pool_msg =
  wm_name :: string
  wm_containers :: "container list"
  wm_condition :: "cond_state option"
  wm_reconciling :: bool

record job_msg =
  jm_name :: string
  jm_containers :: "container list"
  jm_latest_execution :: "string option"

record execution_msg =
  xm_containers :: "container list"
  xm_completed :: bool
  xm_failed :: int
  xm_cancelled :: int

datatype api_error = ApiNotFound string | ApiError string

datatype client_kind = ServicesClient | WorkerPoolsClient | JobsClient | ExecutionsClient | RegistryClient

datatype cloudrun_error =
    NotProvisioned
  | CreateClient client_kind string string
  | GetServiceFailed string api_error
  | GetWorkerPoolFailed string api_error
  | GetJobFailed string api_error
  | GetExecutionFailed string api_error
  | ListServicesFailed string string
  | NoContainers string
  | UnsupportedPercent string int
  | UpdateServiceFailed string string
  | UpdateWorkerPoolFailed string string
  | UpdateJobFailed string string
  | ListTagsFailed string registry_error
  | NoTagFound string string
  | ResolveTagClient string cloudrun_error
  | ResolveLive string cloudrun_error

definition is_not_provisioned :: "cloudrun_error \<Rightarrow> bool" where
  "is_not_provisioned e \<longleftrightarrow> e = NotProvisioned"

text \<open>The Admin API, and the construction of its regional clients.\<close>

record 'w run_api =
  api_dial :: "client_kind \<Rightarrow> string \<Rightarrow> string option"
  api_get_service :: "'w \<Rightarrow> string \<Rightarrow> api_error + service_msg"
  api_get_worker_pool :: "'w \<Rightarrow> string \<Rightarrow> api_error + worker_pool_msg"
  api_get_job :: "'w \<Rightarrow> string \<Rightarrow> api_error + job_msg"
  api_get_execution :: "'w \<Rightarrow> string \<Rightarrow> api_error + execution_msg"
  api_list_services :: "'w \<Rightarrow> string \<Rightarrow> string list \<times> string option"
  api_list_tags :: "'w \<Rightarrow> string \<Rightarrow> registry_error + tag list"
  api_update_service :: "'w \<Rightarrow> service_msg \<Rightarrow> string option \<times> 'w"
  api_update_worker_pool :: "'w \<Rightarrow> worker_pool_msg \<Rightarrow> string option \<times> 'w"
  api_update_job :: "'w \<Rightarrow> job_msg \<Rightarrow> string option \<times> 'w"

section \<open>Regional clients\<close>

text \<open>The regions a client has been created for; construction happens at most once per region.\<close>

record gcp_client =
  gc_services :: "string list"
  gc_worker_pools :: "string list"
  gc_jobs :: "string list"
  gc_executions :: "string list"
  gc_registry :: bool

definition new_gcp_client :: gcp_client where
  "new_gcp_client = \<lparr>gc_services = [], gc_worker_pools = [], gc_jobs = [], gc_executions = [], gc_registry = False\<rparr>"

text \<open>Clients are dialled per region; the registry client is dialled without an endpoint.\<close>

definition regional_endpoint :: "string \<Rightarrow> string" where
  "regional_endpoint region = region @ ''-run.googleapis.com:443''"

definition services_client :: "'w run_api \<Rightarrow> string \<Rightarrow> gcp_client \<Rightarrow> cloudrun_error option \<times> gcp_client" where
  "services_client api region c =
     (if region \<in> set (gc_services c) then (None, c)
      else case api_dial api ServicesClient (regional_endpoint region) of
        Some e \<Rightarrow> (Some (CreateClient ServicesClient region e), c)
      | None \<Rightarrow> (None, c\<lparr>gc_services := region # gc_services c\<rparr>))"

definition worker_pools_client :: "'w run_api \<Rightarrow> string \<Rightarrow> gcp_client \<Rightarrow> cloudrun_error option \<times> gcp_client" where
  "worker_pools_client api region c =
     (if region \<in> set (gc_worker_pools c) then (None, c)
      else case api_dial api WorkerPoolsClient (regional_endpoint region) of
        Some e \<Rightarrow> (Some (CreateClient WorkerPoolsClient region e), c)
      | None \<Rightarrow> (None, c\<lparr>gc_worker_pools := region # gc_worker_pools c\<rparr>))"

definition jobs_client :: "'w run_api \<Rightarrow> string \<Rightarrow> gcp_client \<Rightarrow> cloudrun_error option \<times> gcp_client" where
  "jobs_client api region c =
     (if region \<in> set (gc_jobs c) then (None, c)
      else case api_dial api JobsClient (regional_endpoint region) of
        Some e \<Rightarrow> (Some (CreateClient JobsClient region e), c)
      | None \<Rightarrow> (None, c\<lparr>gc_jobs := region # gc_jobs c\<rparr>))"

definition executions_client :: "'w run_api \<Rightarrow> string \<Rightarrow> gcp_client \<Rightarrow> cloudrun_error option \<times> gcp_client" where
  "executions_client api region c =
     (if region \<in> set (gc_executions c) then (None, c)
      else case api_dial api ExecutionsClient (regional_endpoint region) of
        Some e \<Rightarrow> (Some (CreateClient ExecutionsClient region e), c)
      | None \<Rightarrow> (None, c\<lparr>gc_executions := region # gc_executions c\<rparr>))"

definition registry_client_or_init :: "'w run_api \<Rightarrow> gcp_client \<Rightarrow> cloudrun_error option \<times> gcp_client" where
  "registry_client_or_init api c =
     (if gc_registry c then (None, c)
      else case api_dial api RegistryClient [] of
        Some e \<Rightarrow> (Some (CreateClient RegistryClient [] e), c)
      | None \<Rightarrow> (None, c\<lparr>gc_registry := True\<rparr>))"

section \<open>Names and image references\<close>

definition service_name :: "string \<Rightarrow> string \<Rightarrow> string \<Rightarrow> string" where
  "service_name project region name = ''projects/'' @ project @ ''/locations/'' @ region @ ''/services/'' @ name"

definition worker_pool_name :: "string \<Rightarrow> string \<Rightarrow> string \<Rightarrow> string" where
  "worker_pool_name project region name = ''projects/'' @ project @ ''/locations/'' @ region @ ''/workerPools/'' @ name"

definition job_name :: "string \<Rightarrow> string \<Rightarrow> string \<Rightarrow> string" where
  "job_name project region name = ''projects/'' @ project @ ''/locations/'' @ region @ ''/jobs/'' @ name"

definition last_path_segment :: "string \<Rightarrow> string" where
  "last_path_segment full =
     (let i = last_index (CHR ''/'') full in if i < 0 then full else drop (nat (i + 1)) full)"

definition container_image :: "container list \<Rightarrow> string" where
  "container_image cs = (case cs of [] \<Rightarrow> [] | c # _ \<Rightarrow> ct_image c)"

definition digest_suffix :: "string \<Rightarrow> string" where
  "digest_suffix image_ref =
     (let i = last_index (CHR ''@'') image_ref in if i \<ge> 0 then drop (nat (i + 1)) image_ref else image_ref)"

definition is_digest :: "string \<Rightarrow> bool" where
  "is_digest s \<longleftrightarrow> has_prefix s ''sha256:'' \<and> length s = length ''sha256:'' + 64"

definition split_image_ref :: "string \<Rightarrow> string \<times> string" where
  "split_image_ref image_ref =
     (let slash = last_index (CHR ''/'') image_ref; colon = last_index (CHR '':'') image_ref in
      if colon > slash then (take (nat colon) image_ref, drop (nat (colon + 1)) image_ref)
      else (image_ref, ''latest''))"

definition resolve_tag :: "(string \<Rightarrow> registry_error + tag list) \<Rightarrow> string \<Rightarrow> cloudrun_error + string" where
  "resolve_tag lister image_ref =
     (let (repo, name) = split_image_ref image_ref in
      case lister repo of
        Inl e \<Rightarrow> Inl (ListTagsFailed repo e)
      | Inr tags \<Rightarrow> (case find_tag tags name of Some d \<Rightarrow> Inr d | None \<Rightarrow> Inl (NoTagFound name repo)))"

definition resolve_image_digest ::
  "'w run_api \<Rightarrow> 'w \<Rightarrow> string \<Rightarrow> gcp_client \<Rightarrow> (cloudrun_error + string) \<times> gcp_client" where
  "resolve_image_digest api w image_ref c =
     (if image_ref = [] then (Inr [], c)
      else let suffix = digest_suffix image_ref in
        if suffix \<noteq> image_ref \<or> is_digest suffix then (Inr suffix, c)
        else case registry_client_or_init api c of
          (Some e, c') \<Rightarrow> (Inl (ResolveTagClient image_ref e), c')
        | (None, c') \<Rightarrow> (resolve_tag (api_list_tags api w) image_ref, c'))"

definition with_digest :: "string \<Rightarrow> string \<Rightarrow> string" where
  "with_digest existing digest =
     (let i = last_index (CHR ''@'') existing in
      if i \<ge> 0 then take (nat i) existing @ CHR ''@'' # digest
      else fst (split_image_ref existing) @ CHR ''@'' # digest)"

section \<open>Reading live state\<close>

definition latest_revision_percent :: "traffic_target list \<Rightarrow> int" where
  "latest_revision_percent ts = sum_list (map tt_percent (filter (\<lambda>t. tt_type t = TargetLatest) ts))"

text \<open>(ready, creating)\<close>

definition condition_state :: "cond_state option \<Rightarrow> bool \<Rightarrow> bool \<times> bool" where
  "condition_state cond reconciling =
     (if reconciling then (False, True)
      else case (case cond of None \<Rightarrow> CondUnspecified | Some s \<Rightarrow> s) of
        CondSucceeded \<Rightarrow> (True, False)
      | CondReconciling \<Rightarrow> (False, True)
      | CondPending \<Rightarrow> (False, True)
      | _ \<Rightarrow> (False, False))"

definition execution_status :: "execution_msg \<Rightarrow> execution_status" where
  "execution_status x =
     (if \<not> xm_completed x then ExecutionRunning
      else if xm_failed x > 0 \<or> xm_cancelled x > 0 then ExecutionFailed
      else ExecutionSucceeded)"

fun env_state_loop ::
  "env_var list \<Rightarrow> (string \<times> string) list option \<Rightarrow> (string \<times> secret_source) list option \<Rightarrow>
     (string \<times> string) list option \<times> (string \<times> secret_source) list option" where
  "env_state_loop [] vars secrets = (vars, secrets)"
| "env_state_loop (e # es) vars secrets =
     (case ev_value e of
        EnvSecret s v \<Rightarrow>
          env_state_loop es vars (Some (put (ev_name e) (s, v) (case secrets of None \<Rightarrow> [] | Some m \<Rightarrow> m)))
      | _ \<Rightarrow>
          let value = (case ev_value e of EnvValue v \<Rightarrow> v | _ \<Rightarrow> []) in
          env_state_loop es (Some (put (ev_name e) value (case vars of None \<Rightarrow> [] | Some m \<Rightarrow> m))) secrets)"

definition env_state :: "container list \<Rightarrow> (string \<times> string) list option \<times> (string \<times> secret_source) list option" where
  "env_state cs = (case cs of [] \<Rightarrow> (None, None) | c # _ \<Rightarrow>
     if ct_env c = [] then (None, None) else env_state_loop (ct_env c) None None)"

text \<open>Ranging over a nil map is ranging over an empty one; the sort is by name.\<close>

definition build_env_vars ::
  "(string \<times> string) list option \<Rightarrow> (string \<times> secret_source) list option \<Rightarrow> env_var list" where
  "build_env_vars vars secrets =
     sort_key ev_name
       (map (\<lambda>(n, v). \<lparr>ev_name = n, ev_value = EnvValue v\<rparr>) (case vars of None \<Rightarrow> [] | Some m \<Rightarrow> m) @
        map (\<lambda>(n, s, v). \<lparr>ev_name = n, ev_value = EnvSecret s v\<rparr>) (case secrets of None \<Rightarrow> [] | Some m \<Rightarrow> m))"

definition live_service_from_service ::
  "'w run_api \<Rightarrow> 'w \<Rightarrow> service_msg \<Rightarrow> string \<Rightarrow> gcp_client \<Rightarrow> (cloudrun_error + live_service) \<times> gcp_client" where
  "live_service_from_service api w svc desired_digest c =
     (case resolve_image_digest api w (container_image (sm_containers svc)) c of
        (Inl e, c') \<Rightarrow> (Inl (ResolveLive (sm_name svc) e), c')
      | (Inr digest, c') \<Rightarrow>
          let (ready, creating) = condition_state (sm_condition svc) (sm_reconciling svc);
              (vars, secrets) = env_state (sm_containers svc)
          in (Inr \<lparr>ls_state = \<lparr>st_digest = digest, st_percent = Some (latest_revision_percent (sm_traffic svc)),
                     st_env = vars, st_secrets = secrets\<rparr>,
                   ls_has_revision = (desired_digest = [] \<or> digest = desired_digest),
                   ls_ready = ready, ls_creating = creating\<rparr>, c'))"

definition live_service_from_worker_pool ::
  "'w run_api \<Rightarrow> 'w \<Rightarrow> worker_pool_msg \<Rightarrow> string \<Rightarrow> gcp_client \<Rightarrow> (cloudrun_error + live_service) \<times> gcp_client" where
  "live_service_from_worker_pool api w wp desired_digest c =
     (case resolve_image_digest api w (container_image (wm_containers wp)) c of
        (Inl e, c') \<Rightarrow> (Inl (ResolveLive (wm_name wp) e), c')
      | (Inr digest, c') \<Rightarrow>
          let (ready, creating) = condition_state (wm_condition wp) (wm_reconciling wp);
              (vars, secrets) = env_state (wm_containers wp)
          in (Inr \<lparr>ls_state = \<lparr>st_digest = digest, st_percent = None, st_env = vars, st_secrets = secrets\<rparr>,
                   ls_has_revision = (desired_digest = [] \<or> digest = desired_digest),
                   ls_ready = ready, ls_creating = creating\<rparr>, c'))"

definition get_service ::
  "'w run_api \<Rightarrow> 'w \<Rightarrow> string \<Rightarrow> string \<Rightarrow> string \<Rightarrow> string \<Rightarrow> gcp_client \<Rightarrow>
     (cloudrun_error + live_service) \<times> gcp_client" where
  "get_service api w project region name desired_digest c =
     (case services_client api region c of
        (Some e, c1) \<Rightarrow> (Inl e, c1)
      | (None, c1) \<Rightarrow>
         (case api_get_service api w (service_name project region name) of
            Inr svc \<Rightarrow> live_service_from_service api w svc desired_digest c1
          | Inl (ApiError e) \<Rightarrow> (Inl (GetServiceFailed name (ApiError e)), c1)
          | Inl (ApiNotFound _) \<Rightarrow>
             (case worker_pools_client api region c1 of
                (Some e, c2) \<Rightarrow> (Inl e, c2)
              | (None, c2) \<Rightarrow>
                 (case api_get_worker_pool api w (worker_pool_name project region name) of
                    Inl (ApiNotFound _) \<Rightarrow> (Inl NotProvisioned, c2)
                  | Inl (ApiError e) \<Rightarrow> (Inl (GetWorkerPoolFailed name (ApiError e)), c2)
                  | Inr wp \<Rightarrow> live_service_from_worker_pool api w wp desired_digest c2))))"

definition list_service_names ::
  "'w run_api \<Rightarrow> 'w \<Rightarrow> string \<Rightarrow> string \<Rightarrow> gcp_client \<Rightarrow> (cloudrun_error + string list) \<times> gcp_client" where
  "list_service_names api w project region c =
     (case services_client api region c of
        (Some e, c1) \<Rightarrow> (Inl e, c1)
      | (None, c1) \<Rightarrow>
          let parent = ''projects/'' @ project @ ''/locations/'' @ region in
          (case api_list_services api w parent of
             (names, Some e) \<Rightarrow> (Inl (ListServicesFailed parent e), c1)
           | (names, None) \<Rightarrow> (Inr (map last_path_segment names), c1)))"

definition fetch_job :: "'w run_api \<Rightarrow> 'w \<Rightarrow> string \<Rightarrow> string \<Rightarrow> string \<Rightarrow> cloudrun_error + job_msg" where
  "fetch_job api w project region name =
     (case api_get_job api w (job_name project region name) of
        Inl (ApiNotFound _) \<Rightarrow> Inl NotProvisioned
      | Inl (ApiError e) \<Rightarrow> Inl (GetJobFailed name (ApiError e))
      | Inr job \<Rightarrow> Inr job)"

definition get_execution ::
  "'w run_api \<Rightarrow> 'w \<Rightarrow> string \<Rightarrow> string \<Rightarrow> string \<Rightarrow> string \<Rightarrow> gcp_client \<Rightarrow>
     (cloudrun_error + execution_msg) \<times> gcp_client" where
  "get_execution api w project region job ref c =
     (case executions_client api region c of
        (Some e, c1) \<Rightarrow> (Inl e, c1)
      | (None, c1) \<Rightarrow>
          let name = job_name project region job @ ''/executions/'' @ ref in
          (case api_get_execution api w name of
             Inl e \<Rightarrow> (Inl (GetExecutionFailed name e), c1)
           | Inr x \<Rightarrow> (Inr x, c1)))"

definition get_job ::
  "'w run_api \<Rightarrow> 'w \<Rightarrow> string \<Rightarrow> string \<Rightarrow> string \<Rightarrow> string \<Rightarrow> gcp_client \<Rightarrow>
     (cloudrun_error + live_job) \<times> gcp_client" where
  "get_job api w project region name desired_digest c =
     (case jobs_client api region c of
        (Some e, c1) \<Rightarrow> (Inl e, c1)
      | (None, c1) \<Rightarrow>
         (case fetch_job api w project region name of
            Inl e \<Rightarrow> (Inl e, c1)
          | Inr job \<Rightarrow>
             (case resolve_image_digest api w (container_image (jm_containers job)) c1 of
                (Inl e, c2) \<Rightarrow> (Inl (ResolveLive name e), c2)
              | (Inr digest, c2) \<Rightarrow>
                  let live = \<lparr>lj_state = \<lparr>st_digest = digest, st_percent = None, st_env = None, st_secrets = None\<rparr>,
                              lj_has_execution = False, lj_status = ExecNone\<rparr> in
                  (case jm_latest_execution job of
                     None \<Rightarrow> (Inr live, c2)
                   | Some ref \<Rightarrow>
                      if ref = [] then (Inr live, c2)
                      else (case get_execution api w project region name ref c2 of
                          (Inl _, c3) \<Rightarrow> (Inr live, c3)
                        | (Inr x, c3) \<Rightarrow>
                           (case resolve_image_digest api w (container_image (xm_containers x)) c3 of
                              (Inl _, c4) \<Rightarrow> (Inr live, c4)
                            | (Inr exec_digest, c4) \<Rightarrow>
                                (Inr (live\<lparr>lj_has_execution := desired_digest = [] \<or> exec_digest = desired_digest,
                                           lj_status := execution_status x\<rparr>), c4)))))))"

section \<open>Deploying\<close>

definition validated_percent :: "int \<Rightarrow> int option" where
  "validated_percent p = (if p \<noteq> 100 then None else Some p)"

definition manages_env :: "service_state \<Rightarrow> bool" where
  "manages_env desired \<longleftrightarrow> st_env desired \<noteq> None \<or> st_secrets desired \<noteq> None"

text \<open>The first container's image and, when managed, its environment; the others stay.\<close>

definition update_containers :: "service_state \<Rightarrow> container list \<Rightarrow> container list" where
  "update_containers desired cs =
     (case cs of [] \<Rightarrow> []
      | c # rest \<Rightarrow>
          let c = c\<lparr>ct_image := with_digest (ct_image c) (st_digest desired)\<rparr>;
              c = (if manages_env desired
                   then c\<lparr>ct_env := build_env_vars (st_env desired) (st_secrets desired)\<rparr> else c)
          in c # rest)"

definition deploy_worker_pool ::
  "'w run_api \<Rightarrow> string \<Rightarrow> string \<Rightarrow> string \<Rightarrow> service_state \<Rightarrow> gcp_client \<times> 'w \<Rightarrow> cloudrun_error option \<times> gcp_client \<times> 'w" where
  "deploy_worker_pool api project region name desired = (\<lambda>(c, w).
     case worker_pools_client api region c of
       (Some e, c1) \<Rightarrow> (Some e, c1, w)
     | (None, c1) \<Rightarrow>
        (case api_get_worker_pool api w (worker_pool_name project region name) of
           Inl (ApiNotFound _) \<Rightarrow> (Some NotProvisioned, c1, w)
         | Inl (ApiError e) \<Rightarrow> (Some (GetWorkerPoolFailed name (ApiError e)), c1, w)
         | Inr wp \<Rightarrow>
             if wm_containers wp = [] then (Some (NoContainers name), c1, w)
             else let wp' = wp\<lparr>wm_containers := update_containers desired (wm_containers wp)\<rparr>;
                      (err, w') = api_update_worker_pool api w wp'
                  in (map_option (UpdateWorkerPoolFailed name) err, c1, w')))"

definition deploy_service ::
  "'w run_api \<Rightarrow> string \<Rightarrow> string \<Rightarrow> string \<Rightarrow> service_state \<Rightarrow> gcp_client \<times> 'w \<Rightarrow> cloudrun_error option \<times> gcp_client \<times> 'w" where
  "deploy_service api project region name desired = (\<lambda>(c, w).
     case services_client api region c of
       (Some e, c1) \<Rightarrow> (Some e, c1, w)
     | (None, c1) \<Rightarrow>
        (case api_get_service api w (service_name project region name) of
           Inl (ApiError e) \<Rightarrow> (Some (GetServiceFailed name (ApiError e)), c1, w)
         | Inl (ApiNotFound _) \<Rightarrow> deploy_worker_pool api project region name desired (c1, w)
         | Inr svc \<Rightarrow>
             if sm_containers svc = [] then (Some (NoContainers name), c1, w)
             else
               case (case st_percent desired of
                       None \<Rightarrow> Inr (sm_traffic svc)
                     | Some p \<Rightarrow>
                        (case validated_percent p of
                           None \<Rightarrow> Inl (UnsupportedPercent name p)
                         | Some percent \<Rightarrow> Inr [\<lparr>tt_type = TargetLatest, tt_percent = percent\<rparr>])) of
                 Inl e \<Rightarrow> (Some e, c1, w)
               | Inr traffic \<Rightarrow>
                   let svc' = svc\<lparr>sm_containers := update_containers desired (sm_containers svc), sm_traffic := traffic\<rparr>;
                       (err, w') = api_update_service api w svc'
                   in (map_option (UpdateServiceFailed name) err, c1, w')))"

definition deploy_job ::
  "'w run_api \<Rightarrow> string \<Rightarrow> string \<Rightarrow> string \<Rightarrow> service_state \<Rightarrow> gcp_client \<times> 'w \<Rightarrow> cloudrun_error option \<times> gcp_client \<times> 'w" where
  "deploy_job api project region name desired = (\<lambda>(c, w).
     case jobs_client api region c of
       (Some e, c1) \<Rightarrow> (Some e, c1, w)
     | (None, c1) \<Rightarrow>
        (case fetch_job api w project region name of
           Inl e \<Rightarrow> (Some e, c1, w)
         | Inr job \<Rightarrow>
            (case jm_containers job of
               [] \<Rightarrow> (Some (NoContainers name), c1, w)
             | ct # rest \<Rightarrow>
                 let job' = job\<lparr>jm_containers := ct\<lparr>ct_image := with_digest (ct_image ct) (st_digest desired)\<rparr> # rest\<rparr>;
                     (err, w') = api_update_job api w job'
                 in (map_option (UpdateJobFailed name) err, c1, w'))))"

end
