(* ===== verification/Diff_Health.thy ===== *)
theory Diff_Health
  imports Cloudrun
begin

text \<open>
  Comparison of desired and live state (\<open>internal/diff/diff.go\<close>) and health assessment
  (\<open>internal/health/health.go\<close>), with the lemmas that tie them to the deploy path of \<open>Cloudrun\<close>:
  the environment a deploy writes reads back as the desired one, and a deployed resource is in sync.
\<close>

section \<open>Diff\<close>

datatype sync_status = Synced | OutOfSync

definition traffic_equal :: "int option \<Rightarrow> int option \<Rightarrow> bool" where
  "traffic_equal a b = (case (a, b) of (Some x, Some y) \<Rightarrow> x = y | (None, None) \<Rightarrow> True | _ \<Rightarrow> False)"

text \<open>The maps of a state, a nil map having no entries.\<close>

definition entries :: "('k \<times> 'v) list option \<Rightarrow> ('k \<times> 'v) list" where
  "entries m = (case m of None \<Rightarrow> [] | Some xs \<Rightarrow> xs)"

definition map_equal :: "('k \<times> 'v) list \<Rightarrow> ('k \<times> 'v) list \<Rightarrow> bool" where
  "map_equal a b \<longleftrightarrow> length a = length b \<and> list_all (\<lambda>(k, v). lookup b k = Some v) a"

definition string_map_equal :: "(string \<times> string) list option \<Rightarrow> (string \<times> string) list option \<Rightarrow> bool" where
  "string_map_equal a b = map_equal (entries a) (entries b)"

definition secret_map_equal :: "(string \<times> secret_source) list option \<Rightarrow> (string \<times> secret_source) list option \<Rightarrow> bool" where
  "secret_map_equal a b = map_equal (entries a) (entries b)"

fun compute :: "service_state \<Rightarrow> service_state \<Rightarrow> string list \<Rightarrow> string \<Rightarrow> sync_status" where
  "compute desired live [] rt = Synced"
| "compute desired live (field # fs) rt =
     (if field = ''image'' then
        (if st_digest desired \<noteq> st_digest live then OutOfSync else compute desired live fs rt)
      else if field = ''traffic'' then
        (if rt \<noteq> ''service'' then compute desired live fs rt
         else if st_percent desired = None then compute desired live fs rt
         else if \<not> traffic_equal (st_percent desired) (st_percent live) then OutOfSync
         else compute desired live fs rt)
      else if field = ''env'' then
        (if rt = ''job'' then compute desired live fs rt
         else if st_env desired = None \<and> st_secrets desired = None then compute desired live fs rt
         else if \<not> string_map_equal (st_env desired) (st_env live) \<or>
                 \<not> secret_map_equal (st_secrets desired) (st_secrets live) then OutOfSync
         else compute desired live fs rt)
      else compute desired live fs rt)"

section \<open>Health\<close>

datatype health = Healthy | Progressing | Degraded | Missing

definition assess_service :: "service_state \<Rightarrow> live_service \<Rightarrow> bool \<Rightarrow> health" where
  "assess_service desired live traffic_managed =
     (if \<not> ls_has_revision live then Missing
      else if ls_creating live then Progressing
      else if \<not> ls_ready live then Degraded
      else if traffic_managed \<and> st_percent desired \<noteq> None \<and>
              \<not> traffic_equal (st_percent desired) (st_percent (ls_state live)) then Progressing
      else Healthy)"

definition assess_worker_pool :: "live_service \<Rightarrow> health" where
  "assess_worker_pool live =
     assess_service \<lparr>st_digest = [], st_percent = None, st_env = None, st_secrets = None\<rparr> live False"

definition assess_job :: "live_job \<Rightarrow> health" where
  "assess_job live =
     (if \<not> lj_has_execution live then Missing
      else case lj_status live of
        ExecutionSucceeded \<Rightarrow> Healthy
      | ExecutionRunning \<Rightarrow> Progressing
      | ExecutionFailed \<Rightarrow> Degraded
      | _ \<Rightarrow> Degraded)"

section \<open>Specification\<close>

text \<open>What a managed field contributes: which fields are compared at all, and when they agree.\<close>

definition field_matches :: "service_state \<Rightarrow> service_state \<Rightarrow> string \<Rightarrow> string \<Rightarrow> bool" where
  "field_matches desired live rt field \<longleftrightarrow>
     (field = ''image'' \<longrightarrow> st_digest desired = st_digest live) \<and>
     (field = ''traffic'' \<and> rt = ''service'' \<and> st_percent desired \<noteq> None \<longrightarrow> st_percent desired = st_percent live) \<and>
     (field = ''env'' \<and> rt \<noteq> ''job'' \<and> manages_env desired \<longrightarrow>
        lookup (entries (st_env desired)) = lookup (entries (st_env live)) \<and>
        lookup (entries (st_secrets desired)) = lookup (entries (st_secrets live)))"

definition wf_state :: "service_state \<Rightarrow> bool" where
  "wf_state s \<longleftrightarrow> wf_map (entries (st_env s)) \<and> wf_map (entries (st_secrets s))"

section \<open>Lemmas\<close>

lemma traffic_equal_iff [simp]: "traffic_equal a b \<longleftrightarrow> a = b"
  by (auto simp: traffic_equal_def split: option.splits)

lemma map_equal_iff:
  assumes "wf_map a" and "wf_map b"
  shows "map_equal a b \<longleftrightarrow> lookup a = lookup b"
proof
  assume eq: "map_equal a b"
  then have len: "length a = length b" and sub: "set a \<subseteq> set b"
    by (auto simp: map_equal_def list_all_iff dest: lookup_in)
  have dist: "distinct a" "distinct b"
    using assms by (auto simp: wf_map_def keys_def distinct_map)
  with len have "card (set a) = card (set b)" by (simp add: distinct_card)
  with sub have sets: "set a = set b" by (simp add: card_subset_eq)
  show "lookup a = lookup b"
  proof
    fix k
    show "lookup a k = lookup b k"
      using lookup_wf_iff [OF assms(1), of k] lookup_wf_iff [OF assms(2), of k] sets
      by (cases "lookup a k"; cases "lookup b k") auto
  qed
next
  assume eq: "lookup a = lookup b"
  then have sets: "set a = set b"
    using lookup_wf_iff [OF assms(1)] lookup_wf_iff [OF assms(2)] by (metis subset_antisym subrelI)
  have "distinct a" "distinct b"
    using assms by (auto simp: wf_map_def keys_def distinct_map)
  with sets have "length a = length b" by (metis distinct_card)
  then show "map_equal a b"
    using assms(1) eq lookup_wf by (fastforce simp: map_equal_def list_all_iff)
qed

lemma compute_Cons:
  assumes "wf_state desired" and "wf_state live"
  shows "compute desired live (f # fs) rt =
     (if field_matches desired live rt f then compute desired live fs rt else OutOfSync)"
proof -
  have maps: "string_map_equal (st_env desired) (st_env live) \<longleftrightarrow>
      lookup (entries (st_env desired)) = lookup (entries (st_env live))"
    "secret_map_equal (st_secrets desired) (st_secrets live) \<longleftrightarrow>
      lookup (entries (st_secrets desired)) = lookup (entries (st_secrets live))"
    using assms by (simp_all add: string_map_equal_def secret_map_equal_def map_equal_iff wf_state_def)
  consider "f = ''image''" | "f = ''traffic''" | "f = ''env''" | "f \<notin> {''image'', ''traffic'', ''env''}" by blast
  then show ?thesis
    by cases (simp_all add: field_matches_def manages_env_def maps)
qed

lemma compute_iff:
  assumes "wf_state desired" and "wf_state live"
  shows "compute desired live managed rt = Synced \<longleftrightarrow> (\<forall>f \<in> set managed. field_matches desired live rt f)"
  by (induction managed) (simp_all add: compute_Cons [OF assms] del: compute.simps(2))

lemma compute_mono:
  "compute desired live managed rt = Synced \<Longrightarrow> wf_state desired \<Longrightarrow> wf_state live \<Longrightarrow> set m \<subseteq> set managed \<Longrightarrow>
     compute desired live m rt = Synced"
  by (auto simp: compute_iff)

text \<open>Two duplicate-free maps with the same entries have the same lookups.\<close>

lemma lookup_eq_set: "wf_map a \<Longrightarrow> wf_map b \<Longrightarrow> set a = set b \<Longrightarrow> lookup a = lookup b"
  by (rule ext) (metis lookup_in lookup_wf not_None_eq option.exhaust)

lemma set_put: "k \<notin> set (keys m) \<Longrightarrow> set (put k v m) = insert (k, v) (set m)"
  by (induction k v m rule: put.induct) (auto simp: keys_def)

lemma entries_simps [simp]: "entries None = []" "entries (Some m) = m"
  by (simp_all add: entries_def)

lemma entries_case: "(case m of None \<Rightarrow> [] | Some x \<Rightarrow> x) = entries m"
  by (simp add: entries_def)

definition plain_entry :: "env_var \<Rightarrow> (string \<times> string) set" where
  "plain_entry e = (case ev_value e of EnvSecret _ _ \<Rightarrow> {} | EnvValue v \<Rightarrow> {(ev_name e, v)} | _ \<Rightarrow> {(ev_name e, [])})"

definition secret_entry :: "env_var \<Rightarrow> (string \<times> secret_source) set" where
  "secret_entry e = (case ev_value e of EnvSecret s v \<Rightarrow> {(ev_name e, (s, v))} | _ \<Rightarrow> {})"

lemma env_state_loop_Cons:
  obtains (plain) v where "env_state_loop (e # es) vs ss = env_state_loop es (Some (put (ev_name e) v (entries vs))) ss"
      "plain_entry e = {(ev_name e, v)}" "secret_entry e = {}"
  | (secret) sv where "env_state_loop (e # es) vs ss = env_state_loop es vs (Some (put (ev_name e) sv (entries ss)))"
      "plain_entry e = {}" "secret_entry e = {(ev_name e, sv)}"
  by (cases "ev_value e") (simp_all add: entries_case plain_entry_def secret_entry_def)

lemma env_state_loop_wf:
  "wf_map (entries vs) \<Longrightarrow> wf_map (entries ss) \<Longrightarrow> env_state_loop es vs ss = (vs', ss') \<Longrightarrow>
     wf_map (entries vs') \<and> wf_map (entries ss')"
proof (induction es arbitrary: vs ss)
  case (Cons e es)
  show ?case
  proof (cases rule: env_state_loop_Cons [of e es vs ss])
    case (plain v)
    show ?thesis
      by (rule Cons.IH [of "Some (put (ev_name e) v (entries vs))" ss]) (use Cons.prems plain(1) in simp_all)
  next
    case (secret sv)
    show ?thesis
      by (rule Cons.IH [of vs "Some (put (ev_name e) sv (entries ss))"]) (use Cons.prems secret(1) in simp_all)
  qed
qed auto

lemma env_state_loop_entries:
  assumes "distinct (map ev_name es)"
    and "\<forall>n \<in> ev_name ` set es. n \<notin> set (keys (entries vs)) \<and> n \<notin> set (keys (entries ss))"
    and "env_state_loop es vs ss = (vs', ss')"
  shows "set (entries vs') = set (entries vs) \<union> \<Union> (plain_entry ` set es) \<and>
     set (entries ss') = set (entries ss) \<union> \<Union> (secret_entry ` set es)"
  using assms
proof (induction es arbitrary: vs ss)
  case (Cons e es)
  have dist: "distinct (map ev_name es)" "ev_name e \<notin> ev_name ` set es"
      "ev_name e \<notin> set (keys (entries vs))" "ev_name e \<notin> set (keys (entries ss))"
    using Cons.prems(1,2) by simp_all
  show ?case
  proof (cases rule: env_state_loop_Cons [of e es vs ss])
    case (plain v)
    have fresh: "\<forall>n \<in> ev_name ` set es. n \<notin> set (keys (entries (Some (put (ev_name e) v (entries vs))))) \<and> n \<notin> set (keys (entries (ss)))"
      using Cons.prems(2) dist(2) unfolding entries_simps keys_put list.set_map list.set image_insert by blast
    have "set (entries vs') = set (put (ev_name e) v (entries vs)) \<union> \<Union> (plain_entry ` set es) \<and>
        set (entries ss') = set (entries ss) \<union> \<Union> (secret_entry ` set es)"
      using Cons.IH [OF dist(1) fresh] Cons.prems(3) plain(1) by simp
    then show ?thesis by (simp add: plain(2,3) set_put [OF dist(3)])
  next
    case (secret sv)
    have fresh: "\<forall>n \<in> ev_name ` set es. n \<notin> set (keys (entries (vs))) \<and> n \<notin> set (keys (entries (Some (put (ev_name e) sv (entries ss)))))"
      using Cons.prems(2) dist(2) unfolding entries_simps keys_put list.set_map list.set image_insert by blast
    have "set (entries vs') = set (entries vs) \<union> \<Union> (plain_entry ` set es) \<and>
        set (entries ss') = set (put (ev_name e) sv (entries ss)) \<union> \<Union> (secret_entry ` set es)"
      using Cons.IH [OF dist(1) fresh] Cons.prems(3) secret(1) by simp
    then show ?thesis by (simp add: secret(2,3) set_put [OF dist(4)])
  qed
qed auto

text \<open>The desired environment of a state, as declared: every name once.\<close>

definition wf_env :: "service_state \<Rightarrow> bool" where
  "wf_env s \<longleftrightarrow> distinct (keys (entries (st_env s)) @ keys (entries (st_secrets s)))"

lemma build_env_vars_entries:
  "\<Union> (plain_entry ` set (build_env_vars vs ss)) = set (entries vs)"
  "\<Union> (secret_entry ` set (build_env_vars vs ss)) = set (entries ss)"
  by (force simp: build_env_vars_def entries_case plain_entry_def secret_entry_def)+

lemma build_env_vars_names:
  assumes "distinct (keys (entries vs) @ keys (entries ss))"
  shows "distinct (map ev_name (build_env_vars vs ss))"
proof -
  have names: "map ev_name (map (\<lambda>(n, v). \<lparr>ev_name = n, ev_value = EnvValue v\<rparr>) a @
      map (\<lambda>(n, s, v). \<lparr>ev_name = n, ev_value = EnvSecret s v\<rparr>) b) = keys a @ keys b" for a b
    by (auto simp: keys_def)
  have "distinct (map f (sort_key g xs)) \<longleftrightarrow> distinct (map f xs)" for f :: "env_var \<Rightarrow> string" and g :: "env_var \<Rightarrow> string" and xs
    by (simp add: distinct_map)
  then show ?thesis
    unfolding build_env_vars_def names [symmetric] entries_case using assms names by metis
qed

lemma env_state_wf:
  assumes "env_state cs = (vs, ss)"
  shows "wf_map (entries vs) \<and> wf_map (entries ss)"
proof (cases "vs = None \<and> ss = None")
  case False
  with assms obtain es where "env_state_loop es None None = (vs, ss)"
    by (cases cs) (auto simp: env_state_def split: if_splits)
  then show ?thesis using env_state_loop_wf [of None None] by simp
qed simp

lemma env_round_trip:
  assumes "distinct (keys (entries vs) @ keys (entries ss))"
    and "ct_env c = build_env_vars vs ss" and "env_state (c # cs) = (vs', ss')"
  shows "lookup (entries vs') = lookup (entries vs) \<and> lookup (entries ss') = lookup (entries ss)"
proof -
  have wf: "wf_map (entries vs)" "wf_map (entries ss)" using assms(1) by (auto simp: wf_map_def)
  have "set (entries vs') = set (entries vs) \<and> set (entries ss') = set (entries ss)"
  proof (cases "ct_env c = []")
    case True
    then have "entries vs = []" "entries ss = []"
      using build_env_vars_entries [of vs ss] assms(2) by simp_all
    with True assms(3) show ?thesis by (auto simp: env_state_def)
  next
    case False
    with assms(2,3) have "env_state_loop (build_env_vars vs ss) None None = (vs', ss')"
      by (simp add: env_state_def)
    from env_state_loop_entries [OF build_env_vars_names [OF assms(1)] _ this] show ?thesis
      by (simp add: build_env_vars_entries keys_def)
  qed
  with wf env_state_wf [OF assms(3)] show ?thesis by (metis lookup_eq_set)
qed

section \<open>Image references and deploys\<close>

text \<open>An existing reference with a digest keeps what precedes its last \<open>@\<close>; a tag alone is dropped.\<close>

lemma with_digest_at: "CHR ''@'' \<notin> set old \<Longrightarrow> with_digest (r @ CHR ''@'' # old) d = r @ CHR ''@'' # d"
  by (simp add: with_digest_def last_index_split)

lemma split_image_ref_tag:
  assumes "CHR ''/'' \<notin> set tg" and "CHR '':'' \<notin> set tg"
  shows "split_image_ref (r @ CHR '':'' # tg) = (r, tg)"
proof -
  have colon: "last_index (CHR '':'') (r @ CHR '':'' # tg) = int (length r)"
    using assms(2) by (rule last_index_split)
  have "last_index (CHR ''/'') (r @ CHR '':'' # tg) < int (length r)"
  proof (cases "CHR ''/'' \<in> set r")
    case True
    then obtain a b where "r = a @ CHR ''/'' # b" "CHR ''/'' \<notin> set b" using split_last_ex by metis
    then show ?thesis
      using last_index_split [of "CHR ''/''" "b @ CHR '':'' # tg" a] assms(1) by simp
  next
    case False
    then show ?thesis using last_index_none [of "CHR ''/''" "r @ CHR '':'' # tg"] assms(1) by simp
  qed
  with colon show ?thesis by (simp add: split_image_ref_def nat_add_distrib)
qed

lemma with_digest_tag:
  assumes "CHR ''@'' \<notin> set (r @ CHR '':'' # tg)" and "CHR ''/'' \<notin> set tg" and "CHR '':'' \<notin> set tg"
  shows "with_digest (r @ CHR '':'' # tg) d = r @ CHR ''@'' # d"
  using last_index_none [OF assms(1)] split_image_ref_tag [OF assms(2,3)] by (simp add: with_digest_def)

lemma with_digest_suffix: "\<exists>r. with_digest e d = r @ CHR ''@'' # d"
  by (auto simp: with_digest_def Let_def)

lemma digest_suffix_with_digest: "CHR ''@'' \<notin> set d \<Longrightarrow> digest_suffix (with_digest e d) = d"
  using with_digest_suffix [of e d] by (auto simp: digest_suffix_def last_index_split nat_add_distrib)

lemma resolve_with_digest:
  assumes "CHR ''@'' \<notin> set d"
  shows "resolve_image_digest api w (with_digest e d) c = (Inr d, c)"
proof -
  obtain r where r: "with_digest e d = r @ CHR ''@'' # d" using with_digest_suffix by metis
  then have "with_digest e d \<noteq> d" by (metis append_Cons append_is_Nil_conv append_same_eq list.distinct(1) self_append_conv2 append_assoc append_Nil)
  moreover have "with_digest e d \<noteq> []" using r by simp
  ultimately show ?thesis
    using digest_suffix_with_digest [OF assms, of e] by (simp add: resolve_image_digest_def Let_def)
qed

text \<open>Read your writes: an accepted update is what the next read of the resource returns.\<close>

definition reads_writes :: "'w run_api \<Rightarrow> bool" where
  "reads_writes api \<longleftrightarrow>
     (\<forall>w n old m w'. api_get_service api w n = Inr old \<longrightarrow> sm_name m = sm_name old \<longrightarrow>
        api_update_service api w m = (None, w') \<longrightarrow>
        (\<exists>m'. api_get_service api w' n = Inr m' \<and> sm_containers m' = sm_containers m \<and> sm_traffic m' = sm_traffic m)) \<and>
     (\<forall>w n old m w'. api_get_job api w n = Inr old \<longrightarrow> jm_name m = jm_name old \<longrightarrow>
        api_update_job api w m = (None, w') \<longrightarrow>
        (\<exists>m'. api_get_job api w' n = Inr m' \<and> jm_containers m' = jm_containers m))"

lemma reads_writes_service:
  "reads_writes api \<Longrightarrow> api_get_service api w n = Inr old \<Longrightarrow> sm_name m = sm_name old \<Longrightarrow>
   api_update_service api w m = (None, w') \<Longrightarrow>
   \<exists>m'. api_get_service api w' n = Inr m' \<and> sm_containers m' = sm_containers m \<and> sm_traffic m' = sm_traffic m"
  unfolding reads_writes_def by blast

lemma reads_writes_job:
  "reads_writes api \<Longrightarrow> api_get_job api w n = Inr old \<Longrightarrow> jm_name m = jm_name old \<Longrightarrow>
   api_update_job api w m = (None, w') \<Longrightarrow>
   \<exists>m'. api_get_job api w' n = Inr m' \<and> jm_containers m' = jm_containers m"
  unfolding reads_writes_def by blast

lemma services_client_again:
  "services_client api region c = (None, c1) \<Longrightarrow> services_client api region c1 = (None, c1)"
  by (auto simp: services_client_def split: if_splits option.splits)

lemma jobs_client_again:
  "jobs_client api region c = (None, c1) \<Longrightarrow> jobs_client api region c1 = (None, c1)"
  by (auto simp: jobs_client_def split: if_splits option.splits)

lemma deploy_service_cases:
  assumes "deploy_service api project region name desired (c, w) = (None, c1, w')"
    and "api_get_service api w (service_name project region name) = Inr svc"
  shows "services_client api region c = (None, c1) \<and> sm_containers svc \<noteq> [] \<and>
     (\<exists>traffic svc'. (case st_percent desired of None \<Rightarrow> traffic = sm_traffic svc
         | Some p \<Rightarrow> p = 100 \<and> traffic = [\<lparr>tt_type = TargetLatest, tt_percent = p\<rparr>]) \<and>
       svc' = svc\<lparr>sm_containers := update_containers desired (sm_containers svc), sm_traffic := traffic\<rparr> \<and>
       api_update_service api w svc' = (None, w'))"
  using assms
  by (cases "services_client api region c"; cases "st_percent desired")
    (auto simp: deploy_service_def Let_def validated_percent_def
       split: option.splits sum.splits prod.splits if_splits)

lemma update_containers_image:
  "cs \<noteq> [] \<Longrightarrow> container_image (update_containers desired cs) = with_digest (container_image cs) (st_digest desired)"
  by (cases cs) (simp_all add: update_containers_def container_image_def Let_def)

lemma update_containers_env:
  assumes "cs \<noteq> []" and "manages_env desired" and "wf_env desired"
    and "env_state (update_containers desired cs) = (vs, ss)"
  shows "lookup (entries vs) = lookup (entries (st_env desired)) \<and>
     lookup (entries ss) = lookup (entries (st_secrets desired))"
proof -
  obtain c rest where cs: "cs = c # rest" using assms(1) by (cases cs) auto
  let ?c = "c\<lparr>ct_image := with_digest (ct_image c) (st_digest desired),
      ct_env := build_env_vars (st_env desired) (st_secrets desired)\<rparr>"
  have "update_containers desired cs = ?c # rest"
    using assms(2) by (simp add: cs update_containers_def)
  with assms(4) have "env_state (?c # rest) = (vs, ss)" by simp
  from env_round_trip [OF assms(3) [unfolded wf_env_def] _ this] show ?thesis by simp
qed

lemma wf_env_state: "wf_env s \<Longrightarrow> wf_state s"
  by (auto simp: wf_env_def wf_state_def wf_map_def)

lemma deploy_service_get:
  assumes "reads_writes api"
    and "deploy_service api project region name desired (c, w) = (None, c1, w')"
    and "api_get_service api w (service_name project region name) = Inr svc"
    and "CHR ''@'' \<notin> set (st_digest desired)" and "wf_env desired"
  shows "\<exists>live. get_service api w' project region name fetch c1 = (Inr live, c1) \<and>
     compute desired (ls_state live) managed ''service'' = Synced \<and>
     ls_has_revision live = (fetch = [] \<or> fetch = st_digest desired)"
proof -
  obtain traffic svc' where client: "services_client api region c = (None, c1)" and ne: "sm_containers svc \<noteq> []"
    and pct: "case st_percent desired of None \<Rightarrow> traffic = sm_traffic svc
         | Some p \<Rightarrow> p = 100 \<and> traffic = [\<lparr>tt_type = TargetLatest, tt_percent = p\<rparr>]"
    and svc': "svc' = svc\<lparr>sm_containers := update_containers desired (sm_containers svc), sm_traffic := traffic\<rparr>"
    and upd: "api_update_service api w svc' = (None, w')"
    using deploy_service_cases [OF assms(2,3)] by blast
  obtain m' where m': "api_get_service api w' (service_name project region name) = Inr m'"
      "sm_containers m' = update_containers desired (sm_containers svc)" "sm_traffic m' = traffic"
    using reads_writes_service [OF assms(1,3) _ upd] by (auto simp: svc')
  obtain vs ss where env: "env_state (sm_containers m') = (vs, ss)" by (metis surj_pair)
  let ?st = "\<lparr>st_digest = st_digest desired, st_percent = Some (latest_revision_percent traffic),
      st_env = vs, st_secrets = ss\<rparr>"
  obtain ready creating where cond: "condition_state (sm_condition m') (sm_reconciling m') = (ready, creating)"
    by (metis surj_pair)
  have img: "container_image (sm_containers m') = with_digest (container_image (sm_containers svc)) (st_digest desired)"
    using m'(2) update_containers_image [OF ne] by simp
  have get: "get_service api w' project region name fetch c1 =
      (Inr \<lparr>ls_state = ?st, ls_has_revision = (fetch = [] \<or> st_digest desired = fetch), ls_ready = ready, ls_creating = creating\<rparr>, c1)"
    using services_client_again [OF client] m'(1,3) env cond
    by (simp add: get_service_def live_service_from_service_def img resolve_with_digest [OF assms(4)])
  have "wf_state ?st" using env_state_wf [OF env] by (simp add: wf_state_def)
  moreover have "field_matches desired ?st ''service'' f" for f
    using pct update_containers_env [OF ne _ assms(5)] env m'(2)
    by (auto simp: field_matches_def latest_revision_percent_def split: option.splits)
  ultimately have "compute desired ?st managed ''service'' = Synced"
    using compute_iff [OF wf_env_state [OF assms(5)]] by blast
  with get show ?thesis by auto
qed

lemma deploy_job_get:
  assumes "reads_writes api"
    and "deploy_job api project region name desired (c, w) = (None, c1, w')"
    and "CHR ''@'' \<notin> set (st_digest desired)" and "wf_env desired"
  shows "\<exists>live c2. get_job api w' project region name fetch c1 = (Inr live, c2) \<and>
     compute desired (lj_state live) managed ''job'' = Synced"
proof -
  obtain job ct rest where client: "jobs_client api region c = (None, c1)"
    and job: "fetch_job api w project region name = Inr job" "jm_containers job = ct # rest"
    and upd: "api_update_job api w
        (job\<lparr>jm_containers := ct\<lparr>ct_image := with_digest (ct_image ct) (st_digest desired)\<rparr> # rest\<rparr>) = (None, w')"
    using assms(2) by (auto simp: deploy_job_def Let_def split: option.splits sum.splits prod.splits list.splits)
  obtain m' where m': "api_get_job api w' (job_name project region name) = Inr m'"
      "jm_containers m' = ct\<lparr>ct_image := with_digest (ct_image ct) (st_digest desired)\<rparr> # rest"
    using reads_writes_job [OF assms(1) _ _ upd] job(1) by (auto simp: fetch_job_def split: sum.splits api_error.splits)
  let ?st = "\<lparr>st_digest = st_digest desired, st_percent = None, st_env = None, st_secrets = None\<rparr>"
  have img: "resolve_image_digest api w' (container_image (jm_containers m')) c1 = (Inr (st_digest desired), c1)"
    using resolve_with_digest [OF assms(3)] by (simp add: m'(2) container_image_def)
  have "\<exists>live c2. get_job api w' project region name fetch c1 = (Inr live, c2) \<and> lj_state live = ?st"
    using jobs_client_again [OF client] m'(1) img
    by (auto simp: get_job_def fetch_job_def Let_def split: option.split sum.split prod.split)
  moreover have "compute desired ?st managed ''job'' = Synced"
    using compute_iff [OF wf_env_state [OF assms(4)], of ?st] by (simp add: field_matches_def wf_state_def)
  ultimately show ?thesis by metis
qed

section \<open>Properties\<close>

text \<open>C17: \<open>Compute\<close> reports Synced exactly when every managed field that applies to the resource type
  and that the manifest declares agrees between desired and live state: the digest, for services the
  traffic percentage, and for everything but jobs the environment as two maps. The order and
  repetition of the managed fields do not matter.\<close>

theorem compute_spec:
  assumes "wf_state desired" and "wf_state live"
  shows "compute desired live managed rt = Synced \<longleftrightarrow> (\<forall>f \<in> set managed. field_matches desired live rt f)"
  using assms by (rule compute_iff)

definition example_state :: service_state where
  "example_state = \<lparr>st_digest = ''sha256:1'', st_percent = Some 100,
     st_env = Some [(''A'', ''1''), (''B'', [])], st_secrets = Some [(''S'', (''sec'', ''latest''))]\<rparr>"

theorem compute_spec_witness:
  "compute example_state (example_state\<lparr>st_env := Some [(''C'', []), (''A'', ''1'')]\<rparr>) [''image'', ''env''] ''service'' = OutOfSync"
proof -
  let ?live = "example_state\<lparr>st_env := Some [(''C'', []), (''A'', ''1'')]\<rparr>"
  have "wf_state example_state" "wf_state ?live"
    by (simp_all add: wf_state_def example_state_def wf_map_def keys_def)
  moreover have "lookup (entries (st_env example_state)) ''B'' \<noteq> lookup (entries (st_env ?live)) ''B''"
    by (simp add: example_state_def)
  then have "\<not> field_matches example_state ?live ''service'' ''env''"
    unfolding field_matches_def manages_env_def by (auto simp: example_state_def dest: fun_cong [of _ _ "''B''"])
  ultimately have "compute example_state ?live [''image'', ''env''] ''service'' \<noteq> Synced"
    using compute_spec [of example_state ?live "[''image'', ''env'']" "''service''"] by force
  then show ?thesis by (cases "compute example_state ?live [''image'', ''env''] ''service''") simp_all
qed

text \<open>A successful service deploy converges: if the API returns what it accepted, the next read of
  the service finds the desired digest, whatever the reference the container had before, and the diff
  of every managed field, environment included, is Synced.\<close>

theorem deploy_service_synced:
  assumes "reads_writes api"
    and "deploy_service api project region name desired (c, w) = (None, c1, w')"
    and "api_get_service api w (service_name project region name) = Inr svc"
    and "CHR ''@'' \<notin> set (st_digest desired)" and "wf_env desired"
  shows "\<exists>live. get_service api w' project region name fetch c1 = (Inr live, c1) \<and>
     compute desired (ls_state live) managed ''service'' = Synced \<and>
     ls_has_revision live = (fetch = [] \<or> fetch = st_digest desired)"
  using assms by (rule deploy_service_get)

text \<open>A successful job deploy converges in the same way, and never touches the job's environment or
  its executions.\<close>

theorem deploy_job_synced:
  assumes "reads_writes api"
    and "deploy_job api project region name desired (c, w) = (None, c1, w')"
    and "CHR ''@'' \<notin> set (st_digest desired)" and "wf_env desired"
  shows "\<exists>live c2. get_job api w' project region name fetch c1 = (Inr live, c2) \<and>
     compute desired (lj_state live) managed ''job'' = Synced"
  using assms by (rule deploy_job_get)

text \<open>A world that stores one service and one job, and answers from them.\<close>

definition one_world :: "(service_msg \<times> job_msg) run_api" where
  "one_world = \<lparr>api_dial = (\<lambda>_ _. None), api_get_service = (\<lambda>w _. Inr (fst w)),
     api_get_worker_pool = (\<lambda>_ n. Inl (ApiNotFound n)), api_get_job = (\<lambda>w _. Inr (snd w)),
     api_get_execution = (\<lambda>_ n. Inl (ApiNotFound n)), api_list_services = (\<lambda>_ _. ([], None)),
     api_list_tags = (\<lambda>_ _. Inr []), api_update_service = (\<lambda>w m. (None, (m, snd w))),
     api_update_worker_pool = (\<lambda>w _. (None, w)), api_update_job = (\<lambda>w m. (None, (fst w, m)))\<rparr>"

definition example_world :: "service_msg \<times> job_msg" where
  "example_world =
     (\<lparr>sm_name = ''web'', sm_containers = [\<lparr>ct_image = ''host/p/r/web:v1'', ct_env = []\<rparr>], sm_traffic = [], sm_condition = None,
        sm_reconciling = False\<rparr>,
      \<lparr>jm_name = ''etl'', jm_containers = [\<lparr>ct_image = ''host/p/r/etl@sha256:0'', ct_env = []\<rparr>], jm_latest_execution = None\<rparr>)"

lemma one_world_reads_writes: "reads_writes one_world"
  by (auto simp: reads_writes_def one_world_def)

lemma example_state_wf: "wf_env example_state" "CHR ''@'' \<notin> set (st_digest example_state)"
  by (simp_all add: wf_env_def example_state_def keys_def)

theorem deploy_service_synced_witness:
  "\<exists>c1 w' live. deploy_service one_world ''p'' ''r'' ''web'' example_state (new_gcp_client, example_world) = (None, c1, w') \<and>
     get_service one_world w' ''p'' ''r'' ''web'' ''sha256:1'' c1 = (Inr live, c1) \<and>
     compute example_state (ls_state live) [''image'', ''traffic'', ''env''] ''service'' = Synced \<and>
     container_image (sm_containers (fst w')) = ''host/p/r/web@sha256:1''"
proof -
  have img: "with_digest ''host/p/r/web:v1'' ''sha256:1'' = ''host/p/r/web@sha256:1''"
    using with_digest_tag [of "''host/p/r/web''" "''v1''" "''sha256:1''"] by simp
  obtain c1 w' where dep: "deploy_service one_world ''p'' ''r'' ''web'' example_state (new_gcp_client, example_world) = (None, c1, w')"
    and ct: "container_image (sm_containers (fst w')) = ''host/p/r/web@sha256:1''"
    by (simp add: deploy_service_def services_client_def one_world_def new_gcp_client_def example_world_def
        example_state_def validated_percent_def update_containers_def manages_env_def container_image_def img)
  have "api_get_service one_world example_world (service_name ''p'' ''r'' ''web'') = Inr (fst example_world)"
    by (simp add: one_world_def)
  from deploy_service_synced [OF one_world_reads_writes dep this example_state_wf(2,1),
      of "''sha256:1''" "[''image'', ''traffic'', ''env'']"] dep ct
  show ?thesis by blast
qed

theorem deploy_job_synced_witness:
  "\<exists>c1 w' live c2. deploy_job one_world ''p'' ''r'' ''etl'' example_state (new_gcp_client, example_world) = (None, c1, w') \<and>
     get_job one_world w' ''p'' ''r'' ''etl'' ''sha256:1'' c1 = (Inr live, c2) \<and>
     compute example_state (lj_state live) [''image'', ''env''] ''job'' = Synced"
proof -
  obtain c1 w' where dep: "deploy_job one_world ''p'' ''r'' ''etl'' example_state (new_gcp_client, example_world) = (None, c1, w')"
    by (simp add: deploy_job_def fetch_job_def jobs_client_def one_world_def new_gcp_client_def example_world_def)
  from deploy_job_synced [OF one_world_reads_writes dep example_state_wf(2,1), of "''sha256:1''" "[''image'', ''env'']"] dep
  show ?thesis by blast
qed

text \<open>Health is Missing exactly when no revision runs the wanted digest, and Healthy exactly when one
  does, the latest revision is settled and ready, and, if traffic is managed and declared, the live
  percentage is the declared one.\<close>

theorem assess_service_spec:
  "(assess_service desired live managed = Missing \<longleftrightarrow> \<not> ls_has_revision live) \<and>
   (assess_service desired live managed = Healthy \<longleftrightarrow>
      ls_has_revision live \<and> \<not> ls_creating live \<and> ls_ready live \<and>
      (managed \<longrightarrow> st_percent desired \<in> {None, st_percent (ls_state live)})) \<and>
   (assess_service desired live managed = Degraded \<longleftrightarrow>
      ls_has_revision live \<and> \<not> ls_creating live \<and> \<not> ls_ready live)"
  by (auto simp: assess_service_def)

theorem assess_service_spec_witness:
  "assess_service example_state \<lparr>ls_state = example_state, ls_has_revision = True, ls_ready = True, ls_creating = False\<rparr> True = Healthy"
  using assess_service_spec [of example_state "\<lparr>ls_state = example_state, ls_has_revision = True, ls_ready = True, ls_creating = False\<rparr>" True]
  by simp

text \<open>Rebuilding an image reference for a new digest replaces an old digest and drops a tag that stands
  alone, but a reference that carries both keeps its tag in front of the new digest.\<close>

theorem with_digest_spec:
  assumes "CHR ''@'' \<notin> set (repo @ CHR '':'' # tg)" and "CHR ''/'' \<notin> set tg" and "CHR '':'' \<notin> set tg"
    and "CHR ''@'' \<notin> set old"
  shows "with_digest (repo @ CHR '':'' # tg) d = repo @ CHR ''@'' # d \<and>
    with_digest (repo @ CHR ''@'' # old) d = repo @ CHR ''@'' # d \<and>
    with_digest (repo @ CHR '':'' # tg @ CHR ''@'' # old) d = repo @ CHR '':'' # tg @ CHR ''@'' # d"
  using assms with_digest_tag [OF assms(1-3)] with_digest_at [OF assms(4), of "repo @ CHR '':'' # tg"]
  by (simp add: with_digest_at)

theorem with_digest_spec_witness:
  "with_digest ''h/r:v1'' ''sha256:1'' = ''h/r@sha256:1'' \<and>
   with_digest ''h/r:v1@sha256:0'' ''sha256:1'' = ''h/r:v1@sha256:1''"
  using with_digest_spec [of "''h/r''" "''v1''" "''sha256:0''" "''sha256:1''"] by simp

end
