(* ===== verification/Folders.thy ===== *)
theory Folders
  imports Expiring_Cache Rbac
begin

text \<open>
  Folder resolution (\<open>internal/folders\<close>): the projects of a GCP folder, cached with a stale fallback,
  their merge into the environments' project lists before expansion, and the membership map access
  control uses. The Resource Manager listing is an argument, one outcome per call.
\<close>

section \<open>Projects of a folder\<close>

datatype project_state = ActiveProject | OtherProjectState

type_synonym project_listing = "(project_state \<times> string) list \<times> string option"

datatype folder_error = ListProjects string string

definition list_projects_in_folder :: "(string \<Rightarrow> project_listing) \<Rightarrow> string \<Rightarrow> folder_error + string list" where
  "list_projects_in_folder list_projects folder =
     (case list_projects (''folders/'' @ folder) of
        (ps, Some e) \<Rightarrow> Inl (ListProjects folder e)
      | (ps, None) \<Rightarrow> Inr (map snd (filter (\<lambda>p. fst p = ActiveProject) ps)))"

type_synonym folder_cache = "(string \<times> (string list \<times> time)) list"

definition default_folder_ttl :: int where "default_folder_ttl = 60 * second"

definition folder_ttl :: "int \<Rightarrow> int" where
  "folder_ttl cache_ttl = (if cache_ttl = 0 then default_folder_ttl else cache_ttl)"

definition projects_in_folder ::
  "int \<Rightarrow> string \<Rightarrow> time \<Rightarrow> time \<Rightarrow> ('e, string list) flight \<Rightarrow> time \<Rightarrow> folder_cache \<Rightarrow>
     ('e + string list) \<times> folder_cache" where
  "projects_in_folder cache_ttl folder t1 t2 flight t3 cache =
     (let ttl = folder_ttl cache_ttl;
          cached = (\<lambda>now. case lookup cache folder of None \<Rightarrow> None
                    | Some (ps, fetched_at) \<Rightarrow> if now - fetched_at < ttl then Some ps else None)
      in case cached t1 of
        Some ps \<Rightarrow> (Inr ps, cache)
      | None \<Rightarrow>
         (case flight of
            Join r \<Rightarrow> (r, cache)
          | Lead fetch \<Rightarrow>
             (case cached t2 of
                Some ps \<Rightarrow> (Inr ps, cache)
              | None \<Rightarrow>
                 (case fetch of
                    Inl e \<Rightarrow> (case lookup cache folder of
                               Some (ps, _) \<Rightarrow> (Inr ps, cache)
                             | None \<Rightarrow> (Inl e, cache))
                  | Inr ids \<Rightarrow> (Inr ids, put folder (ids, t3) cache)))))"

section \<open>Resolving configuration and membership\<close>

text \<open>The outcome of the \<open>i\<close>-th call of a pass is \<open>resolver i\<close>; calls run in any order.\<close>

definition resolve_all :: "(nat \<Rightarrow> string \<Rightarrow> 'e + string list) \<Rightarrow> string list \<Rightarrow> ('e + string list) list" where
  "resolve_all resolver ids = map (\<lambda>(i, f). resolver i f) (enumerate 0 ids)"

datatype 'e resolve_error = EnvironmentFolder string string 'e | MembershipFolder string 'e

fun add_projects :: "string list \<Rightarrow> string list \<times> string list \<Rightarrow> string list \<times> string list" where
  "add_projects [] (seen, merged) = (seen, merged)"
| "add_projects (p # ps) (seen, merged) =
     (if p \<in> set seen then add_projects ps (seen, merged) else add_projects ps (p # seen, merged @ [p]))"

fun merge_folders ::
  "string \<Rightarrow> string list \<Rightarrow> ('e + string list) list \<Rightarrow> string list \<times> string list \<Rightarrow> 'e resolve_error list \<Rightarrow>
     string list \<times> 'e resolve_error list" where
  "merge_folders name (f # fs) (r # rs) st errs =
     (case r of
        Inl e \<Rightarrow> merge_folders name fs rs st (errs @ [EnvironmentFolder name f e])
      | Inr ps \<Rightarrow> merge_folders name fs rs (add_projects ps st) errs)"
| "merge_folders name _ _ st errs = (snd st, errs)"

definition folder_jobs :: "(string \<times> environment) list \<Rightarrow> (string \<times> string) list" where
  "folder_jobs envs = concat (map (\<lambda>(n, e). map (Pair n) (env_folders e)) envs)"

definition by_env ::
  "(string \<times> string) list \<Rightarrow> ('e + string list) list \<Rightarrow> string \<Rightarrow> ('e + string list) list" where
  "by_env jobs results name = map snd (filter (\<lambda>(j, r). fst j = name) (zip jobs results))"

definition resolve_environment ::
  "('e + string list) list \<Rightarrow> string \<times> environment \<Rightarrow> (string \<times> environment) \<times> 'e resolve_error list" where
  "resolve_environment rs = (\<lambda>(name, e).
     if env_folders e = [] then ((name, e), [])
     else let (merged, errs) = merge_folders name (env_folders e) rs (add_projects (env_projects e) ([], [])) []
          in ((name, e\<lparr>env_projects := merged\<rparr>), errs))"

definition resolve_config ::
  "(nat \<Rightarrow> string \<Rightarrow> 'e + string list) \<Rightarrow> root \<Rightarrow> root \<times> 'e resolve_error list" where
  "resolve_config resolver r =
     (let envs = root_environments r; jobs = folder_jobs envs;
          results = resolve_all resolver (map snd jobs);
          outs = map (\<lambda>(n, e). resolve_environment (by_env jobs results n) (n, e)) envs
      in (r\<lparr>root_environments := map fst outs\<rparr>, concat (map snd outs)))"

fun collect_membership ::
  "string list \<Rightarrow> ('e + string list) list \<Rightarrow> membership \<times> 'e resolve_error list \<Rightarrow> membership \<times> 'e resolve_error list" where
  "collect_membership (fid # ids) (r # rs) (m, errs) =
     (case r of
        Inl e \<Rightarrow> collect_membership ids rs (m, errs @ [MembershipFolder fid e])
      | Inr ps \<Rightarrow> collect_membership ids rs (put fid ps m, errs))"
| "collect_membership _ _ st = st"

definition resolve_membership ::
  "(nat \<Rightarrow> string \<Rightarrow> 'e + string list) \<Rightarrow> string list \<Rightarrow> membership \<times> 'e resolve_error list" where
  "resolve_membership resolver ids =
     (let unique = dedup [] ids in collect_membership unique (resolve_all resolver unique) ([], []))"

section \<open>Lemmas\<close>

definition last_known :: "folder_cache \<Rightarrow> string \<Rightarrow> string list option" where
  "last_known c k = map_option fst (lookup c k)"

lemma last_known_simps:
  "last_known [] k = None" "last_known (stamp c k v t0) k' = (if k' = k then Some v else last_known c k')"
  by (simp_all add: last_known_def stamp_def)

interpretation folders: stale_cache "[]" "fresh (folder_ttl ttl)" stamp "within (folder_ttl ttl)" last_known for ttl
  by unfold_locales (simp_all add: fresh_empty fresh_stamp last_known_simps)

text \<open>The fallback wraps the cache discipline: only a leading call whose fetch failed differs.\<close>

lemma projects_in_folder_cached_get:
  "projects_in_folder cache_ttl k t1 t2 flight t3 c =
     (case cached_get (fresh (folder_ttl cache_ttl)) stamp (Call k t1 t2 flight t3) c of
        (Inl e, c') \<Rightarrow>
          (case flight of Join _ \<Rightarrow> (Inl e, c')
           | Lead _ \<Rightarrow> (case last_known c k of Some ps \<Rightarrow> (Inr ps, c') | None \<Rightarrow> (Inl e, c')))
      | (Inr ps, c') \<Rightarrow> (Inr ps, c'))"
  by (auto simp: projects_in_folder_def cached_get_def fresh_def stamp_def last_known_def Let_def
      split: option.split flight.split sum.split)

lemma add_projects_dedup:
  "add_projects ps (seen, merged) = (rev (dedup seen ps) @ seen, merged @ dedup seen ps)"
proof (induction ps arbitrary: seen merged)
  case (Cons p ps)
  then show ?case by (cases "p \<in> set seen") simp_all
qed simp

definition successes :: "('e + string list) list \<Rightarrow> string list" where
  "successes rs = concat (map (\<lambda>r. case r of Inl _ \<Rightarrow> [] | Inr ps \<Rightarrow> ps) rs)"

lemma dedup_append': "dedup seen (xs @ ys) = dedup seen xs @ dedup (rev (dedup seen xs) @ seen) ys"
proof -
  have "dedup (rev xs @ seen) ys = dedup (rev (dedup seen xs) @ seen) ys"
    by (rule dedup_cong) auto
  then show ?thesis by (simp add: dedup_append)
qed

lemma merge_folders_dedup:
  "length fs = length rs \<Longrightarrow>
     merge_folders name fs rs (seen, merged) errs =
       (merged @ dedup seen (successes rs),
        errs @ concat (map (\<lambda>(f, r). case r of Inl e \<Rightarrow> [EnvironmentFolder name f e] | Inr _ \<Rightarrow> []) (zip fs rs)))"
proof (induction fs rs arbitrary: seen merged errs rule: list_induct2)
  case (Cons f fs r rs)
  then show ?case
    by (cases r) (simp_all add: add_projects_dedup successes_def dedup_append')
qed (simp add: successes_def)

lemma length_resolve_all [simp]: "length (resolve_all resolver ids) = length ids"
  by (simp add: resolve_all_def)

lemma by_env_append:
  "length a = length x \<Longrightarrow> by_env (a @ b) (x @ y) n = by_env a x n @ by_env b y n"
  by (simp add: by_env_def)

lemma by_env_same: "length xs = length fs \<Longrightarrow> by_env (map (Pair n) fs) xs n = xs"
  by (induction xs fs rule: list_induct2) (simp_all add: by_env_def)

lemma by_env_other: "n \<notin> fst ` set jobs \<Longrightarrow> by_env jobs xs n = []"
  by (auto simp: by_env_def filter_empty_conv dest: set_zip_leftD)

lemma length_by_env:
  assumes "distinct (keys envs)" and "(n, e) \<in> set envs" and "length results = length (folder_jobs envs)"
  shows "length (by_env (folder_jobs envs) results n) = length (env_folders e)"
  using assms
proof (induction envs arbitrary: results)
  case (Cons ne envs)
  obtain n0 e0 where ne: "ne = (n0, e0)" by (cases ne)
  let ?k = "length (env_folders e0)"
  have jobs: "folder_jobs (ne # envs) = map (Pair n0) (env_folders e0) @ folder_jobs envs"
    by (simp add: folder_jobs_def ne)
  have split: "results = take ?k results @ drop ?k results" by simp
  have len: "length (map (Pair n0) (env_folders e0)) = length (take ?k results)"
    using Cons.prems(3) jobs by simp
  have pieces: "by_env (folder_jobs (ne # envs)) results n =
      by_env (map (Pair n0) (env_folders e0)) (take ?k results) n @ by_env (folder_jobs envs) (drop ?k results) n"
    unfolding jobs by (subst (1) split, rule by_env_append [OF len])
  show ?case
  proof (cases "n = n0")
    case True
    with Cons.prems(1,2) ne have "e = e0" "n \<notin> set (keys envs)" by (auto simp: keys_def rev_image_eqI)
    then have "n \<notin> fst ` set (folder_jobs envs)" by (auto simp: folder_jobs_def keys_def rev_image_eqI)
    with True \<open>e = e0\<close> len show ?thesis unfolding pieces by (simp add: by_env_other by_env_same)
  next
    case False
    then have "n \<notin> fst ` set (map (Pair n0) (env_folders e0))" by auto
    with False Cons ne jobs show ?thesis unfolding pieces by (simp add: by_env_other keys_def)
  qed
qed simp

lemma resolve_environment_spec:
  assumes "length rs = length (env_folders e)"
  shows "resolve_environment rs (n, e) =
     (if env_folders e = [] then ((n, e), [])
      else ((n, e\<lparr>env_projects := dedup [] (env_projects e @ successes rs)\<rparr>),
            concat (map (\<lambda>(f, r). case r of Inl err \<Rightarrow> [EnvironmentFolder n f err] | Inr _ \<Rightarrow> []) (zip (env_folders e) rs))))"
proof -
  have "dedup (rev (dedup [] (env_projects e))) (successes rs) = dedup (rev (env_projects e)) (successes rs)"
    by (rule dedup_cong) auto
  with assms show ?thesis
    by (simp add: resolve_environment_def add_projects_dedup merge_folders_dedup dedup_append)
qed

text \<open>What resolution does to one environment, given the outcomes of its own folders.\<close>

definition resolved_environment :: "('e + string list) list \<Rightarrow> environment \<Rightarrow> environment" where
  "resolved_environment rs e =
     (if env_folders e = [] then e else e\<lparr>env_projects := dedup [] (env_projects e @ successes rs)\<rparr>)"

lemma resolve_config_environments:
  assumes "distinct (keys (root_environments r))"
  shows "root_environments (fst (resolve_config resolver r)) =
     map (\<lambda>(n, e). (n, resolved_environment
       (by_env (folder_jobs (root_environments r))
          (resolve_all resolver (map snd (folder_jobs (root_environments r)))) n) e)) (root_environments r)"
proof -
  have "fst (resolve_environment (by_env jobs results n) (n, e)) = (n, resolved_environment (by_env jobs results n) e)"
    if "(n, e) \<in> set (root_environments r)" "jobs = folder_jobs (root_environments r)"
      "results = resolve_all resolver (map snd jobs)" for n e jobs results
    using resolve_environment_spec [OF length_by_env [OF assms that(1), of results]] that
    by (simp add: resolved_environment_def)
  then show ?thesis by (auto simp: resolve_config_def Let_def)
qed

section \<open>Properties\<close>

text \<open>C20: once a folder has been resolved, a leading call never fails again: it returns this pass's
  listing, a live cached one, or the last one known; and a failed listing leaves the cache alone.\<close>

theorem projects_in_folder_stale:
  assumes "last_known cache folder = Some known"
    and "projects_in_folder cache_ttl folder t1 t2 (Lead fetch) t3 cache = (r, cache')"
  shows "(r = Inr known \<and> cache' = cache) \<or>
     (\<exists>ids. fetch = Inr ids \<and> r = Inr ids \<and> last_known cache' folder = Some ids)"
proof -
  obtain at where "lookup cache folder = Some (known, at)"
    using assms(1) by (auto simp: last_known_def)
  with assms(2) show ?thesis
    by (auto simp: projects_in_folder_def Let_def last_known_def split: if_splits sum.splits)
qed

theorem projects_in_folder_stale_witness:
  "\<exists>r cache'. projects_in_folder 0 ''7'' (90 * second) (90 * second) (Lead (Inl ())) (91 * second)
      [(''7'', ([''p1''], 0))] = (r, cache') \<and> r = Inr [''p1'']"
proof -
  obtain r cache' where run: "projects_in_folder 0 ''7'' (90 * second) (90 * second) (Lead (Inl ())) (91 * second)
      [(''7'', ([''p1''], 0))] = (r, cache')" by (metis surj_pair)
  have "last_known [(''7'', ([''p1''], 0))] ''7'' = Some [''p1'']" by (simp add: last_known_def)
  from projects_in_folder_stale [OF this run] run show ?thesis by auto
qed

text \<open>Resolving a configuration changes nothing but the project lists of environments with folders:
  such a list becomes the explicit projects followed by those of its own folders that resolved, each
  project once, in order; a folder that failed contributes nothing and disturbs no other.\<close>

theorem resolve_config_spec:
  assumes "distinct (keys (root_environments r))"
  shows "fst (resolve_config resolver r) = r\<lparr>root_environments :=
     map (\<lambda>(n, e). (n, resolved_environment
       (by_env (folder_jobs (root_environments r))
          (resolve_all resolver (map snd (folder_jobs (root_environments r)))) n) e)) (root_environments r)\<rparr>"
  using resolve_config_environments [OF assms, of resolver]
  by (simp add: resolve_config_def Let_def)

definition folder_env :: "string list \<Rightarrow> string list \<Rightarrow> environment" where
  "folder_env ps fs = \<lparr>env_projects = ps, env_folders = fs, env_region = ''eu'',
     env_sync = \<lparr>sp_auto = None, sp_retry = None, sp_self_heal = None, sp_windows = None, sp_observe = None\<rparr>,
     env_notify = \<lparr>no_slack = [], no_rules = None\<rparr>\<rparr>"

definition folder_root :: root where
  "folder_root = example_root\<lparr>root_environments := [(''prd'', folder_env [''p1''] [''7'']), (''dev'', folder_env [''p9''] [])],
     root_apps := [\<lparr>app_name = ''api'', app_env = ''dev'', app_source = \<lparr>src_repo = ''o/r'', src_path = ''api.yaml'', src_branch = []\<rparr>,
        app_overrides = [], app_exclude = [], app_ignore_fields = [], app_ignore_preconditions = []\<rparr>,
      \<lparr>app_name = ''web'', app_env = ''prd'', app_source = \<lparr>src_repo = ''o/r'', src_path = ''web.yaml'', src_branch = []\<rparr>,
        app_overrides = [(''p2'', \<lparr>ov_region = ''us'', ov_track = [], ov_version = []\<rparr>)], app_exclude = [],
        app_ignore_fields = [], app_ignore_preconditions = []\<rparr>]\<rparr>"

theorem resolve_config_spec_witness:
  "root_environments (fst (resolve_config (\<lambda>_ _. Inr [''p1'', ''p2''] :: unit + string list) folder_root)) =
     [(''prd'', folder_env [''p1'', ''p2''] [''7'']), (''dev'', folder_env [''p9''] [])]"
proof -
  have "distinct (keys (root_environments folder_root))" by (simp add: folder_root_def keys_def)
  from resolve_config_spec [OF this, of "\<lambda>_ _. Inr [''p1'', ''p2''] :: unit + string list"] show ?thesis
    by (simp add: folder_root_def folder_env_def resolved_environment_def by_env_def folder_jobs_def resolve_all_def
        successes_def)
qed

text \<open>An outage of one environment's folder can stop every other environment: when an app overrides
  a project that only the folder provides, the fallback to the explicit list makes \<open>Expand\<close> reject the
  whole configuration, although it expands, units of the other environment included, when the folder
  resolves.\<close>

theorem folder_outage_blocks_expand:
  "config_parse (\<lambda>_. Inr folder_root) (\<lambda>_. None) [] = Inr folder_root \<and>
   (\<exists>units. expand (fst (resolve_config (\<lambda>_ _. Inr [''p1'', ''p2''] :: unit + string list) folder_root)) = Inr units \<and>
      map su_key units = [''api/p9'', ''web/p1'', ''web/p2'']) \<and>
   expand (fst (resolve_config (\<lambda>_ _. Inl () :: unit + string list) folder_root)) =
     Inl (OverrideUnknownProject ''web'' ''p2'')"
proof (intro conjI)
  show "config_parse (\<lambda>_. Inr folder_root) (\<lambda>_. None) [] = Inr folder_root"
    by (simp add: config_parse_def config_check_def folder_root_def folder_env_def example_root_def first_some_Cons
        first_some_Nil lookup_environment_def app_declared_projects_def unit_key_def check_environment_def
        check_overrides_def check_ignores_def valid_managed_fields_def policy_windows_def
        validate_sync_not_implemented_def check_env_notify_def check_def)
  show "\<exists>units. expand (fst (resolve_config (\<lambda>_ _. Inr [''p1'', ''p2''] :: unit + string list) folder_root)) = Inr units \<and>
      map su_key units = [''api/p9'', ''web/p1'', ''web/p2'']"
    by (simp add: resolve_config_def resolve_environment_def by_env_def folder_jobs_def resolve_all_def folder_root_def
        folder_env_def example_root_def expand_def lookup_environment_def unit_region_def unit_key_def su_key_def
        check_app_projects_def first_some_Cons first_some_Nil check_def)
  show "expand (fst (resolve_config (\<lambda>_ _. Inl () :: unit + string list) folder_root)) =
      Inl (OverrideUnknownProject ''web'' ''p2'')"
    by (simp add: resolve_config_def resolve_environment_def by_env_def folder_jobs_def resolve_all_def folder_root_def
        folder_env_def example_root_def expand_def lookup_environment_def unit_region_def unit_key_def
        check_app_projects_def first_some_Cons first_some_Nil check_def)
qed

end
