(* ===== verification/Preconditions.thy ===== *)
theory Preconditions
  imports Expiring_Cache Manifest
begin

text \<open>
  Preconditions (\<open>internal/precondition\<close>): the \<open>requires\<close> entries of a service definition are checked in
  order against a target project; the Pub/Sub checker caches what it learns per kind, project and name.
  The Pub/Sub client is an argument: its construction per project and the outcome of an existence call.
\<close>

section \<open>Model\<close>

datatype 'e checker_error = CreatePubsubClient string string | ExistsFailed 'e

record ('s, 'e) checker =
  topic_exists :: "'s \<Rightarrow> string \<Rightarrow> string \<Rightarrow> ('e + bool) \<times> 's"
  subscription_exists :: "'s \<Rightarrow> string \<Rightarrow> string \<Rightarrow> ('e + bool) \<times> 's"

datatype 'e precondition_error =
    UnknownPrecondition string
  | CheckingPrecondition string string 'e
  | PreconditionFailed string string string

fun precondition_check ::
  "('s, 'e) checker \<Rightarrow> string \<Rightarrow> precondition list \<Rightarrow> 's \<Rightarrow> 'e precondition_error option \<times> 's" where
  "precondition_check ck project [] s = (None, s)"
| "precondition_check ck project (req # reqs) s =
     (case (if pc_type req = ''pubsubTopic'' then Some (topic_exists ck s project (pc_name req))
            else if pc_type req = ''pubsubSubscription'' then Some (subscription_exists ck s project (pc_name req))
            else None) of
        None \<Rightarrow> (Some (UnknownPrecondition (pc_type req)), s)
      | Some (Inl e, s') \<Rightarrow> (Some (CheckingPrecondition (pc_type req) (pc_name req) e), s')
      | Some (Inr ok, s') \<Rightarrow>
          if ok then precondition_check ck project reqs s'
          else (Some (PreconditionFailed (pc_type req) (pc_name req) project), s'))"

section \<open>The Pub/Sub checker\<close>

definition default_exists_ttl :: int where "default_exists_ttl = 60 * second"

record gcp_checker =
  ck_ttl :: int
  ck_clients :: "string list"
  ck_exists :: "(string \<times> (bool \<times> time)) list"

definition new_gcp_checker :: gcp_checker where
  "new_gcp_checker = \<lparr>ck_ttl = 0, ck_clients = [], ck_exists = []\<rparr>"

definition exists_key :: "string \<Rightarrow> string \<Rightarrow> string \<Rightarrow> string" where
  "exists_key kind project name = kind @ CHR ''/'' # project @ CHR ''/'' # name"

definition pubsub_client :: "(string \<Rightarrow> string option) \<Rightarrow> string \<Rightarrow> gcp_checker \<Rightarrow> 'e checker_error option \<times> gcp_checker" where
  "pubsub_client dial project c =
     (if project \<in> set (ck_clients c) then (None, c)
      else case dial project of
        Some e \<Rightarrow> (Some (CreatePubsubClient project e), c)
      | None \<Rightarrow> (None, c\<lparr>ck_clients := project # ck_clients c\<rparr>))"

definition cached_exists :: "gcp_checker \<Rightarrow> int \<Rightarrow> string \<Rightarrow> time \<Rightarrow> bool option" where
  "cached_exists c ttl key now =
     (case lookup (ck_exists c) key of
        None \<Rightarrow> None
      | Some (ex, fetched_at) \<Rightarrow> if now - fetched_at \<ge> ttl then None else Some ex)"

definition exists_ttl :: "gcp_checker \<Rightarrow> int" where
  "exists_ttl c = (if ck_ttl c \<le> 0 then default_exists_ttl else ck_ttl c)"

text \<open>
  One call: \<open>flight\<close> is the shared result when the call joins a flight in progress, and otherwise the
  outcome of its own remote call, if it comes to that.
\<close>

definition check_exists ::
  "(string \<Rightarrow> string option) \<Rightarrow> string \<Rightarrow> string \<Rightarrow> string \<Rightarrow> time \<Rightarrow> time \<Rightarrow> ('e checker_error, bool) flight \<Rightarrow> time \<Rightarrow>
     gcp_checker \<Rightarrow> ('e checker_error + bool) \<times> gcp_checker" where
  "check_exists dial kind project name t1 t2 flight t3 c =
     (let key = exists_key kind project name; ttl = exists_ttl c in
      case cached_exists c ttl key t1 of
        Some ex \<Rightarrow> (Inr ex, c)
      | None \<Rightarrow>
         (case flight of
            Join r \<Rightarrow> (r, c)
          | Lead fetch \<Rightarrow>
             (case cached_exists c ttl key t2 of
                Some ex \<Rightarrow> (Inr ex, c)
              | None \<Rightarrow>
                 (case pubsub_client dial project c of
                    (Some e, c') \<Rightarrow> (Inl e, c')
                  | (None, c') \<Rightarrow>
                     (case fetch of
                        Inl e \<Rightarrow> (Inl e, c')
                      | Inr ex \<Rightarrow> (Inr ex, c'\<lparr>ck_exists := put key (ex, t3) (ck_exists c')\<rparr>))))))"

section \<open>Lemmas\<close>

text \<open>\<open>TopicExists\<close> and \<open>SubscriptionExists\<close>: the two questions, each asked of the client of its project. A call that
  joins another's flight is given its result.\<close>

record 'e pubsub =
  ps_dial :: "string \<Rightarrow> string option"
  ps_topic :: "string \<Rightarrow> string \<Rightarrow> 'e + bool"
  ps_subscription :: "string \<Rightarrow> string \<Rightarrow> 'e + bool"

definition exists_flight :: "('e checker_error + bool) option \<Rightarrow> 'e + bool \<Rightarrow> ('e checker_error, bool) flight" where
  "exists_flight joined answer =
     (case joined of Some r \<Rightarrow> Join r | None \<Rightarrow> Lead (case answer of Inl e \<Rightarrow> Inl (ExistsFailed e) | Inr b \<Rightarrow> Inr b))"

definition gcp_topic_exists ::
  "'e pubsub \<Rightarrow> string \<Rightarrow> string \<Rightarrow> time \<Rightarrow> time \<Rightarrow> ('e checker_error + bool) option \<Rightarrow> time \<Rightarrow>
     gcp_checker \<Rightarrow> ('e checker_error + bool) \<times> gcp_checker" where
  "gcp_topic_exists ps project name t1 t2 joined t3 c =
     check_exists (ps_dial ps) ''topic'' project name t1 t2 (exists_flight joined (ps_topic ps project name)) t3 c"

definition gcp_subscription_exists ::
  "'e pubsub \<Rightarrow> string \<Rightarrow> string \<Rightarrow> time \<Rightarrow> time \<Rightarrow> ('e checker_error + bool) option \<Rightarrow> time \<Rightarrow>
     gcp_checker \<Rightarrow> ('e checker_error + bool) \<times> gcp_checker" where
  "gcp_subscription_exists ps project name t1 t2 joined t3 c =
     check_exists (ps_dial ps) ''sub'' project name t1 t2 (exists_flight joined (ps_subscription ps project name)) t3 c"

lemma pubsub_client_exists [simp]: "ck_exists (snd (pubsub_client dial project c)) = ck_exists c"
  and pubsub_client_ttl [simp]: "ck_ttl (snd (pubsub_client dial project c)) = ck_ttl c"
  by (auto simp: pubsub_client_def split: option.split)

definition store_exists :: "gcp_checker \<Rightarrow> string \<Rightarrow> bool \<Rightarrow> time \<Rightarrow> gcp_checker" where
  "store_exists c key ex t = c\<lparr>ck_exists := put key (ex, t) (ck_exists c)\<rparr>"

interpretation exists_cache: expiring_cache new_gcp_checker "\<lambda>c. cached_exists c ttl" store_exists "within ttl" for ttl
  by unfold_locales (auto simp: cached_exists_def new_gcp_checker_def store_exists_def within_def)

text \<open>What a call answers: a live entry, the shared result, or its own fetch, which it then records.\<close>

lemma check_exists_cases:
  fixes flight :: "('e checker_error, bool) flight"
  assumes "check_exists dial kind project name t1 t2 flight t3 c = (Inr ex, c')"
  shows "(\<exists>t \<in> {t1, t2}. cached_exists c (exists_ttl c) (exists_key kind project name) t = Some ex \<and> c' = c) \<or>
     (flight = Join (Inr ex) \<and> c' = c) \<or>
     (flight = Lead (Inr ex) \<and> ck_exists c' = put (exists_key kind project name) (ex, t3) (ck_exists c))"
proof -
  have same: "ck_exists c1 = ck_exists c" if "pubsub_client dial project c = (ce :: 'e checker_error option, c1)" for ce c1
    using that by (auto simp: pubsub_client_def split: option.splits if_splits)
  let ?key = "exists_key kind project name"
  show ?thesis
  proof (cases "cached_exists c (exists_ttl c) ?key t1")
    case (Some a)
    with assms show ?thesis by (simp add: check_exists_def)
  next
    case miss1: None
    show ?thesis
    proof (cases flight)
      case (Join r)
      with assms miss1 show ?thesis by (auto simp: check_exists_def Let_def split: sum.splits)
    next
      case (Lead fetch)
      with assms miss1 same show ?thesis
        by (auto simp: check_exists_def Let_def split: option.splits sum.splits prod.splits)
    qed
  qed
qed

lemma exists_key_inj:
  assumes "exists_key k p n = exists_key k' p' n'"
    and "CHR ''/'' \<notin> set k \<union> set p \<union> set k' \<union> set p'"
  shows "k = k' \<and> p = p' \<and> n = n'"
  using assms split_at_inj [of k "CHR ''/''" "p @ CHR ''/'' # n" k'] split_at_inj [of p "CHR ''/''" n p']
  by (simp add: exists_key_def)

text \<open>An oracle that answers every question the same way: the checker as a function of the world.\<close>

definition world_checker :: "(string \<Rightarrow> string \<Rightarrow> string \<Rightarrow> 'e + bool) \<Rightarrow> (unit, 'e) checker" where
  "world_checker ask = \<lparr>topic_exists = (\<lambda>s p n. (ask ''topic'' p n, s)), subscription_exists = (\<lambda>s p n. (ask ''sub'' p n, s))\<rparr>"

definition satisfied :: "(string \<Rightarrow> string \<Rightarrow> string \<Rightarrow> 'e + bool) \<Rightarrow> string \<Rightarrow> precondition \<Rightarrow> bool" where
  "satisfied ask project req \<longleftrightarrow>
     (pc_type req = ''pubsubTopic'' \<and> ask ''topic'' project (pc_name req) = Inr True) \<or>
     (pc_type req = ''pubsubSubscription'' \<and> ask ''sub'' project (pc_name req) = Inr True)"

text \<open>The caching checker at one instant, without other callers, as the interface \<open>Check\<close> asks.\<close>

definition gcp_as_checker :: "'e pubsub \<Rightarrow> time \<Rightarrow> (gcp_checker, 'e checker_error) checker" where
  "gcp_as_checker ps t =
     \<lparr>topic_exists = (\<lambda>c project name. gcp_topic_exists ps project name t t None t c),
      subscription_exists = (\<lambda>c project name. gcp_subscription_exists ps project name t t None t c)\<rparr>"

definition pubsub_answer :: "'e pubsub \<Rightarrow> string \<Rightarrow> string \<Rightarrow> string \<Rightarrow> 'e + bool" where
  "pubsub_answer ps kind project name = (if kind = ''topic'' then ps_topic ps project name else ps_subscription ps project name)"

lemma gcp_as_checker_asks:
  "topic_exists (gcp_as_checker ps t) c project name =
     check_exists (ps_dial ps) ''topic'' project name t t (exists_flight None (pubsub_answer ps ''topic'' project name)) t c"
  "subscription_exists (gcp_as_checker ps t) c project name =
     check_exists (ps_dial ps) ''sub'' project name t t (exists_flight None (pubsub_answer ps ''sub'' project name)) t c"
  by (simp_all add: gcp_as_checker_def gcp_topic_exists_def gcp_subscription_exists_def pubsub_answer_def)

text \<open>A cache is accurate for a project when its entries are what Pub/Sub answers.\<close>

definition accurate :: "'e pubsub \<Rightarrow> string \<Rightarrow> gcp_checker \<Rightarrow> bool" where
  "accurate ps project c \<longleftrightarrow>
     (\<forall>kind \<in> {''topic'', ''sub''}. \<forall>name b at.
        lookup (ck_exists c) (exists_key kind project name) = Some (b, at) \<longrightarrow> pubsub_answer ps kind project name = Inr b)"

lemma accurate_put:
  assumes "accurate ps project c" and "kind \<in> {''topic'', ''sub''}" and "CHR ''/'' \<notin> set project"
    and "pubsub_answer ps kind project name = Inr b" and "ck_exists c' = put (exists_key kind project name) (b, at) (ck_exists c)"
  shows "accurate ps project c'"
proof -
  have "kind' = kind \<and> name' = name" if "exists_key kind' project name' = exists_key kind project name" "kind' \<in> {''topic'', ''sub''}" for kind' name'
    using exists_key_inj [OF that(1)] that(2) assms(2,3) by auto
  then show ?thesis using assms(1,2,4) unfolding accurate_def assms(5) lookup_put by (auto split: if_splits)
qed

lemma check_exists_asks:
  fixes ps :: "'e pubsub"
  assumes acc: "accurate ps project c" and kind: "kind \<in> {''topic'', ''sub''}" and slash: "CHR ''/'' \<notin> set project"
    and dial: "ps_dial ps project = None"
    and run: "check_exists (ps_dial ps) kind project name t t (exists_flight None (pubsub_answer ps kind project name)) t c = (r, c')"
  shows "accurate ps project c' \<and> (\<forall>b. r = Inr b \<longleftrightarrow> pubsub_answer ps kind project name = Inr b)"
proof (cases "cached_exists c (exists_ttl c) (exists_key kind project name) t")
  case (Some b)
  then have "pubsub_answer ps kind project name = Inr b"
    using acc kind by (auto simp: cached_exists_def accurate_def split: option.splits if_splits)
  with run acc Some show ?thesis by (auto simp: check_exists_def)
next
  case None
  obtain c1 where c1: "pubsub_client (ps_dial ps) project c = (None :: 'e checker_error option, c1)" "ck_exists c1 = ck_exists c"
    using dial by (cases "project \<in> set (ck_clients c)") (simp_all add: pubsub_client_def)
  show ?thesis
  proof (cases "pubsub_answer ps kind project name")
    case (Inl e)
    then have "r = Inl (ExistsFailed e)" "c' = c1"
      using run None c1(1) by (simp_all add: check_exists_def exists_flight_def Let_def)
    then show ?thesis using acc c1(2) Inl by (simp add: accurate_def)
  next
    case (Inr b)
    then have "r = Inr b" "ck_exists c' = put (exists_key kind project name) (b, t) (ck_exists c)"
      using run None c1 by (auto simp: check_exists_def exists_flight_def Let_def)
    with accurate_put [OF acc kind slash Inr] Inr show ?thesis by simp
  qed
qed

section \<open>Properties\<close>

text \<open>The check passes exactly when every required entry has a known type and exists in the target
  project; an unknown type, a failed call and a missing resource all block the sync.\<close>

theorem precondition_check_spec:
  "fst (precondition_check (world_checker ask) project reqs ()) = None \<longleftrightarrow> list_all (satisfied ask project) reqs"
  by (induction reqs) (auto simp: world_checker_def satisfied_def split: sum.split)

text \<open>The Pub/Sub checker answers with its own call's outcome, a shared one, or an entry recorded for
  the same kind, project and name within the TTL; distinct questions never share an entry.\<close>

theorem check_exists_sound:
  assumes "check_exists dial kind project name t1 t2 flight t3 c = (Inr ex, c')"
  shows "flight \<in> {Lead (Inr ex), Join (Inr ex)} \<or>
     (\<exists>at. (exists_key kind project name, (ex, at)) \<in> set (ck_exists c) \<and>
        (t1 - at < exists_ttl c \<or> t2 - at < exists_ttl c))"
  using check_exists_cases [OF assms]
  by (auto simp: cached_exists_def split: option.splits if_splits dest!: lookup_in)

theorem check_exists_sound_witness:
  "\<exists>c'. check_exists (\<lambda>_. None) ''topic'' ''p'' ''t'' 10 10 (Lead (Inl (ExistsFailed ()))) 11
       (new_gcp_checker\<lparr>ck_exists := [(''topic/p/t'', (True, 0))]\<rparr>) = (Inr True, c') \<and>
     (\<exists>at. (''topic/p/t'', (True, at)) \<in> set (ck_exists c'))"
proof -
  let ?c = "new_gcp_checker\<lparr>ck_exists := [(''topic/p/t'', (True, 0))]\<rparr>"
  have run: "check_exists (\<lambda>_. None) ''topic'' ''p'' ''t'' 10 10 (Lead (Inl (ExistsFailed ()))) 11 ?c = (Inr True, ?c)"
    by (simp add: check_exists_def cached_exists_def exists_key_def exists_ttl_def new_gcp_checker_def
        default_exists_ttl_def time_units)
  from check_exists_sound [OF this] have "\<exists>at. (''topic/p/t'', (True, at)) \<in> set (ck_exists ?c)"
    by (auto simp: exists_key_def)
  with run show ?thesis by blast
qed

text \<open>The cache is transparent: while Pub/Sub answers each question the same way, a check through the caching
  checker passes exactly when every required resource exists, and the cache stays accurate.\<close>

theorem cached_check_spec:
  assumes "accurate ps project c" and "CHR ''/'' \<notin> set project" and "ps_dial ps project = None"
    and "precondition_check (gcp_as_checker ps t) project reqs c = (failure, c')"
  shows "(failure = None \<longleftrightarrow> list_all (satisfied (pubsub_answer ps) project) reqs) \<and> accurate ps project c'"
  using assms(1,4)
proof (induction reqs arbitrary: c)
  case (Cons req reqs)
  let ?kind = "if pc_type req = ''pubsubTopic'' then ''topic'' else ''sub''"
  show ?case
  proof (cases "pc_type req \<in> {''pubsubTopic'', ''pubsubSubscription''}")
    case True
    obtain r c1 where run: "check_exists (ps_dial ps) ?kind project (pc_name req) t t
        (exists_flight None (pubsub_answer ps ?kind project (pc_name req))) t c = (r, c1)" by (metis surj_pair)
    have asks: "accurate ps project c1" "\<And>b. r = Inr b \<longleftrightarrow> pubsub_answer ps ?kind project (pc_name req) = Inr b"
      using check_exists_asks [OF Cons.prems(1) _ assms(2,3) run] by auto
    have "precondition_check (gcp_as_checker ps t) project (req # reqs) c =
        (case r of Inl e \<Rightarrow> (Some (CheckingPrecondition (pc_type req) (pc_name req) e), c1)
         | Inr ok \<Rightarrow> if ok then precondition_check (gcp_as_checker ps t) project reqs c1
             else (Some (PreconditionFailed (pc_type req) (pc_name req) project), c1))"
      using True run by (auto simp: gcp_as_checker_asks)
    moreover have "satisfied (pubsub_answer ps) project req \<longleftrightarrow> r = Inr True"
      using True asks(2) [of True] by (auto simp: satisfied_def)
    ultimately show ?thesis
      using Cons.prems(2) Cons.IH [OF asks(1)] asks(1) by (auto split: sum.splits if_splits)
  next
    case False
    with Cons.prems show ?thesis by (auto simp: satisfied_def)
  qed
qed simp

definition one_topic :: "unit pubsub" where
  "one_topic = \<lparr>ps_dial = (\<lambda>_. None), ps_topic = (\<lambda>p n. Inr (n = ''orders'')), ps_subscription = (\<lambda>_ _. Inl ())\<rparr>"

theorem cached_check_spec_witness:
  "\<exists>c'. precondition_check (gcp_as_checker one_topic 5) ''p''
       [\<lparr>pc_type = ''pubsubTopic'', pc_name = ''orders''\<rparr>, \<lparr>pc_type = ''pubsubTopic'', pc_name = ''orders''\<rparr>] new_gcp_checker = (None, c') \<and>
     accurate one_topic ''p'' c'"
proof -
  let ?reqs = "[\<lparr>pc_type = ''pubsubTopic'', pc_name = ''orders''\<rparr>, \<lparr>pc_type = ''pubsubTopic'', pc_name = ''orders''\<rparr>]"
  obtain failure c' where run: "precondition_check (gcp_as_checker one_topic 5) ''p'' ?reqs new_gcp_checker = (failure, c')"
    by (metis surj_pair)
  have "accurate one_topic ''p'' new_gcp_checker" by (simp add: accurate_def new_gcp_checker_def)
  from cached_check_spec [OF this _ _ run] run show ?thesis
    by (auto simp: one_topic_def satisfied_def pubsub_answer_def)
qed

end
