(* ===== verification/Leader.thy ===== *)
theory Leader
  imports RunCD_Prelude
begin

text \<open>
  Leader election (\<open>internal/leader/lease.go\<close>): a single row in Postgres, claimed and renewed by one
  conditional \<open>UPDATE\<close>. The statement is a function of the row and the database's clock; a query may
  fail before it runs or after it ran, when only the acknowledgement is lost. \<open>lease_step\<close> is the
  system of all replicas sharing the row, each running \<open>Run\<close>'s loop.
\<close>

section \<open>The lease row\<close>

definition lease_ttl :: int where "lease_ttl = 30 * second"
definition renew_interval :: int where "renew_interval = 10 * second"
definition query_timeout :: int where "query_timeout = 5 * second"

record lease_row =
  lr_holder :: string
  lr_expires :: time

text \<open>The statement: the number of rows it changed, and the row after it.\<close>

definition claim_stmt :: "string \<Rightarrow> time \<Rightarrow> lease_row \<Rightarrow> nat \<times> lease_row" where
  "claim_stmt holder now row =
     (if lr_holder row = holder \<or> lr_expires row < now
      then (1, \<lparr>lr_holder = holder, lr_expires = now + lease_ttl\<rparr>) else (0, row))"

definition claim :: "string \<Rightarrow> time \<Rightarrow> fault \<Rightarrow> lease_row \<Rightarrow> (string + bool) \<times> lease_row" where
  "claim holder now fault row =
     (case exec_stmt fault (claim_stmt holder now) row of
        (Inl e, row') \<Rightarrow> (Inl e, row')
      | (Inr n, row') \<Rightarrow> (Inr (n = 1), row'))"

section \<open>One replica's loop\<close>

text \<open>An attempt, given \<open>Claim\<close>'s answer: the error returned, the new \<open>wasLeader\<close> and the callbacks made.\<close>

definition attempt :: "string + bool \<Rightarrow> bool \<Rightarrow> string option \<times> bool \<times> bool list" where
  "attempt answer was_leader =
     (case answer of
        Inl e \<Rightarrow> (if was_leader then (Some e, False, [False]) else (Some e, was_leader, []))
      | Inr ok \<Rightarrow> (if ok \<noteq> was_leader then (None, ok, [ok]) else (None, was_leader, [])))"

datatype run_event = Tick "string + bool" | Done
datatype run_result = Running | ClaimError string | Cancelled

fun run_loop :: "bool \<Rightarrow> run_event list \<Rightarrow> run_result \<times> bool list" where
  "run_loop was_leader [] = (Running, [])"
| "run_loop was_leader (Done # evs) = (Cancelled, if was_leader then [False] else [])"
| "run_loop was_leader (Tick answer # evs) =
     (case attempt answer was_leader of
        (Some e, _, cbs) \<Rightarrow> (ClaimError e, cbs)
      | (None, was_leader', cbs) \<Rightarrow> let (res, cbs') = run_loop was_leader' evs in (res, cbs @ cbs'))"

text \<open>\<open>Run\<close> attempts once before it waits for the ticker.\<close>

definition run :: "string + bool \<Rightarrow> run_event list \<Rightarrow> run_result \<times> bool list" where
  "run first evs = run_loop False (Tick first # evs)"

section \<open>All replicas\<close>

record lease_state =
  le_clock :: time
  le_row :: lease_row
  le_leading :: "string \<Rightarrow> bool"
  le_renewed :: "string \<Rightarrow> time"

text \<open>
  The clock advances while no leading replica misses the end of its next attempt, which starts
  within \<open>renew_interval\<close> of the previous one and ends within \<open>query_timeout\<close>. An attempt is one
  statement and the replica's reaction to its answer; a stopping replica reports that it no longer
  leads.
\<close>

inductive lease_step :: "lease_state \<Rightarrow> lease_state \<Rightarrow> bool" where
  clock: "0 \<le> d \<Longrightarrow> \<forall>h. le_leading s h \<longrightarrow> le_clock s + d \<le> le_renewed s h + renew_interval + query_timeout \<Longrightarrow>
     lease_step s (s\<lparr>le_clock := le_clock s + d\<rparr>)"
| attempt: "claim h (le_clock s) fault (le_row s) = (answer, row) \<Longrightarrow>
     attempt answer (le_leading s h) = (err, leads, cbs) \<Longrightarrow>
     lease_step s (s\<lparr>le_row := row, le_leading := (le_leading s)(h := leads),
       le_renewed := (if answer = Inr True then (le_renewed s)(h := le_clock s) else le_renewed s)\<rparr>)"
| stop: "lease_step s (s\<lparr>le_leading := (le_leading s)(h := False)\<rparr>)"

inductive_cases lease_stepE: "lease_step s t"

inductive lease_reachable :: "lease_state \<Rightarrow> bool" where
  init: "\<forall>h. \<not> le_leading s h \<Longrightarrow> lease_reachable s"
| step: "lease_reachable s \<Longrightarrow> lease_step s t \<Longrightarrow> lease_reachable t"

section \<open>Lemmas\<close>

lemma claim_stmt_cases:
  assumes "claim_stmt h now row = (n, row')"
  shows "(n = 1 \<and> row' = \<lparr>lr_holder = h, lr_expires = now + lease_ttl\<rparr> \<and> (lr_holder row = h \<or> lr_expires row < now)) \<or>
     (n = 0 \<and> row' = row \<and> lr_holder row \<noteq> h \<and> now \<le> lr_expires row)"
  using assms by (auto simp: claim_stmt_def split: if_splits)

lemma claim_cases:
  assumes "claim h now fault row = (answer, row')"
  obtains (held) "answer = Inr True" "row' = \<lparr>lr_holder = h, lr_expires = now + lease_ttl\<rparr>" "lr_holder row = h \<or> lr_expires row < now"
  | (refused) "answer = Inr False" "row' = row" "lr_holder row \<noteq> h"
  | (failed) e where "answer = Inl e" "row' = row"
  | (lost) e where "answer = Inl e" "row' = \<lparr>lr_holder = h, lr_expires = now + lease_ttl\<rparr>" "lr_holder row = h \<or> lr_expires row < now"
  using assms by (cases fault) (auto simp: claim_def claim_stmt_def split: if_splits)

lemma attempt_leads:
  "attempt answer was = (err, leads, cbs) \<Longrightarrow> leads \<longleftrightarrow> answer = Inr True"
  by (auto simp: attempt_def split: sum.splits if_splits)

text \<open>A leading replica still owns the row, and its lease has not run out.\<close>

definition lease_inv :: "lease_state \<Rightarrow> bool" where
  "lease_inv s \<longleftrightarrow>
     (\<forall>h. le_leading s h \<longrightarrow>
        lr_holder (le_row s) = h \<and> le_renewed s h + lease_ttl \<le> lr_expires (le_row s) \<and>
        le_clock s \<le> le_renewed s h + renew_interval + query_timeout)"

lemma renewal_in_time: "renew_interval + query_timeout < lease_ttl"
  by (simp add: renew_interval_def query_timeout_def lease_ttl_def time_units)

lemma lease_inv_leader:
  "lease_inv s \<Longrightarrow> le_leading s h \<Longrightarrow> lr_holder (le_row s) = h \<and> le_clock s < lr_expires (le_row s)"
  using renewal_in_time unfolding lease_inv_def by force

lemma lease_step_inv:
  assumes "lease_step s t" and inv: "lease_inv s"
  shows "lease_inv t"
  using assms(1)
proof (cases rule: lease_step.cases)
  case (clock d)
  then show ?thesis using inv by (simp add: lease_inv_def)
next
  case (attempt h fault answer row err leads cbs)
  note leads = attempt_leads [OF attempt(3)]
  have other: False if "le_leading s g" "g \<noteq> h" "lr_holder (le_row s) = h \<or> lr_expires (le_row s) < le_clock s" for g
    using lease_inv_leader [OF inv that(1)] that(2,3) by auto
  have pos: "0 \<le> renew_interval + query_timeout" "0 \<le> lease_ttl"
    by (simp_all add: renew_interval_def query_timeout_def lease_ttl_def time_units)
  from attempt(2) show ?thesis
  proof (cases rule: claim_cases)
    case held
    with attempt(1) leads other pos show ?thesis by (auto simp: lease_inv_def)
  next
    case refused
    with attempt(1) leads inv show ?thesis by (auto simp: lease_inv_def)
  next
    case failed
    with attempt(1) leads inv show ?thesis by (auto simp: lease_inv_def)
  next
    case lost
    with attempt(1) leads other show ?thesis by (auto simp: lease_inv_def)
  qed
next
  case (stop h)
  then show ?thesis using inv by (auto simp: lease_inv_def)
qed

lemma lease_inv_init: "\<forall>h. \<not> le_leading s h \<Longrightarrow> lease_inv s"
  by (simp add: lease_inv_def)

lemma lease_reachable_inv: "lease_reachable s \<Longrightarrow> lease_inv s"
  by (induction rule: lease_reachable.induct) (simp_all add: lease_inv_init lease_step_inv)

fun alternating :: "bool \<Rightarrow> bool list \<Rightarrow> bool" where
  "alternating b [] \<longleftrightarrow> True"
| "alternating b (c # cbs) \<longleftrightarrow> c = (\<not> b) \<and> alternating (\<not> b) cbs"

lemma run_loop_callbacks:
  "run_loop b evs = (res, cbs) \<Longrightarrow>
     alternating b cbs \<and> (res \<noteq> Running \<longrightarrow> (if cbs = [] then \<not> b else \<not> last cbs))"
proof (induction b evs arbitrary: res cbs rule: run_loop.induct)
  case (3 b answer evs)
  obtain err b' cbs1 where at: "attempt answer b = (err, b', cbs1)" by (metis surj_pair)
  have cbs1: "cbs1 = (if b' = b then [] else [b'])" "err \<noteq> None \<longrightarrow> \<not> b'"
    using at by (auto simp: attempt_def split: sum.splits if_splits)
  show ?case
  proof (cases err)
    case (Some e)
    with 3(2) at cbs1 show ?thesis by (auto split: if_splits)
  next
    case None
    then obtain cbs2 where "run_loop b' evs = (res, cbs2)" "cbs = cbs1 @ cbs2"
      using 3(2) at by (auto split: prod.splits)
    with 3(1) [OF at [symmetric]] None cbs1(1) show ?thesis by (auto split: if_splits)
  qed
qed auto

text \<open>A history of claims by any replicas: holder, instant and fault of each.\<close>

type_synonym claim_event = "string \<times> time \<times> fault"

definition claim_holder :: "claim_event \<Rightarrow> string" where "claim_holder = fst"
definition claim_time :: "claim_event \<Rightarrow> time" where "claim_time c = fst (snd c)"

lemma claim_event_simps [simp]: "claim_holder (h, t, f) = h" "claim_time (h, t, f) = t"
  by (simp_all add: claim_holder_def claim_time_def)

fun claim_answers :: "claim_event list \<Rightarrow> lease_row \<Rightarrow> (string + bool) list" where
  "claim_answers [] row = []"
| "claim_answers ((h, now, fault) # cls) row =
     (let (answer, row') = claim h now fault row in answer # claim_answers cls row')"

text \<open>From a row leased until after \<open>t + lease_ttl\<close> for \<open>a\<close>, another holder only succeeds after it.\<close>

lemma claims_exclude_from:
  assumes "sorted (map claim_time cls)" and "\<forall>c \<in> set cls. t \<le> claim_time c"
    and "lr_holder row = a \<and> t + lease_ttl \<le> lr_expires row \<or> (\<forall>c \<in> set cls. t + lease_ttl < claim_time c)"
    and "j < length cls" and "claim_answers cls row ! j = Inr True" and "claim_holder (cls ! j) \<noteq> a"
  shows "t + lease_ttl < claim_time (cls ! j)"
  using assms
proof (induction cls arbitrary: row j)
  case (Cons c cls)
  obtain h now fault where c: "c = (h, now, fault)" by (cases c)
  obtain answer row' where cl: "claim h now fault row = (answer, row')" by (metis surj_pair)
  have t: "t \<le> now" "\<forall>d \<in> set cls. now \<le> claim_time d"
    using Cons.prems(1,2) by (auto simp: c)
  show ?case
  proof (cases "\<forall>d \<in> set (c # cls). t + lease_ttl < claim_time d")
    case True
    with Cons.prems(4) show ?thesis by (meson nth_mem)
  next
    case False
    with Cons.prems(3) have row: "lr_holder row = a" "t + lease_ttl \<le> lr_expires row" by auto
    have next_row: "lr_holder row' = a \<and> t + lease_ttl \<le> lr_expires row' \<or> t + lease_ttl < now"
      using cl row t(1) by (cases rule: claim_cases) auto
    have later: "\<forall>d \<in> set cls. t + lease_ttl < claim_time d" if "t + lease_ttl < now"
      using that t(2) by force
    show ?thesis
    proof (cases j)
      case 0
      with Cons.prems(5,6) cl c have "answer = Inr True" "h \<noteq> a" by simp_all
      with cl row have "lr_expires row < now" by (cases rule: claim_cases) auto
      with 0 c row show ?thesis by simp
    next
      case (Suc k)
      have "t + lease_ttl < claim_time (cls ! k)"
        using Cons.prems next_row later cl c Suc by (intro Cons.IH [of row']) auto
      with Suc show ?thesis by simp
    qed
  qed
qed simp

lemma claims_exclude_aux:
  assumes "sorted (map claim_time cls)" and "i < j" and "j < length cls"
    and "claim_answers cls row ! i = Inr True" and "claim_answers cls row ! j = Inr True"
  shows "claim_holder (cls ! i) = claim_holder (cls ! j) \<or> claim_time (cls ! i) + lease_ttl < claim_time (cls ! j)"
  using assms
proof (induction cls arbitrary: row i j)
  case (Cons c cls)
  obtain h now fault where c: "c = (h, now, fault)" by (cases c)
  obtain answer row' where cl: "claim h now fault row = (answer, row')" by (metis surj_pair)
  obtain k where k: "j = Suc k" using Cons.prems(2) by (cases j) auto
  show ?case
  proof (cases i)
    case 0
    with Cons.prems(4) cl c have "answer = Inr True" by simp
    with cl have "row' = \<lparr>lr_holder = h, lr_expires = now + lease_ttl\<rparr>" by (cases rule: claim_cases) auto
    moreover have "sorted (map claim_time cls)" "\<forall>d \<in> set cls. now \<le> claim_time d"
      using Cons.prems(1) by (auto simp: c)
    ultimately have "claim_holder (cls ! k) \<noteq> h \<Longrightarrow> now + lease_ttl < claim_time (cls ! k)"
      using claims_exclude_from [of cls now row' h k] Cons.prems(3,5) cl c k by simp
    with 0 c k show ?thesis by auto
  next
    case (Suc i')
    then show ?thesis using Cons.IH [of i' k row'] Cons.prems cl c k by simp
  qed
qed simp

section \<open>Properties\<close>

text \<open>No split brain: in every reachable state of any number of replicas, with statements that fail
  or whose acknowledgement is lost, at most one replica leads, and it holds the unexpired lease.\<close>

theorem lease_exclusive:
  assumes "lease_reachable s" and "le_leading s h"
  shows "lr_holder (le_row s) = h \<and> le_clock s < lr_expires (le_row s) \<and> (\<forall>g. le_leading s g \<longrightarrow> g = h)"
  using lease_inv_leader [OF lease_reachable_inv [OF assms(1)]] assms(2) by blast

definition lease_start :: lease_state where
  "lease_start = \<lparr>le_clock = 100, le_row = \<lparr>lr_holder = [], lr_expires = 0\<rparr>, le_leading = (\<lambda>_. False), le_renewed = (\<lambda>_. 0)\<rparr>"

theorem lease_exclusive_witness:
  "\<exists>s. lease_reachable s \<and> le_leading s ''a'' \<and> \<not> le_leading s ''b''"
proof -
  let ?row = "\<lparr>lr_holder = ''a'', lr_expires = 100 + lease_ttl\<rparr>"
  let ?s = "lease_start\<lparr>le_row := ?row, le_leading := (le_leading lease_start)(''a'' := True),
       le_renewed := (if (Inr True :: string + bool) = Inr True then (le_renewed lease_start)(''a'' := le_clock lease_start) else le_renewed lease_start)\<rparr>"
  have "claim ''a'' (le_clock lease_start) NoFault (le_row lease_start) = (Inr True, ?row)"
    by (simp add: claim_def claim_stmt_def lease_start_def)
  moreover have "attempt (Inr True) (le_leading lease_start ''a'') = (None, True, [True])"
    by (simp add: attempt_def lease_start_def)
  ultimately have "lease_step lease_start ?s" by (rule lease_step.attempt)
  moreover have "lease_reachable lease_start" by (rule lease_reachable.init) (simp add: lease_start_def)
  ultimately have reach: "lease_reachable ?s" using lease_reachable.step by blast
  have "le_leading ?s ''a''" "\<not> le_leading ?s ''b''" by (simp_all add: lease_start_def)
  with reach lease_exclusive [OF reach, of "''a''"] show ?thesis by blast
qed

text \<open>A lease that was acknowledged at one instant keeps every other holder out until it has run out,
  whatever renewals, failures and lost acknowledgements come in between and however late the replicas
  run: a later success of another holder comes more than a TTL after it.\<close>

theorem claims_exclude:
  assumes "sorted (map claim_time cls)" and "i < j" and "j < length cls"
    and "claim_answers cls row ! i = Inr True" and "claim_answers cls row ! j = Inr True"
    and "claim_holder (cls ! i) \<noteq> claim_holder (cls ! j)"
  shows "claim_time (cls ! i) + lease_ttl < claim_time (cls ! j)"
  using claims_exclude_aux [OF assms(1-5)] assms(6) by metis

theorem claims_exclude_witness:
  "claim_answers [(''a'', 0, NoFault), (''b'', 5, NoFault), (''b'', 31 * second, NoFault)]
     \<lparr>lr_holder = [], lr_expires = -1\<rparr> = [Inr True, Inr False, Inr True] \<and> 0 + lease_ttl < 31 * second"
proof -
  let ?cls = "[(''a'', 0, NoFault), (''b'', 5, NoFault), (''b'', 31 * second, NoFault)]"
  have run: "claim_answers ?cls \<lparr>lr_holder = [], lr_expires = -1\<rparr> = [Inr True, Inr False, Inr True]"
    by (simp add: claim_def claim_stmt_def lease_ttl_def time_units)
  have i: "claim_answers ?cls \<lparr>lr_holder = [], lr_expires = -1\<rparr> ! 0 = Inr True"
    and j: "claim_answers ?cls \<lparr>lr_holder = [], lr_expires = -1\<rparr> ! 2 = Inr True"
    unfolding run by simp_all
  have "claim_time (?cls ! 0) + lease_ttl < claim_time (?cls ! 2)"
    by (rule claims_exclude [OF _ _ _ i j]) (simp_all add: time_units)
  with run show ?thesis by simp
qed

text \<open>The leadership callback is told true and false alternately, true first, and whenever \<open>Run\<close>
  returns, by cancellation or by a failed claim, the last thing reported is that it does not lead.\<close>

theorem run_callbacks:
  assumes "run first evs = (res, cbs)"
  shows "alternating False cbs \<and> (res \<noteq> Running \<and> cbs \<noteq> [] \<longrightarrow> \<not> last cbs)"
  using run_loop_callbacks [OF assms [unfolded run_def]] by auto

theorem run_callbacks_witness:
  "run (Inr True) [Tick (Inr True), Tick (Inl ''down'')] = (ClaimError ''down'', [True, False]) \<and> alternating False [True, False]"
proof -
  have r: "run (Inr True) [Tick (Inr True), Tick (Inl ''down'')] = (ClaimError ''down'', [True, False])"
    by (simp add: run_def attempt_def)
  with run_callbacks [OF r] show ?thesis by blast
qed

end
