(* ===== verification/Sync_Result.thy ===== *)
theory Sync_Result
  imports Expander
begin

text \<open>
  What a reconcile pass reports about one unit (\<open>reconcile.Result\<close>), which the reconciler writes and
  the notifier reads. Status and health are the strings the tables hold; an instant that was never
  set is \<^term>\<open>None\<close>. The error is a parameter: its type belongs to the reconciler.
\<close>

record 'e sync_result =
  res_unit :: sync_unit
  res_desired_image :: string
  res_live_image :: string
  res_track :: string
  res_version :: string
  res_repository :: string
  res_resource_type :: string
  res_status :: string
  res_health :: string
  res_status_since :: "time option"
  res_health_since :: "time option"
  res_deploy_failed :: bool
  res_failure_message :: string
  res_err :: "'e option"
  res_observing :: bool

definition new_result :: "sync_unit \<Rightarrow> 'e sync_result" where
  "new_result u =
     \<lparr>res_unit = u, res_desired_image = [], res_live_image = [], res_track = [], res_version = [],
      res_repository = [], res_resource_type = [], res_status = [], res_health = [],
      res_status_since = None, res_health_since = None, res_deploy_failed = False,
      res_failure_message = [], res_err = None, res_observing = False\<rparr>"

definition status_invalid :: string where "status_invalid = ''Invalid''"
definition status_missing :: string where "status_missing = ''Missing''"

text \<open>\<open>sync.Auto != nil && *sync.Auto\<close>, and the same for \<open>Observe\<close>.\<close>

definition auto_sync_enabled :: "sync_policy \<Rightarrow> bool" where
  "auto_sync_enabled p \<longleftrightarrow> (case sp_auto p of None \<Rightarrow> False | Some b \<Rightarrow> b)"

definition observe_mode_enabled :: "sync_policy \<Rightarrow> bool" where
  "observe_mode_enabled p \<longleftrightarrow> (case sp_observe p of None \<Rightarrow> False | Some b \<Rightarrow> b)"

end
