(* ===== verification/Notify.thy ===== *)
theory Notify
  imports Sync_Result
begin

text \<open>
  The notifier (\<open>internal/notify\<close>): which rules and which sink apply to a unit, when a rule fires, and
  the claim, send, confirm protocol on the table \<open>notification_debounce\<close> that bounds how often it does.
  The world carries the table, the clock, the log of messages that left, and a script of what the
  environment does next: the time that passes before each statement and its fault, and the outcome
  of each send; past the end of the script nothing goes wrong and no time passes.
\<close>

section \<open>The debounce table\<close>

type_synonym debounce_key = "string \<times> string \<times> string"

record debounce_row =
  nd_last :: time
  nd_claim :: "time option"

type_synonym debounce_table = "(debounce_key \<times> debounce_row) list"

text \<open>The constraint \<open>^[A-Za-z0-9_-]+(:[0-9]+)?$\<close> on the column \<open>rule\<close>.\<close>

definition rule_check :: "string \<Rightarrow> bool" where
  "rule_check s =
     (case cut_at (CHR '':'') s of
        None \<Rightarrow> s \<noteq> [] \<and> list_all is_word_char s
      | Some (a, b) \<Rightarrow> a \<noteq> [] \<and> list_all is_word_char a \<and> b \<noteq> [] \<and> list_all is_digit b)"

definition claim_free :: "time \<Rightarrow> debounce_row \<Rightarrow> bool" where
  "claim_free now r \<longleftrightarrow> (case nd_claim r of None \<Rightarrow> True | Some t \<Rightarrow> t < now)"

text \<open>The three statements of \<open>maybeNotify\<close>; \<^term>\<open>None\<close> is a constraint violation.\<close>

definition notify_claim_stmt ::
  "int \<Rightarrow> int \<Rightarrow> debounce_key \<Rightarrow> time \<Rightarrow> debounce_table \<Rightarrow> bool option \<times> debounce_table" where
  "notify_claim_stmt interval ttl key now t =
     (if \<not> rule_check (snd (snd key)) then (None, t)
      else case lookup t key of
        None \<Rightarrow> (Some True, put key \<lparr>nd_last = 0, nd_claim = Some (now + ttl)\<rparr> t)
      | Some r \<Rightarrow>
          if nd_last r < now - interval \<and> claim_free now r
          then (Some True, put key (r\<lparr>nd_claim := Some (now + ttl)\<rparr>) t)
          else (Some False, t))"

definition release_claim_stmt :: "debounce_key \<Rightarrow> time \<Rightarrow> debounce_table \<Rightarrow> unit \<times> debounce_table" where
  "release_claim_stmt key now t =
     (case lookup t key of None \<Rightarrow> ((), t) | Some r \<Rightarrow> ((), put key (r\<lparr>nd_claim := None\<rparr>) t))"

definition confirm_sent_stmt :: "debounce_key \<Rightarrow> time \<Rightarrow> debounce_table \<Rightarrow> unit \<times> debounce_table" where
  "confirm_sent_stmt key now t =
     (case lookup t key of None \<Rightarrow> ((), t) | Some _ \<Rightarrow> ((), put key \<lparr>nd_last = now, nd_claim = None\<rparr> t))"

text \<open>The statements of the recovery protocol; \<open>'epoch'\<close> is instant 0.\<close>

definition recovery_claim_stmt :: "int \<Rightarrow> debounce_key \<Rightarrow> time \<Rightarrow> debounce_table \<Rightarrow> bool \<times> debounce_table" where
  "recovery_claim_stmt ttl key now t =
     (case lookup t key of
        None \<Rightarrow> (False, t)
      | Some r \<Rightarrow>
          if nd_last r > 0 \<and> claim_free now r
          then (True, put key (r\<lparr>nd_claim := Some (now + ttl)\<rparr>) t) else (False, t))"

definition recovery_clear_stmt :: "debounce_key \<Rightarrow> time \<Rightarrow> debounce_table \<Rightarrow> unit \<times> debounce_table" where
  "recovery_clear_stmt key now t =
     (case lookup t key of None \<Rightarrow> ((), t) | Some _ \<Rightarrow> ((), put key \<lparr>nd_last = 0, nd_claim = None\<rparr> t))"

section \<open>The world\<close>

datatype notify_message =
    SyncFailedMsg string string string
  | DegradedMsg string string time
  | GatedMsg string string time
  | RecoveredMsg string string

datatype send_outcome = Delivered | Undelivered string | is_silent: DeliveredButFailed string

record sent_message =
  sm_key :: debounce_key
  sm_sink :: string
  sm_at :: time
  sm_message :: notify_message

record notify_world =
  nw_table :: debounce_table
  nw_clock :: time
  nw_sent :: "sent_message list"
  nw_stmts :: "(int \<times> fault) list"
  nw_sends :: "(int \<times> send_outcome) list"

definition run_stmt :: "(time \<Rightarrow> debounce_table \<Rightarrow> 'r \<times> debounce_table) \<Rightarrow> notify_world \<Rightarrow> (string + 'r) \<times> notify_world" where
  "run_stmt stmt w =
     (let (delay, fault) = (case nw_stmts w of [] \<Rightarrow> (0, NoFault) | s # _ \<Rightarrow> s);
          now = nw_clock w + delay;
          (r, t) = exec_stmt fault (stmt now) (nw_table w)
      in (r, w\<lparr>nw_table := t, nw_clock := now, nw_stmts := tl (nw_stmts w)\<rparr>))"

text \<open>A sink is named by its webhook; a message may arrive although the call reports an error.\<close>

definition sink_send :: "debounce_key \<Rightarrow> string \<Rightarrow> notify_message \<Rightarrow> notify_world \<Rightarrow> string option \<times> notify_world" where
  "sink_send key sink msg w =
     (let (delay, outcome) = (case nw_sends w of [] \<Rightarrow> (0, Delivered) | s # _ \<Rightarrow> s);
          now = nw_clock w + delay;
          entry = \<lparr>sm_key = key, sm_sink = sink, sm_at = now, sm_message = msg\<rparr>;
          w = w\<lparr>nw_clock := now, nw_sends := tl (nw_sends w)\<rparr>
      in case outcome of
           Delivered \<Rightarrow> (None, w\<lparr>nw_sent := nw_sent w @ [entry]\<rparr>)
         | Undelivered e \<Rightarrow> (Some e, w)
         | DeliveredButFailed e \<Rightarrow> (Some e, w\<lparr>nw_sent := nw_sent w @ [entry]\<rparr>))"

section \<open>Rules\<close>

datatype notify_error =
    DebounceClaim debounce_key string
  | SendNotification debounce_key string
  | ConfirmSent debounce_key string
  | ClaimRecovery debounce_key string
  | ConfirmRecovery debounce_key string

record evaluator =
  ev_sink :: string
  ev_sinks :: "(string \<times> string) list"
  ev_rules :: "notify_rule list"
  ev_environments :: "(string \<times> environment) list"
  ev_interval :: int
  ev_claim_ttl :: int

definition default_debounce_interval :: int where "default_debounce_interval = hour"
definition notify_claim_ttl :: int where "notify_claim_ttl = 30 * second"

definition effective_interval :: "evaluator \<Rightarrow> int" where
  "effective_interval e = (if ev_interval e \<le> 0 then default_debounce_interval else ev_interval e)"

definition effective_claim_ttl :: "evaluator \<Rightarrow> int" where
  "effective_claim_ttl e = (if ev_claim_ttl e \<le> 0 then notify_claim_ttl else ev_claim_ttl e)"

definition rule_id :: "notify_rule \<Rightarrow> string" where
  "rule_id rule = (if nr_name rule \<noteq> [] then nr_name rule else nr_on rule)"

text \<open>
  Dereferencing a missing threshold panics in the code; \<open>rule_key\<close> is only used where it is present,
  and is the bare name there.
\<close>

definition rule_key :: "notify_rule \<Rightarrow> string" where
  "rule_key rule =
     (if nr_name rule \<noteq> [] then nr_name rule
      else if nr_on rule = ''healthDegraded''
      then (case nr_for_minutes rule of Some n \<Rightarrow> ''healthDegraded:'' @ show_int n | None \<Rightarrow> [])
      else if nr_on rule = ''outOfSyncGated''
      then (case nr_for_hours rule of Some n \<Rightarrow> ''outOfSyncGated:'' @ show_int n | None \<Rightarrow> [])
      else nr_on rule)"

definition maybe_notify ::
  "evaluator \<Rightarrow> sync_unit \<Rightarrow> string \<Rightarrow> string \<Rightarrow> notify_message \<Rightarrow> notify_world \<Rightarrow>
     (notify_error + bool) \<times> notify_world" where
  "maybe_notify e u sink rule msg w =
     (let key = (su_app u, su_project u, rule) in
      case run_stmt (notify_claim_stmt (effective_interval e) (effective_claim_ttl e) key) w of
        (Inl err, w1) \<Rightarrow> (Inl (DebounceClaim key err), w1)
      | (Inr None, w1) \<Rightarrow> (Inl (DebounceClaim key ''check constraint''), w1)
      | (Inr (Some False), w1) \<Rightarrow> (Inr False, w1)
      | (Inr (Some True), w1) \<Rightarrow>
         (case sink_send key sink msg w1 of
            (Some err, w2) \<Rightarrow>
              let (_, w3) = run_stmt (release_claim_stmt key) w2 in (Inl (SendNotification key err), w3)
          | (None, w2) \<Rightarrow>
             (case run_stmt (confirm_sent_stmt key) w2 of
                (Inl err, w3) \<Rightarrow> (Inl (ConfirmSent key err), w3)
              | (Inr _, w3) \<Rightarrow> (Inr True, w3))))"

definition drop_bool :: "(notify_error + bool) \<times> notify_world \<Rightarrow> notify_error list \<times> notify_world" where
  "drop_bool = (\<lambda>(r, w). (case r of Inl e \<Rightarrow> [e] | Inr _ \<Rightarrow> [], w))"

definition eval_sync_failed ::
  "evaluator \<Rightarrow> 'e sync_result \<Rightarrow> string \<Rightarrow> notify_rule \<Rightarrow> notify_world \<Rightarrow> notify_error list \<times> notify_world" where
  "eval_sync_failed e res sink rule w =
     (if \<not> res_deploy_failed res then ([], w)
      else let u = res_unit res in
        drop_bool (maybe_notify e u sink (rule_key rule)
          (SyncFailedMsg (su_app u) (su_project u) (res_failure_message res)) w))"

definition eval_health_degraded ::
  "evaluator \<Rightarrow> 'e sync_result \<Rightarrow> string \<Rightarrow> notify_rule \<Rightarrow> notify_world \<Rightarrow> notify_error list \<times> notify_world" where
  "eval_health_degraded e res sink rule w =
     (case (nr_for_minutes rule, res_health_since res) of
        (Some n, Some since) \<Rightarrow>
          if res_health res \<noteq> ''Degraded'' then ([], w)
          else if nw_clock w - since < wrap64 (n * minute) then ([], w)
          else let u = res_unit res in
            drop_bool (maybe_notify e u sink (rule_key rule) (DegradedMsg (su_app u) (su_project u) since) w)
      | _ \<Rightarrow> ([], w))"

definition eval_out_of_sync_gated ::
  "evaluator \<Rightarrow> 'e sync_result \<Rightarrow> string \<Rightarrow> notify_rule \<Rightarrow> notify_world \<Rightarrow> notify_error list \<times> notify_world" where
  "eval_out_of_sync_gated e res sink rule w =
     (case (nr_for_hours rule, res_status_since res) of
        (Some n, Some since) \<Rightarrow>
          if res_status res \<noteq> ''OutOfSync'' \<or> auto_sync_enabled (su_sync (res_unit res)) then ([], w)
          else if nw_clock w - since < wrap64 (n * hour) then ([], w)
          else let u = res_unit res in
            drop_bool (maybe_notify e u sink (rule_key rule) (GatedMsg (su_app u) (su_project u) since) w)
      | _ \<Rightarrow> ([], w))"

text \<open>The marker of a notified sibling: claimed, given back, or cleared once the recovery is sent.\<close>

definition claim_recovery_clear :: "evaluator \<Rightarrow> sync_unit \<Rightarrow> string \<Rightarrow> notify_world \<Rightarrow> (notify_error + bool) \<times> notify_world" where
  "claim_recovery_clear e u rule w =
     (let key = (su_app u, su_project u, rule) in
      case run_stmt (recovery_claim_stmt (effective_claim_ttl e) key) w of
        (Inl err, w1) \<Rightarrow> (Inl (ClaimRecovery key err), w1)
      | (Inr claimed, w1) \<Rightarrow> (Inr claimed, w1))"

definition release_recovery_claim :: "sync_unit \<Rightarrow> string \<Rightarrow> notify_world \<Rightarrow> notify_world" where
  "release_recovery_claim u rule w = snd (run_stmt (release_claim_stmt (su_app u, su_project u, rule)) w)"

definition confirm_recovery_clear :: "sync_unit \<Rightarrow> string \<Rightarrow> notify_world \<Rightarrow> notify_error option \<times> notify_world" where
  "confirm_recovery_clear u rule w =
     (let key = (su_app u, su_project u, rule) in
      case run_stmt (recovery_clear_stmt key) w of
        (Inl err, w1) \<Rightarrow> (Some (ConfirmRecovery key err), w1)
      | (Inr _, w1) \<Rightarrow> (None, w1))"

text \<open>The loop over the siblings of a \<open>healthRecovered\<close> rule.\<close>

fun recover_siblings ::
  "evaluator \<Rightarrow> sync_unit \<Rightarrow> string \<Rightarrow> notify_rule \<Rightarrow> string list option \<Rightarrow> notify_rule list \<Rightarrow> notify_world \<Rightarrow>
     notify_error list \<times> notify_world" where
  "recover_siblings e u sink rule allowed [] w = ([], w)"
| "recover_siblings e u sink rule allowed (sib # sibs) w =
     (if nr_on sib \<noteq> ''healthDegraded'' then recover_siblings e u sink rule allowed sibs w
      else if nr_name sib = [] \<and> nr_for_minutes sib = None then recover_siblings e u sink rule allowed sibs w
      else if (case allowed of None \<Rightarrow> False | Some ids \<Rightarrow> rule_id sib \<notin> set ids)
      then recover_siblings e u sink rule allowed sibs w
      else
        case claim_recovery_clear e u (rule_key sib) w of
          (Inl err, w1) \<Rightarrow>
            let (errs, w') = recover_siblings e u sink rule allowed sibs w1 in (err # errs, w')
        | (Inr False, w1) \<Rightarrow> recover_siblings e u sink rule allowed sibs w1
        | (Inr True, w1) \<Rightarrow>
           (case maybe_notify e u sink (rule_key rule) (RecoveredMsg (su_app u) (su_project u)) w1 of
              (Inl err, w2) \<Rightarrow>
                let w3 = release_recovery_claim u (rule_key sib) w2;
                    (errs, w') = recover_siblings e u sink rule allowed sibs w3
                in (err # errs, w')
            | (Inr False, w2) \<Rightarrow>
                recover_siblings e u sink rule allowed sibs (release_recovery_claim u (rule_key sib) w2)
            | (Inr True, w2) \<Rightarrow>
               (case confirm_recovery_clear u (rule_key sib) w2 of
                  (Some err, w3) \<Rightarrow>
                    let (errs, w') = recover_siblings e u sink rule allowed sibs w3 in (err # errs, w')
                | (None, w3) \<Rightarrow> recover_siblings e u sink rule allowed sibs w3)))"

definition eval_health_recovered ::
  "evaluator \<Rightarrow> 'e sync_result \<Rightarrow> string \<Rightarrow> notify_rule \<Rightarrow> string list option \<Rightarrow> notify_world \<Rightarrow>
     notify_error list \<times> notify_world" where
  "eval_health_recovered e res sink rule allowed w =
     (if res_health res = ''Degraded'' then ([], w)
      else recover_siblings e (res_unit res) sink rule allowed (ev_rules e) w)"

definition eval_rule ::
  "evaluator \<Rightarrow> 'e sync_result \<Rightarrow> string \<Rightarrow> string list option \<Rightarrow> notify_rule \<Rightarrow> notify_world \<Rightarrow>
     notify_error list \<times> notify_world" where
  "eval_rule e res sink allowed rule w =
     (if nr_on rule = ''syncFailed'' then eval_sync_failed e res sink rule w
      else if nr_on rule = ''healthDegraded'' then eval_health_degraded e res sink rule w
      else if nr_on rule = ''outOfSyncGated'' then eval_out_of_sync_gated e res sink rule w
      else if nr_on rule = ''healthRecovered'' then eval_health_recovered e res sink rule allowed w
      else ([], w))"

text \<open>Which sink and which rules an environment selects.\<close>

definition select_sink :: "evaluator \<Rightarrow> string \<Rightarrow> string" where
  "select_sink e env =
     (case lookup (ev_environments e) env of
        None \<Rightarrow> ev_sink e
      | Some en \<Rightarrow>
          if no_slack (env_notify en) \<noteq> []
          then (case lookup (ev_sinks e) (no_slack (env_notify en)) of Some s \<Rightarrow> s | None \<Rightarrow> ev_sink e)
          else ev_sink e)"

definition select_allowed :: "evaluator \<Rightarrow> string \<Rightarrow> string list option" where
  "select_allowed e env =
     (case lookup (ev_environments e) env of None \<Rightarrow> None | Some en \<Rightarrow> no_rules (env_notify en))"

definition rule_applies :: "string list option \<Rightarrow> notify_rule \<Rightarrow> bool" where
  "rule_applies allowed rule \<longleftrightarrow> (case allowed of None \<Rightarrow> True | Some ids \<Rightarrow> rule_id rule \<in> set ids)"

fun eval_rules ::
  "evaluator \<Rightarrow> 'e sync_result \<Rightarrow> string \<Rightarrow> string list option \<Rightarrow> notify_rule list \<Rightarrow> notify_world \<Rightarrow>
     notify_error list \<times> notify_world" where
  "eval_rules e res sink allowed [] w = ([], w)"
| "eval_rules e res sink allowed (rule # rules) w =
     (if \<not> rule_applies allowed rule then eval_rules e res sink allowed rules w
      else let (errs1, w1) = eval_rule e res sink allowed rule w;
               (errs2, w2) = eval_rules e res sink allowed rules w1
           in (errs1 @ errs2, w2))"

definition evaluate :: "evaluator \<Rightarrow> 'e sync_result \<Rightarrow> notify_world \<Rightarrow> notify_error list \<times> notify_world" where
  "evaluate e res w =
     (let env = su_env (res_unit res)
      in eval_rules e res (select_sink e env) (select_allowed e env) (ev_rules e) w)"

record env_rules =
  er_sink :: string
  er_rules :: "string list"

definition resolved_rules :: "evaluator \<Rightarrow> string \<Rightarrow> (string \<times> env_rules) list" where
  "resolved_rules e default_sink_name =
     map (\<lambda>(name, en).
       (name, \<lparr>er_sink = (if no_slack (env_notify en) \<noteq> [] then no_slack (env_notify en) else default_sink_name),
               er_rules = map rule_id (filter (\<lambda>rule. \<not> (no_rules (env_notify en) \<noteq> None \<and>
                 rule_id rule \<notin> set (case no_rules (env_notify en) of None \<Rightarrow> [] | Some ids \<Rightarrow> ids))) (ev_rules e))\<rparr>))
       (ev_environments e)"

section \<open>Lemmas\<close>

text \<open>The key of a rule that \<open>Parse\<close> accepts satisfies the table's constraint.\<close>

lemma digit_char_digit: "is_digit (digit_char d)"
proof -
  have "d mod 10 < 10" by simp
  then have "(48 + d mod 10) mod 256 = 48 + d mod 10" by simp
  then have "of_char (digit_char d) = 48 + d mod 10" by (simp add: digit_char_def)
  with \<open>d mod 10 < 10\<close> show ?thesis by (simp add: is_digit_def less_eq_char_def)
qed

lemma show_nat_digits: "show_nat n \<noteq> [] \<and> list_all is_digit (show_nat n)"
proof (induction n rule: show_nat.induct)
  case (1 n)
  show ?case
  proof (cases "n < 10")
    case True
    then show ?thesis using digit_char_digit by (simp add: show_nat.simps [of n])
  next
    case False
    with 1 show ?thesis using digit_char_digit by (simp add: show_nat.simps [of n])
  qed
qed

lemma colon_not_word: "\<not> is_word_char (CHR '':'')"
  by (simp add: is_word_char_def is_digit_def less_eq_char_def)

lemma rule_check_word: "s \<noteq> [] \<Longrightarrow> list_all is_word_char s \<Longrightarrow> rule_check s"
  using colon_not_word by (auto simp: rule_check_def cut_at_def list_all_iff)

lemma rule_check_threshold:
  assumes "list_all is_word_char a" and "a \<noteq> []" and "0 < n"
  shows "rule_check (a @ CHR '':'' # show_int n)"
proof -
  have "CHR '':'' \<notin> set a" using assms(1) colon_not_word by (auto simp: list_all_iff)
  then show ?thesis
    using assms show_nat_digits [of "nat n"] by (simp add: rule_check_def show_int_def)
qed

lemma rule_key_check: "wf_rule rule \<Longrightarrow> rule_check (rule_key rule)"
proof -
  assume wf: "wf_rule rule"
  have words: "list_all is_word_char ''healthDegraded''" "list_all is_word_char ''outOfSyncGated''"
      "list_all is_word_char ''syncFailed''" "list_all is_word_char ''healthRecovered''"
    by (simp_all add: is_word_char_def is_digit_def less_eq_char_def)
  have keys: "''healthDegraded:'' = ''healthDegraded'' @ '':''" "''outOfSyncGated:'' = ''outOfSyncGated'' @ '':''" by simp_all
  show ?thesis
  proof (cases "nr_name rule = []")
    case False
    with wf show ?thesis by (simp add: rule_key_def wf_rule_def rule_check_word)
  next
    case True
    have deg: "rule_check (''healthDegraded:'' @ show_int n)" if "0 < n" for n
      using rule_check_threshold [OF words(1) _ that] by simp
    have gat: "rule_check (''outOfSyncGated:'' @ show_int n)" if "0 < n" for n
      using rule_check_threshold [OF words(2) _ that] by simp
    have plain: "rule_check ''syncFailed''" "rule_check ''healthRecovered''"
      using rule_check_word words by simp_all
    show ?thesis
      using wf True deg gat plain by (auto simp: rule_key_def wf_rule_def)
  qed
qed

text \<open>An environment in which statements and sends take time but nothing else goes wrong than a message
  that is not delivered.\<close>

definition clean :: "notify_world \<Rightarrow> bool" where
  "clean w \<longleftrightarrow> list_all (\<lambda>(d, f). 0 \<le> d \<and> f = NoFault) (nw_stmts w) \<and>
     list_all (\<lambda>(d, out). 0 \<le> d \<and> \<not> is_silent out) (nw_sends w)"

lemma run_stmt_clean:
  assumes "clean w" and "run_stmt stmt w = (r, w')"
  shows "\<exists>now. nw_clock w \<le> now \<and> nw_clock w' = now \<and> r = Inr (fst (stmt now (nw_table w))) \<and>
     nw_table w' = snd (stmt now (nw_table w)) \<and> nw_sent w' = nw_sent w \<and> clean w'"
  using assms
  by (cases "nw_stmts w") (auto simp: run_stmt_def clean_def Let_def split: prod.splits)

lemma sink_send_clean:
  assumes "clean w" and "sink_send key sink msg w = (r, w')"
  shows "nw_table w' = nw_table w \<and> clean w' \<and> nw_clock w \<le> nw_clock w' \<and>
     nw_sent w' = (if r = None
       then nw_sent w @ [\<lparr>sm_key = key, sm_sink = sink, sm_at = nw_clock w', sm_message = msg\<rparr>] else nw_sent w)"
  using assms
  by (cases "nw_sends w") (auto simp: sink_send_def clean_def Let_def split: send_outcome.splits)

text \<open>Every message that left is accounted for by the debounce row of its key.\<close>

definition accounted :: "notify_world \<Rightarrow> bool" where
  "accounted w \<longleftrightarrow>
     (\<forall>m \<in> set (nw_sent w). \<exists>r. lookup (nw_table w) (sm_key m) = Some r \<and> sm_at m \<le> nd_last r)"

definition spaced :: "int \<Rightarrow> sent_message list \<Rightarrow> bool" where
  "spaced interval ms \<longleftrightarrow>
     (\<forall>i j. i < j \<longrightarrow> j < length ms \<longrightarrow> sm_key (ms ! i) = sm_key (ms ! j) \<longrightarrow>
        sm_at (ms ! i) + interval < sm_at (ms ! j))"

lemma spaced_snoc:
  assumes "spaced interval ms" and "\<forall>m' \<in> set ms. sm_key m' = sm_key m \<longrightarrow> sm_at m' + interval < sm_at m"
  shows "spaced interval (ms @ [m])"
  unfolding spaced_def
proof (intro allI impI)
  fix i j
  assume ij: "i < j" "j < length (ms @ [m])" "sm_key ((ms @ [m]) ! i) = sm_key ((ms @ [m]) ! j)"
  show "sm_at ((ms @ [m]) ! i) + interval < sm_at ((ms @ [m]) ! j)"
  proof (cases "j = length ms")
    case True
    with ij assms(2) show ?thesis by (simp add: nth_append)
  next
    case False
    with ij have "j < length ms" by simp
    with ij assms(1) show ?thesis by (simp add: nth_append spaced_def)
  qed
qed

lemma notify_claim_stmt_cases:
  assumes "notify_claim_stmt interval ttl key now t = (r, t')"
  obtains "r = None" "t' = t"
  | "r = Some False" "t' = t"
  | "r = Some True" "lookup t key = None" "\<exists>c. t' = put key \<lparr>nd_last = 0, nd_claim = c\<rparr> t"
  | row where "r = Some True" "lookup t key = Some row" "nd_last row < now - interval"
      "\<exists>c. t' = put key (row\<lparr>nd_claim := c\<rparr>) t"
  using assms by (auto simp: notify_claim_stmt_def split: if_splits option.splits)

lemma accounted_put:
  assumes "accounted w" and "lookup (nw_table w) key = Some row" and "nd_last row \<le> nd_last row'"
    and "nw_table w' = put key row' (nw_table w)" and "nw_sent w' = nw_sent w"
  shows "accounted w'"
  using assms unfolding accounted_def by (auto 0 4 intro: order.trans)

lemma accounted_new:
  assumes "accounted w" and "lookup (nw_table w) key = None"
    and "nw_table w' = put key row' (nw_table w)" and "nw_sent w' = nw_sent w"
  shows "accounted w'"
  using assms unfolding accounted_def by (auto split: if_splits)

text \<open>One attempt in a clean environment: refused, not delivered, or sent and confirmed.\<close>

lemma release_claim_accounted:
  assumes "accounted w" and "snd (release_claim_stmt key now (nw_table w)) = nw_table w'" and "nw_sent w' = nw_sent w"
  shows "accounted w'"
proof (cases "lookup (nw_table w) key")
  case None
  with assms show ?thesis by (simp add: release_claim_stmt_def accounted_def)
next
  case (Some row)
  with assms show ?thesis
    by (intro accounted_put [OF assms(1) Some, of "row\<lparr>nd_claim := None\<rparr>"]) (simp_all add: release_claim_stmt_def)
qed

lemma claim_accounted:
  assumes "accounted w" and "notify_claim_stmt interval ttl key now (nw_table w) = (r, nw_table w')" and "nw_sent w' = nw_sent w"
  shows "accounted w'"
  using assms(2)
proof (cases rule: notify_claim_stmt_cases)
  case 1
  with assms show ?thesis by (simp add: accounted_def)
next
  case 2
  with assms show ?thesis by (simp add: accounted_def)
next
  case 3
  then obtain c where "nw_table w' = put key \<lparr>nd_last = 0, nd_claim = c\<rparr> (nw_table w)" by blast
  with 3(2) assms(1,3) show ?thesis by (intro accounted_new [OF assms(1) 3(2)])
next
  case (4 row)
  then obtain c where "nw_table w' = put key (row\<lparr>nd_claim := c\<rparr>) (nw_table w)" by blast
  with 4(2) assms(3) show ?thesis by (intro accounted_put [OF assms(1) 4(2)]) simp_all
qed

text \<open>A granted claim leaves a row behind, and every earlier message of its key is old enough.\<close>

lemma claim_granted:
  assumes "accounted w" and "notify_claim_stmt interval ttl key now (nw_table w) = (Some True, nw_table w')"
  shows "(\<exists>row. lookup (nw_table w') key = Some row) \<and>
     (\<forall>m \<in> set (nw_sent w). sm_key m = key \<longrightarrow> sm_at m + interval < now)"
  using assms(2)
proof (cases rule: notify_claim_stmt_cases)
  case 3
  have "sm_key m \<noteq> key" if "m \<in> set (nw_sent w)" for m
    using assms(1) 3(2) that unfolding accounted_def by fastforce
  with 3 show ?thesis by auto
next
  case (4 row)
  have "sm_at m \<le> nd_last row" if "m \<in> set (nw_sent w)" "sm_key m = key" for m
    using assms(1) 4(2) that unfolding accounted_def by fastforce
  with 4 show ?thesis by fastforce
qed simp_all

definition notify_inv :: "evaluator \<Rightarrow> notify_world \<Rightarrow> bool" where
  "notify_inv e w \<longleftrightarrow> clean w \<and> accounted w \<and> spaced (effective_interval e) (nw_sent w)"

lemma confirmed_accounted:
  assumes "\<forall>m' \<in> set sent. \<exists>r. lookup t (sm_key m') = Some r \<and> sm_at m' \<le> nd_last r"
    and "nw_table w3 = put key \<lparr>nd_last = now3, nd_claim = None\<rparr> t" and "nw_sent w3 = sent @ [m]"
    and "sm_key m = key" "sm_at m \<le> now3"
    and "\<forall>m' \<in> set sent. sm_key m' = key \<longrightarrow> sm_at m' + effective_interval e < now" "now \<le> now3"
  shows "accounted w3"
proof -
  have "0 < effective_interval e" by (simp add: effective_interval_def default_debounce_interval_def time_units)
  then have "\<forall>m' \<in> set sent. sm_key m' = key \<longrightarrow> sm_at m' \<le> now3" using assms(6,7) by fastforce
  then show ?thesis using assms(1-5) unfolding accounted_def by fastforce
qed

text \<open>After a granted claim: a failed delivery gives the claim back, a delivered message is confirmed.\<close>

lemma failed_delivery_inv:
  assumes inv: "notify_inv e w1" and "sink_send key sink msg w1 = (Some err, w2)" and rel: "run_stmt (release_claim_stmt key) w2 = (r3, w3)"
  shows "notify_inv e w3"
proof -
  have "clean w1" and "accounted w1" using inv by (simp_all add: notify_inv_def)
  note s2 = sink_send_clean [OF \<open>clean w1\<close> assms(2)]
  from run_stmt_clean [OF _ rel] s2 obtain now3 where
    "nw_table w3 = snd (release_claim_stmt key now3 (nw_table w2))" "nw_sent w3 = nw_sent w2" "clean w3" by blast
  moreover have "accounted w2" using \<open>accounted w1\<close> s2 by (simp add: accounted_def)
  ultimately show ?thesis
    using release_claim_accounted [of w2 key now3 w3] inv s2 by (simp add: notify_inv_def)
qed

lemma delivery_inv:
  assumes inv: "notify_inv e w1" and "nw_clock w1 = now" and row: "lookup (nw_table w1) key = Some row"
    and old: "\<forall>m \<in> set (nw_sent w1). sm_key m = key \<longrightarrow> sm_at m + effective_interval e < now"
    and snd: "sink_send key sink msg w1 = (None, w2)" and conf: "run_stmt (confirm_sent_stmt key) w2 = (r3, w3)"
  shows "notify_inv e w3"
proof -
  have "clean w1" and acc1: "accounted w1" using inv by (simp_all add: notify_inv_def)
  note s2 = sink_send_clean [OF \<open>clean w1\<close> snd]
  from run_stmt_clean [OF _ conf] s2 obtain now3 where now3: "nw_clock w2 \<le> now3"
    and t3: "nw_table w3 = snd (confirm_sent_stmt key now3 (nw_table w2))" "nw_sent w3 = nw_sent w2" "clean w3" by blast
  have t3': "nw_table w3 = put key \<lparr>nd_last = now3, nd_claim = None\<rparr> (nw_table w1)"
    using t3(1) s2 row by (simp add: confirm_sent_stmt_def)
  let ?m = "\<lparr>sm_key = key, sm_sink = sink, sm_at = nw_clock w2, sm_message = msg\<rparr>"
  have sent: "nw_sent w3 = nw_sent w1 @ [?m]" using t3(2) s2 by simp
  have "spaced (effective_interval e) (nw_sent w1 @ [?m])"
    using inv old s2 assms(2) by (intro spaced_snoc) (auto simp: notify_inv_def)
  moreover have "accounted w3"
    using acc1 old s2 assms(2) now3
    by (intro confirmed_accounted [where e = e and now = now, OF _ t3' sent]) (auto simp: accounted_def)
  ultimately show ?thesis using sent t3(3) by (simp add: notify_inv_def)
qed

lemma maybe_notify_inv:
  assumes inv: "notify_inv e w" and run: "maybe_notify e u sink rule msg w = (r, w')"
  shows "notify_inv e w'"
proof -
  let ?key = "(su_app u, su_project u, rule)"
  let ?claim = "notify_claim_stmt (effective_interval e) (effective_claim_ttl e) ?key"
  obtain r1 w1 where c: "run_stmt ?claim w = (r1, w1)" by (metis surj_pair)
  from run_stmt_clean [OF _ this] inv obtain now where
    now: "nw_clock w1 = now" and r1: "r1 = Inr (fst (?claim now (nw_table w)))"
    and t1: "nw_table w1 = snd (?claim now (nw_table w))" and s1: "nw_sent w1 = nw_sent w" and clean1: "clean w1"
    unfolding notify_inv_def by blast
  have claim: "?claim now (nw_table w) = (fst (?claim now (nw_table w)), nw_table w1)" by (simp add: t1)
  have acc1: "accounted w1" using claim_accounted [OF _ claim s1] inv by (simp add: notify_inv_def)
  have inv1: "notify_inv e w1" using inv clean1 acc1 s1 by (simp add: notify_inv_def)
  show ?thesis
  proof (cases "fst (?claim now (nw_table w)) = Some True")
    case False
    with run c r1 have "w' = w1"
      by (auto simp: maybe_notify_def Let_def split: option.splits if_splits bool.splits)
    with inv1 show ?thesis by simp
  next
    case True
    then obtain row where row: "lookup (nw_table w1) ?key = Some row"
      and old: "\<forall>m \<in> set (nw_sent w). sm_key m = ?key \<longrightarrow> sm_at m + effective_interval e < now"
      using claim_granted [of w "effective_interval e" "effective_claim_ttl e" ?key now w1] inv claim
      unfolding notify_inv_def by metis
    obtain err w2 where snd: "sink_send ?key sink msg w1 = (err, w2)" by (metis surj_pair)
    let ?stmt = "if err = None then confirm_sent_stmt ?key else release_claim_stmt ?key"
    obtain r3 w3 where stmt: "run_stmt ?stmt w2 = (r3, w3)" by (metis surj_pair)
    with run c r1 True snd have "w' = w3" by (cases err) (auto simp: maybe_notify_def split: sum.splits)
    then show ?thesis
      using snd stmt delivery_inv [OF inv1 now row] failed_delivery_inv [OF inv1] old s1 by (cases err) auto
  qed
qed

text \<open>A sequence of attempts for any units and rules.\<close>

fun notify_run :: "evaluator \<Rightarrow> (sync_unit \<times> string \<times> string \<times> notify_message) list \<Rightarrow> notify_world \<Rightarrow> notify_world" where
  "notify_run e [] w = w"
| "notify_run e ((u, sink, rule, msg) # reqs) w = notify_run e reqs (snd (maybe_notify e u sink rule msg w))"

lemma notify_run_inv: "notify_inv e w \<Longrightarrow> notify_inv e (notify_run e reqs w)"
  by (induction e reqs w rule: notify_run.induct) (auto simp: maybe_notify_inv [OF _ prod.collapse [symmetric]])

section \<open>Properties\<close>


text \<open>An attempt whose statements succeed and whose message can be delivered sends exactly when the
  rule has not been notified within the interval and no other attempt's claim is live; it then records
  the instant and frees the claim, so an interrupted earlier attempt delays it by no more than the
  claim's TTL.\<close>

theorem maybe_notify_sends_iff:
  assumes "nw_stmts w = []" and "nw_sends w = []" and "rule_check rule"
    and "key = (su_app u, su_project u, rule)"
  shows "fst (maybe_notify e u sink rule msg w) =
       Inr (case lookup (nw_table w) key of None \<Rightarrow> True
            | Some r \<Rightarrow> nd_last r < nw_clock w - effective_interval e \<and> claim_free (nw_clock w) r) \<and>
     (fst (maybe_notify e u sink rule msg w) = Inr True \<longrightarrow>
       lookup (nw_table (snd (maybe_notify e u sink rule msg w))) key = Some \<lparr>nd_last = nw_clock w, nd_claim = None\<rparr> \<and>
       nw_sent (snd (maybe_notify e u sink rule msg w)) =
         nw_sent w @ [\<lparr>sm_key = key, sm_sink = sink, sm_at = nw_clock w, sm_message = msg\<rparr>]) \<and>
     (fst (maybe_notify e u sink rule msg w) = Inr False \<longrightarrow> nw_table (snd (maybe_notify e u sink rule msg w)) = nw_table w \<and>
       nw_sent (snd (maybe_notify e u sink rule msg w)) = nw_sent w)"
  using assms
  by (auto simp: maybe_notify_def run_stmt_def sink_send_def notify_claim_stmt_def confirm_sent_stmt_def Let_def
      split: option.splits)

text \<open>C22: the debounce key of every rule in a configuration \<open>Parse\<close> accepted satisfies the CHECK
  constraint of \<open>notification_debounce.rule\<close>, so the claim can never fail on it.\<close>

theorem rule_key_constraint:
  assumes "config_parse unmarshal url_parse data = Inr r" and "rule \<in> set (nc_rules (root_notify r))"
  shows "rule_check (rule_key rule)"
  using config_parse_wf [OF assms(1)] assms(2) by (auto simp: wf_root_def rule_key_check)

text \<open>\<open>ResolvedRules\<close> shows for each environment exactly the identifiers of the rules \<open>Evaluate\<close> runs
  for its units, in order.\<close>

theorem resolved_rules_agree:
  assumes "distinct (keys (ev_environments e))" and "(env, er) \<in> set (resolved_rules e default_name)"
  shows "er_rules er = map rule_id (filter (rule_applies (select_allowed e env)) (ev_rules e))"
proof -
  obtain en where en: "(env, en) \<in> set (ev_environments e)"
      "er_rules er = map rule_id (filter (\<lambda>rule. \<not> (no_rules (env_notify en) \<noteq> None \<and>
         rule_id rule \<notin> set (case no_rules (env_notify en) of None \<Rightarrow> [] | Some ids \<Rightarrow> ids))) (ev_rules e))"
    using assms(2) by (auto simp: resolved_rules_def)
  have "lookup (ev_environments e) env = Some en"
    using assms(1) en(1) by (intro lookup_wf) (simp_all add: wf_map_def)
  then have "select_allowed e env = no_rules (env_notify en)" by (simp add: select_allowed_def)
  then have "(\<not> (no_rules (env_notify en) \<noteq> None \<and>
         rule_id rule \<notin> set (case no_rules (env_notify en) of None \<Rightarrow> [] | Some ids \<Rightarrow> ids))) =
      rule_applies (select_allowed e env) rule" for rule
    by (auto simp: rule_applies_def split: option.split)
  with en(2) show ?thesis by simp
qed

section \<open>Witnesses\<close>

definition two_thresholds :: evaluator where
  "two_thresholds = \<lparr>ev_sink = ''hook'', ev_sinks = [],
     ev_rules = [\<lparr>nr_on = ''healthDegraded'', nr_name = ''early'', nr_for_minutes = Some 5, nr_for_hours = None\<rparr>,
       \<lparr>nr_on = ''healthDegraded'', nr_name = ''late'', nr_for_minutes = Some 60, nr_for_hours = None\<rparr>,
       \<lparr>nr_on = ''healthRecovered'', nr_name = [], nr_for_minutes = None, nr_for_hours = None\<rparr>],
     ev_environments = [], ev_interval = 0, ev_claim_ttl = 0\<rparr>"

definition notify_unit :: sync_unit where
  "notify_unit = \<lparr>su_app = ''web'', su_project = ''p'', su_env = ''prd'', su_region = ''eu'',
     su_sync = \<lparr>sp_auto = None, sp_retry = None, sp_self_heal = None, sp_windows = None, sp_observe = None\<rparr>,
     su_source_repo = ''o/r'', su_source_path = ''web.yaml'', su_source_branch = [],
     su_ignore_fields = [], su_ignore_preconditions = [], su_track = [], su_version = []\<rparr>"

definition quiet_world :: "time \<Rightarrow> debounce_table \<Rightarrow> notify_world" where
  "quiet_world now t = \<lparr>nw_table = t, nw_clock = now, nw_sent = [], nw_stmts = [], nw_sends = []\<rparr>"

lemmas notify_eval = maybe_notify_def run_stmt_def sink_send_def notify_claim_stmt_def confirm_sent_stmt_def
  release_claim_stmt_def recovery_claim_stmt_def recovery_clear_stmt_def claim_free_def rule_check_def
  claim_recovery_clear_def release_recovery_claim_def confirm_recovery_clear_def
  effective_interval_def effective_claim_ttl_def default_debounce_interval_def notify_claim_ttl_def time_units
  cut_at_def is_word_char_def is_digit_def less_eq_char_def Let_def


theorem maybe_notify_sends_iff_witness:
  "fst (maybe_notify two_thresholds notify_unit ''hook'' ''early'' (RecoveredMsg ''web'' ''p'')
     (quiet_world (2 * hour) [((''web'', ''p'', ''early''), \<lparr>nd_last = 0, nd_claim = Some (3 * hour)\<rparr>)])) = Inr False"
proof -
  let ?w = "quiet_world (2 * hour) [((''web'', ''p'', ''early''), \<lparr>nd_last = 0, nd_claim = Some (3 * hour)\<rparr>)]"
  have key: "(''web'', ''p'', ''early'') = (su_app notify_unit, su_project notify_unit, ''early'')"
    by (simp add: notify_unit_def)
  have "rule_check ''early''" "nw_stmts ?w = []" "nw_sends ?w = []" by (simp_all add: notify_eval quiet_world_def)
  note iff = conjunct1 [OF maybe_notify_sends_iff [OF this(2,3,1) key]]
  show ?thesis
    unfolding iff by (simp add: quiet_world_def claim_free_def time_units)
qed

theorem rule_key_constraint_witness:
  "\<exists>r. config_parse (\<lambda>_. Inr r) (\<lambda>_. Some (''https'', ''hooks'')) [] = Inr r \<and>
     (\<exists>rule \<in> set (nc_rules (root_notify r)). rule_key rule = ''early'' \<and> rule_check ''early'')"
proof -
  let ?r = "example_root\<lparr>root_notify := \<lparr>nc_slack = [(''default'', ''https://hooks'')], nc_rules = ev_rules two_thresholds\<rparr>\<rparr>"
  let ?rule = "\<lparr>nr_on = ''healthDegraded'', nr_name = ''early'', nr_for_minutes = Some 5, nr_for_hours = None\<rparr>"
  have names: "list_all is_word_char ''early''" "list_all is_word_char ''late''"
    by (simp_all add: is_word_char_def is_digit_def less_eq_char_def)
  have rules: "\<forall>rule \<in> set (ev_rules two_thresholds). wf_rule rule"
    using names by (simp add: two_thresholds_def wf_rule_def)
  have "wf_root (\<lambda>_. Some (''https'', ''hooks'')) ?r"
    using rules by (simp add: wf_root_def wf_app_def wf_environment_def example_root_def declared_units_def
        app_declared_projects_def lookup_environment_def validate_webhook_url_def keys_def unit_key_def
        wf_policy_def policy_windows_def)
  then have parse: "config_parse (\<lambda>_. Inr ?r) (\<lambda>_. Some (''https'', ''hooks'')) [] = Inr ?r"
    by (simp add: config_parse_def config_check_None [symmetric])
  have mem: "?rule \<in> set (nc_rules (root_notify ?r))" by (simp add: two_thresholds_def)
  have "rule_key ?rule = ''early''" by (simp add: rule_key_def)
  with rule_key_constraint [OF parse mem] parse mem show ?thesis by (intro exI [of _ ?r]) auto
qed

theorem resolved_rules_agree_witness:
  "\<exists>er. (''prd'', er) \<in> set (resolved_rules (two_thresholds\<lparr>ev_environments := root_environments example_root\<rparr>) ''default'') \<and>
     er_rules er = [''early'', ''late'', ''healthRecovered'']"
proof -
  let ?e = "two_thresholds\<lparr>ev_environments := root_environments example_root\<rparr>"
  have "distinct (keys (ev_environments ?e))" by (simp add: example_root_def keys_def)
  moreover obtain er where er: "(''prd'', er) \<in> set (resolved_rules ?e ''default'')"
    by (auto simp: resolved_rules_def example_root_def)
  ultimately have "er_rules er = map rule_id (filter (rule_applies (select_allowed ?e ''prd'')) (ev_rules ?e))"
    by (rule resolved_rules_agree)
  then have "er_rules er = [''early'', ''late'', ''healthRecovered'']"
    by (simp add: two_thresholds_def select_allowed_def example_root_def rule_applies_def rule_id_def)
  with er show ?thesis by blast
qed

definition recovered_result :: "unit sync_result" where
  "recovered_result = (new_result notify_unit)\<lparr>res_status := ''Synced'', res_health := ''Healthy''\<rparr>"

text \<open>With two notified \<open>healthDegraded\<close> thresholds a single recovery is announced twice: the first
  sibling's message debounces the second's, whose marker therefore stays set, so the next pass more
  than the interval later announces the same recovery again.\<close>

theorem recovery_announced_twice:
  "let w0 = quiet_world (100 * hour)
         [((''web'', ''p'', ''early''), \<lparr>nd_last = 98 * hour, nd_claim = None\<rparr>),
          ((''web'', ''p'', ''late''), \<lparr>nd_last = 99 * hour, nd_claim = None\<rparr>)];
       w1 = snd (evaluate two_thresholds recovered_result w0);
       w2 = snd (evaluate two_thresholds recovered_result (w1\<lparr>nw_clock := 102 * hour\<rparr>))
   in map sm_message (nw_sent w1) = [RecoveredMsg ''web'' ''p''] \<and>
      map sm_message (nw_sent w2) = [RecoveredMsg ''web'' ''p'', RecoveredMsg ''web'' ''p''] \<and>
      fst (evaluate two_thresholds recovered_result w0) = []"
  by (simp add: evaluate_def two_thresholds_def recovered_result_def new_result_def notify_unit_def quiet_world_def
      select_sink_def select_allowed_def rule_applies_def eval_rule_def eval_health_degraded_def
      eval_health_recovered_def rule_key_def drop_bool_def notify_eval)

end
