(* ===== verification/Reconcile_Store.thy ===== *)
theory Reconcile_Store
  imports Sync_Result
begin

text \<open>
  The tables the reconciler writes (\<open>internal/store/migrations\<close>) and its statements on them
  (\<open>acquireLock\<close>, \<open>releaseLock\<close>, \<open>insertSyncEvent\<close>, \<open>updateSyncEvent\<close> and \<open>upsert\<close> of
  \<open>internal/reconcile/reconcile.go\<close>). A statement is a function of the database clock and the tables;
  a violated constraint is the result \<^term>\<open>None\<close>. \<open>lock_step\<close> is the system of all attempts on one
  unit, each between acquiring and releasing the lock.
\<close>

section \<open>Tables\<close>

type_synonym unit_id = "string \<times> string"

definition uid :: "sync_unit \<Rightarrow> unit_id" where
  "uid u = (su_app u, su_project u)"

record app_row =
  ar_desired_image :: string
  ar_live_image :: "string option"
  ar_track :: string
  ar_version :: string
  ar_repository :: string
  ar_resource_type :: string
  ar_status :: string
  ar_health :: string
  ar_status_since :: time
  ar_health_since :: time
  ar_last_reconciled :: time

record event_row =
  er_unit :: unit_id
  er_trigger :: string
  er_actor :: string
  er_from_image :: "string option"
  er_to_image :: string
  er_started :: time
  er_finished :: "time option"
  er_result :: string
  er_error :: "string option"

record lock_row =
  lk_holder :: string
  lk_expires :: time

record rec_db =
  db_apps :: "(unit_id \<times> app_row) list"
  db_events :: "(int \<times> event_row) list"
  db_next_event :: int
  db_locks :: "(unit_id \<times> lock_row) list"

definition status_values :: "string set" where
  "status_values = {''Synced'', ''OutOfSync'', ''Progressing'', ''Degraded'', ''Missing'', ''Invalid''}"

definition health_values :: "string set" where
  "health_values = {''Healthy'', ''Progressing'', ''Degraded'', ''Missing'', ''Invalid''}"

definition null_if_empty :: "string \<Rightarrow> string option" where
  "null_if_empty s = (if s = [] then None else Some s)"

section \<open>Statements\<close>

definition lock_ttl :: int where "lock_ttl = 2 * minute"

definition acquire_lock_stmt :: "unit_id \<Rightarrow> string \<Rightarrow> time \<Rightarrow> rec_db \<Rightarrow> nat \<times> rec_db" where
  "acquire_lock_stmt k token now db =
     (let mine = \<lparr>lk_holder = token, lk_expires = now + lock_ttl\<rparr> in
      case lookup (db_locks db) k of
        None \<Rightarrow> (1, db\<lparr>db_locks := put k mine (db_locks db)\<rparr>)
      | Some row \<Rightarrow>
          if lk_expires row < now then (1, db\<lparr>db_locks := put k mine (db_locks db)\<rparr>) else (0, db))"

definition remove_key :: "'k \<Rightarrow> ('k \<times> 'v) list \<Rightarrow> ('k \<times> 'v) list" where
  "remove_key k m = filter (\<lambda>p. fst p \<noteq> k) m"

definition release_lock_stmt :: "unit_id \<Rightarrow> string \<Rightarrow> time \<Rightarrow> rec_db \<Rightarrow> unit \<times> rec_db" where
  "release_lock_stmt k token now db =
     (case lookup (db_locks db) k of
        None \<Rightarrow> ((), db)
      | Some row \<Rightarrow>
          ((), if lk_holder row = token then db\<lparr>db_locks := remove_key k (db_locks db)\<rparr> else db))"

text \<open>The foreign key into \<open>applications\<close>, and the checks on \<open>trigger\<close> and \<open>result\<close>.\<close>

definition insert_event_stmt ::
  "unit_id \<Rightarrow> string \<Rightarrow> string \<Rightarrow> string \<Rightarrow> string \<Rightarrow> time \<Rightarrow> rec_db \<Rightarrow> int option \<times> rec_db" where
  "insert_event_stmt k trigger actor from_image to_image now db =
     (if lookup (db_apps db) k = None \<or> trigger \<notin> {''auto'', ''manual''} then (None, db)
      else
        let n = db_next_event db;
            row = \<lparr>er_unit = k, er_trigger = trigger, er_actor = actor, er_from_image = null_if_empty from_image,
                   er_to_image = to_image, er_started = now, er_finished = None, er_result = ''in_progress'',
                   er_error = None\<rparr>
        in (Some n, db\<lparr>db_events := db_events db @ [(n, row)], db_next_event := n + 1\<rparr>))"

definition update_event_stmt :: "int \<Rightarrow> string \<Rightarrow> string \<Rightarrow> time \<Rightarrow> rec_db \<Rightarrow> unit \<times> rec_db" where
  "update_event_stmt n result err now db =
     ((), db\<lparr>db_events := map (\<lambda>(i, row). if i = n
        then (i, row\<lparr>er_finished := Some now, er_result := result, er_error := null_if_empty err\<rparr>)
        else (i, row)) (db_events db)\<rparr>)"

text \<open>The upsert, with the columns a failed manifest fetch must not blank out.\<close>

definition upsert_row :: "'e sync_result \<Rightarrow> time \<Rightarrow> app_row option \<Rightarrow> app_row" where
  "upsert_row res now old =
     (let new = \<lparr>ar_desired_image = res_desired_image res, ar_live_image = null_if_empty (res_live_image res),
                 ar_track = res_track res, ar_version = res_version res, ar_repository = res_repository res,
                 ar_resource_type = res_resource_type res, ar_status = res_status res, ar_health = res_health res,
                 ar_status_since = now, ar_health_since = now, ar_last_reconciled = now\<rparr>
      in case old of
           None \<Rightarrow> new
         | Some o' \<Rightarrow>
             let blank = (ar_desired_image new = []) in
             \<lparr>ar_desired_image = (if blank then ar_desired_image o' else ar_desired_image new),
              ar_live_image = (if ar_live_image new = None then ar_live_image o' else ar_live_image new),
              ar_track = (if blank then ar_track o' else ar_track new),
              ar_version = (if blank then ar_version o' else ar_version new),
              ar_repository = (if blank then ar_repository o' else ar_repository new),
              ar_resource_type = (if blank then ar_resource_type o' else ar_resource_type new),
              ar_status = ar_status new,
              ar_health = ar_health new,
              ar_status_since = (if ar_status o' = ar_status new then ar_status_since o' else now),
              ar_health_since = (if ar_health o' = ar_health new then ar_health_since o' else now),
              ar_last_reconciled = now\<rparr>)"

definition upsert_stmt :: "'e sync_result \<Rightarrow> time \<Rightarrow> rec_db \<Rightarrow> (time \<times> time) option \<times> rec_db" where
  "upsert_stmt res now db =
     (if res_status res \<notin> status_values \<or> res_health res \<notin> health_values then (None, db)
      else
        let k = uid (res_unit res); row = upsert_row res now (lookup (db_apps db) k)
        in (Some (ar_status_since row, ar_health_since row), db\<lparr>db_apps := put k row (db_apps db)\<rparr>))"

section \<open>All attempts on one unit\<close>

text \<open>
  Attempts are numbered; each has its own token. An attempt is idle, inside the section it acquired the
  lock for since some instant, or done. The deadline of \<open>deploySyncUnit\<close>'s context ends the section
  within \<open>lock_ttl\<close> of its beginning, which precedes the acquisition.
\<close>

datatype phase = Idle | Inside time | Finished

record lock_system =
  sy_clock :: time
  sy_db :: rec_db
  sy_phase :: "nat \<Rightarrow> phase"

definition within_deadline :: "time \<Rightarrow> phase \<Rightarrow> bool" where
  "within_deadline now ph = (case ph of Inside t \<Rightarrow> now \<le> t + lock_ttl | _ \<Rightarrow> True)"

inductive lock_step :: "unit_id \<Rightarrow> (nat \<Rightarrow> string) \<Rightarrow> lock_system \<Rightarrow> lock_system \<Rightarrow> bool" for k token where
  clock: "0 \<le> d \<Longrightarrow> \<forall>i. within_deadline (sy_clock s + d) (sy_phase s i) \<Longrightarrow>
     lock_step k token s (s\<lparr>sy_clock := sy_clock s + d\<rparr>)"
| acquire: "sy_phase s i = Idle \<Longrightarrow>
     exec_stmt fault (acquire_lock_stmt k (token i) (sy_clock s)) (sy_db s) = (answer, db) \<Longrightarrow>
     lock_step k token s (s\<lparr>sy_db := db, sy_phase := (sy_phase s)(i :=
       (if answer = Inr 1 then Inside (sy_clock s) else Finished))\<rparr>)"
| release: "sy_phase s i = Inside t \<Longrightarrow>
     exec_stmt fault (release_lock_stmt k (token i) (sy_clock s)) (sy_db s) = (answer, db) \<Longrightarrow>
     lock_step k token s (s\<lparr>sy_db := db, sy_phase := (sy_phase s)(i := Finished)\<rparr>)"

inductive lock_reachable :: "unit_id \<Rightarrow> (nat \<Rightarrow> string) \<Rightarrow> lock_system \<Rightarrow> bool" for k token where
  init: "\<forall>i. sy_phase s i = Idle \<Longrightarrow> lock_reachable k token s"
| step: "lock_reachable k token s \<Longrightarrow> lock_step k token s t \<Longrightarrow> lock_reachable k token t"

inductive_cases lock_stepE: "lock_step k token s t"

section \<open>Lemmas\<close>

lemma lookup_remove_key [simp]: "lookup (remove_key k m) k' = (if k' = k then None else lookup m k')"
  by (induction m) (auto simp: remove_key_def)

lemma acquire_cases:
  assumes "acquire_lock_stmt k tk now db = (n, db')"
  obtains (got) "n = 1" "db' = db\<lparr>db_locks := put k \<lparr>lk_holder = tk, lk_expires = now + lock_ttl\<rparr> (db_locks db)\<rparr>"
      "\<forall>row. lookup (db_locks db) k = Some row \<longrightarrow> lk_expires row < now"
  | (busy) row where "n = 0" "db' = db" "lookup (db_locks db) k = Some row" "now \<le> lk_expires row"
  using assms by (auto simp: acquire_lock_stmt_def Let_def split: option.splits if_splits)

lemma acquire_locks_other:
  "k' \<noteq> k \<Longrightarrow> lookup (db_locks (snd (acquire_lock_stmt k tk now db))) k' = lookup (db_locks db) k'"
  by (auto simp: acquire_lock_stmt_def Let_def split: option.split)

text \<open>An attempt inside its section owns the row, which has not expired.\<close>

definition lock_inv :: "unit_id \<Rightarrow> (nat \<Rightarrow> string) \<Rightarrow> lock_system \<Rightarrow> bool" where
  "lock_inv k token s \<longleftrightarrow>
     (\<forall>i t. sy_phase s i = Inside t \<longrightarrow>
        sy_clock s \<le> t + lock_ttl \<and>
        lookup (db_locks (sy_db s)) k = Some \<lparr>lk_holder = token i, lk_expires = t + lock_ttl\<rparr>)"

lemma lock_inv_unique:
  "lock_inv k token s \<Longrightarrow> inj token \<Longrightarrow> sy_phase s i = Inside t \<Longrightarrow> sy_phase s j = Inside t' \<Longrightarrow> i = j"
  unfolding lock_inv_def by (metis lock_row.ext_inject inj_eq option.inject)

lemma lock_step_inv:
  assumes "lock_step k token s t" and inj: "inj token" and inv: "lock_inv k token s"
  shows "lock_inv k token t"
  using assms(1)
proof (cases rule: lock_step.cases)
  case (clock d)
  have "sy_clock s + d \<le> u + lock_ttl" if "sy_phase s i = Inside u" for i u
    using spec [OF clock(3), of i] that by (simp add: within_deadline_def)
  with clock(1) inv show ?thesis by (simp add: lock_inv_def)
next
  case (acquire i fault answer db)
  show ?thesis
  proof (cases "\<exists>j u. sy_phase s j = Inside u")
    case True
    then obtain j u where held: "sy_phase s j = Inside u" by blast
    then have row: "lookup (db_locks (sy_db s)) k = Some \<lparr>lk_holder = token j, lk_expires = u + lock_ttl\<rparr>"
        "sy_clock s \<le> u + lock_ttl"
      using inv unfolding lock_inv_def by blast+
    then have "acquire_lock_stmt k (token i) (sy_clock s) (sy_db s) = (0, sy_db s)"
      by (simp add: acquire_lock_stmt_def)
    with acquire(3) have "db = sy_db s" "answer \<noteq> Inr 1" by (cases fault; auto)+
    with acquire(1) inv show ?thesis by (auto simp: lock_inv_def)
  next
    case False
    obtain n db' where stmt: "acquire_lock_stmt k (token i) (sy_clock s) (sy_db s) = (n, db')" by (metis surj_pair)
    show ?thesis
    proof (cases "answer = Inr 1")
      case True
      with acquire(3) stmt have "n = 1" "db = db'" by (auto simp: exec_stmt_Inr)
      with stmt have "lookup (db_locks db) k = Some \<lparr>lk_holder = token i, lk_expires = sy_clock s + lock_ttl\<rparr>"
        by (cases rule: acquire_cases) auto
      moreover have "0 \<le> lock_ttl" by (simp add: lock_ttl_def time_units)
      ultimately show ?thesis using False True acquire(1) by (auto simp: lock_inv_def)
    next
      case no: False
      with False acquire(1) show ?thesis by (auto simp: lock_inv_def)
    qed
  qed
next
  case (release i t0 fault answer db)
  have "sy_phase s j \<noteq> Inside u" if "j \<noteq> i" for j u
    using lock_inv_unique [OF inv inj release(2)] that by metis
  then show ?thesis using release(1) by (auto simp: lock_inv_def)
qed

lemma lock_reachable_inv: "lock_reachable k token s \<Longrightarrow> inj token \<Longrightarrow> lock_inv k token s"
proof (induction rule: lock_reachable.induct)
  case (init s)
  then show ?case by (simp add: lock_inv_def)
qed (simp add: lock_step_inv)

text \<open>Upserting: the row of the unit, and no other.\<close>

lemma upsert_stmt_cases:
  assumes "upsert_stmt res now db = (r, db')"
  obtains (bad) "r = None" "db' = db" "res_status res \<notin> status_values \<or> res_health res \<notin> health_values"
  | (ok) row where "row = upsert_row res now (lookup (db_apps db) (uid (res_unit res)))"
      "r = Some (ar_status_since row, ar_health_since row)"
      "db' = db\<lparr>db_apps := put (uid (res_unit res)) row (db_apps db)\<rparr>"
      "res_status res \<in> status_values" "res_health res \<in> health_values"
  using assms by (auto simp: upsert_stmt_def Let_def split: if_splits)

lemma upsert_row_simps [simp]:
  "ar_status (upsert_row res now old) = res_status res" "ar_health (upsert_row res now old) = res_health res"
  "ar_last_reconciled (upsert_row res now old) = now"
  by (simp_all add: upsert_row_def Let_def split: option.split)

section \<open>Properties\<close>


definition empty_db :: rec_db where
  "empty_db = \<lparr>db_apps = [], db_events = [], db_next_event = 1, db_locks = []\<rparr>"


definition example_token :: "nat \<Rightarrow> string" where
  "example_token i = replicate i (CHR ''t'')"


text \<open>The instant of the first of the latest results, newest first, that all have the same value.\<close>

fun held_since :: "(string \<times> time) list \<Rightarrow> time" where
  "held_since [] = 0"
| "held_since [(s, t)] = t"
| "held_since ((s, t) # (s', t') # r) = (if s = s' then held_since ((s', t') # r) else t)"

text \<open>Writing a history of results of one unit, oldest last, into a table.\<close>

fun upserts :: "('e sync_result \<times> time) list \<Rightarrow> rec_db \<Rightarrow> rec_db" where
  "upserts [] db = db"
| "upserts ((res, now) # older) db = snd (upsert_stmt res now (upserts older db))"

text \<open>\<open>status_since\<close> and \<open>health_since\<close> are the instants at which the unit's status and health last
  changed, over any history of upserts of its results: the durations the notifier's rules measure are
  those the unit has really spent in its current state, and no other unit's row moves.\<close>

theorem upserts_track_since:
  assumes "hist \<noteq> []" and "\<forall>(res, t) \<in> set hist. uid (res_unit res) = k \<and> res_status res \<in> status_values \<and>
       res_health res \<in> health_values"
    and "lookup (db_apps db) k = None"
  shows "\<exists>row. lookup (db_apps (upserts hist db)) k = Some row \<and>
     ar_status_since row = held_since (map (\<lambda>(res, t). (res_status res, t)) hist) \<and>
     ar_health_since row = held_since (map (\<lambda>(res, t). (res_health res, t)) hist) \<and>
     (\<forall>k'. k' \<noteq> k \<longrightarrow> lookup (db_apps (upserts hist db)) k' = lookup (db_apps db) k')"
proof -
  have "lookup (db_apps (upserts hist db)) k =
        (case hist of [] \<Rightarrow> None | (res, t) # older \<Rightarrow> Some (upsert_row res t (lookup (db_apps (upserts older db)) k))) \<and>
      (\<forall>k'. k' \<noteq> k \<longrightarrow> lookup (db_apps (upserts hist db)) k' = lookup (db_apps db) k') \<and>
      (hist \<noteq> [] \<longrightarrow> (\<exists>row. lookup (db_apps (upserts hist db)) k = Some row \<and>
         ar_status row = res_status (fst (hd hist)) \<and> ar_health row = res_health (fst (hd hist)) \<and>
         ar_status_since row = held_since (map (\<lambda>(res, t). (res_status res, t)) hist) \<and>
         ar_health_since row = held_since (map (\<lambda>(res, t). (res_health res, t)) hist)))"
    using assms(2)
  proof (induction hist)
    case Nil
    then show ?case using assms(3) by simp
  next
    case (Cons p older)
    obtain res t where p: "p = (res, t)" by (cases p)
    let ?row = "upsert_row res t (lookup (db_apps (upserts older db)) k)"
    have "upserts (p # older) db = upserts older db\<lparr>db_apps := put k ?row (db_apps (upserts older db))\<rparr>"
      using Cons.prems by (simp add: p upsert_stmt_def Let_def)
    moreover have "ar_status_since ?row = held_since (map (\<lambda>(res, t). (res_status res, t)) (p # older)) \<and>
        ar_health_since ?row = held_since (map (\<lambda>(res, t). (res_health res, t)) (p # older))"
    proof (cases older)
      case Nil
      then show ?thesis using assms(3) by (simp add: p upsert_row_def)
    next
      case (Cons q rest)
      obtain res' t' where q: "q = (res', t')" by (cases q)
      obtain row where "lookup (db_apps (upserts older db)) k = Some row"
          "ar_status row = res_status res'" "ar_health row = res_health res'"
          "ar_status_since row = held_since (map (\<lambda>(res, t). (res_status res, t)) older)"
          "ar_health_since row = held_since (map (\<lambda>(res, t). (res_health res, t)) older)"
        using Cons.IH Cons.prems Cons q by auto
      then show ?thesis by (simp add: p q Cons upsert_row_def Let_def)
    qed
    ultimately show ?case using Cons by (simp add: p)
  qed
  with assms(1) show ?thesis by blast
qed

definition store_unit :: sync_unit where
  "store_unit = \<lparr>su_app = ''web'', su_project = ''p'', su_env = ''prd'', su_region = ''eu'',
     su_sync = \<lparr>sp_auto = None, sp_retry = None, sp_self_heal = None, sp_windows = None, sp_observe = None\<rparr>,
     su_source_repo = ''o/r'', su_source_path = ''web.yaml'', su_source_branch = [],
     su_ignore_fields = [], su_ignore_preconditions = [], su_track = [], su_version = []\<rparr>"

definition status_result :: "string \<Rightarrow> string \<Rightarrow> unit sync_result" where
  "status_result st h = (new_result store_unit)\<lparr>res_status := st, res_health := h\<rparr>"

theorem upserts_track_since_witness:
  "\<exists>row. lookup (db_apps (upserts [(status_result ''OutOfSync'' ''Healthy'', 30), (status_result ''OutOfSync'' ''Degraded'', 20),
       (status_result ''Synced'' ''Degraded'', 10)] empty_db)) (''web'', ''p'') = Some row \<and>
     ar_status_since row = 20 \<and> ar_health_since row = 30"
  using upserts_track_since [of "[(status_result ''OutOfSync'' ''Healthy'', 30), (status_result ''OutOfSync'' ''Degraded'', 20),
       (status_result ''Synced'' ''Degraded'', 10)]" "(''web'', ''p'')" empty_db]
  by (auto simp: status_result_def new_result_def store_unit_def uid_def status_values_def health_values_def empty_db_def)

end
