(* ===== verification/Reconcile.thy ===== *)
theory Reconcile
  imports Reconcile_Store Diff_Health Preconditions
begin

text \<open>
  The reconciler (\<open>internal/reconcile\<close>): one pass over a unit fetches its manifest, resolves the
  desired digest, checks preconditions, reads live state, diffs, and deploys under the unit's lock with
  an audit row around the deploy call; \<open>RunOnce\<close>, \<open>ManualSync\<close> and \<open>DryRun\<close> are its entry points.
  The interfaces the Go type holds are the fields of \<open>deps\<close>, functions on a world \<open>'w\<close>, with the text
  \<open>err.Error()\<close> gives a deploy error; the database is
  explicit, with a script of the delay and fault of each statement.
\<close>

section \<open>Dependencies and state\<close>

record 'w deps =
  dp_manifest :: "sync_unit \<Rightarrow> 'w \<Rightarrow> (string + string) \<times> 'w"
  dp_unmarshal :: "string \<Rightarrow> string + service_def"
  dp_tags :: "(string \<Rightarrow> 'w \<Rightarrow> (string + tag list) \<times> 'w) option"
  dp_semver :: semver_lib
  dp_checker :: "('w, string) checker"
  dp_get_service :: "string \<Rightarrow> string \<Rightarrow> string \<Rightarrow> string \<Rightarrow> 'w \<Rightarrow> (cloudrun_error + live_service) \<times> 'w"
  dp_get_job :: "string \<Rightarrow> string \<Rightarrow> string \<Rightarrow> string \<Rightarrow> 'w \<Rightarrow> (cloudrun_error + live_job) \<times> 'w"
  dp_deploy_service :: "string \<Rightarrow> string \<Rightarrow> string \<Rightarrow> service_state \<Rightarrow> 'w \<Rightarrow> cloudrun_error option \<times> 'w"
  dp_deploy_job :: "string \<Rightarrow> string \<Rightarrow> string \<Rightarrow> service_state \<Rightarrow> 'w \<Rightarrow> cloudrun_error option \<times> 'w"
  dp_message :: "cloudrun_error \<Rightarrow> string"
  dp_managed :: "string list"

record 'w rec_world =
  rw_db :: rec_db
  rw_clock :: time
  rw_stmts :: "(int \<times> fault) list"
  rw_ext :: 'w

datatype rec_error =
    FetchManifest string
  | InvalidDefinition manifest_error
  | OverrideNoRepository string
  | OverrideNoResolver string
  | OverrideListTags string string
  | OverrideResolve string registry_error
  | PreconditionError "string precondition_error"
  | EnvUnsupported string
  | UnknownType string
  | LiveNotProvisioned cloudrun_error
  | GetLiveState cloudrun_error
  | ObserveMode
  | AcquireLock string
  | SyncInProgress
  | UpsertBeforeDeploy string
  | WriteEvent string
  | DeployError cloudrun_error
  | DeployAndUpdateError cloudrun_error string
  | PostCheckError cloudrun_error
  | PostCheckAndUpdateError cloudrun_error string
  | UpdateEventError string
  | UpsertError string

definition run_db :: "(time \<Rightarrow> rec_db \<Rightarrow> 'r \<times> rec_db) \<Rightarrow> 'w rec_world \<Rightarrow> (string + 'r) \<times> 'w rec_world" where
  "run_db stmt w =
     (let (delay, fault) = (case rw_stmts w of [] \<Rightarrow> (0, NoFault) | s # _ \<Rightarrow> s);
          now = rw_clock w + delay;
          (r, db) = exec_stmt fault (stmt now) (rw_db w)
      in (r, w\<lparr>rw_db := db, rw_clock := now, rw_stmts := tl (rw_stmts w)\<rparr>))"

definition run_ext :: "('w \<Rightarrow> 'r \<times> 'w) \<Rightarrow> 'w rec_world \<Rightarrow> 'r \<times> 'w rec_world" where
  "run_ext f w = (let (r, x) = f (rw_ext w) in (r, w\<lparr>rw_ext := x\<rparr>))"

record sync_options =
  so_trigger :: string
  so_actor :: string
  so_force :: bool
  so_dry_run :: bool
  so_now :: time

section \<open>Field selection\<close>

definition field_managed :: "string list \<Rightarrow> string \<Rightarrow> bool" where
  "field_managed managed name = list_ex (\<lambda>f. f = name) managed"

definition effective_managed_fields :: "string list \<Rightarrow> string list \<Rightarrow> string list" where
  "effective_managed_fields base ignore =
     (if ignore = [] then base else filter (\<lambda>f. f \<notin> set ignore) base)"

definition filter_preconditions :: "precondition list \<Rightarrow> string list \<Rightarrow> precondition list" where
  "filter_preconditions requires ignore =
     (if ignore = [] then requires
      else filter (\<lambda>req. pc_type req @ CHR '':'' # pc_name req \<notin> set ignore) requires)"

text \<open>The desired state: nil maps and a nil percentage stand for what is not managed or not declared.\<close>

definition desired_secrets :: "secret_ref list \<Rightarrow> (string \<times> secret_source) list" where
  "desired_secrets ss =
     foldl (\<lambda>m s. put (sec_name s) (sec_secret s, if sec_version s = [] then ''latest'' else sec_version s) m) [] ss"

definition desired_state :: "service_def \<Rightarrow> string \<Rightarrow> string list \<Rightarrow> service_state" where
  "desired_state sd digest managed =
     \<lparr>st_digest = digest,
      st_percent = (if field_managed managed ''traffic''
                    then (case sd_traffic sd of None \<Rightarrow> None | Some tr \<Rightarrow> tr_latest_percent tr) else None),
      st_env = (if field_managed managed ''env'' then Some (sd_env sd) else None),
      st_secrets = (if field_managed managed ''env'' then Some (desired_secrets (sd_secrets sd)) else None)\<rparr>"

section \<open>Deploying\<close>

definition status_name :: "sync_status \<Rightarrow> string" where
  "status_name s = (case s of Synced \<Rightarrow> ''Synced'' | OutOfSync \<Rightarrow> ''OutOfSync'')"

definition health_name :: "health \<Rightarrow> string" where
  "health_name h = (case h of Healthy \<Rightarrow> ''Healthy'' | Progressing \<Rightarrow> ''Progressing'' | Degraded \<Rightarrow> ''Degraded''
     | Missing \<Rightarrow> ''Missing'')"

type_synonym 'w fetcher = "'w \<Rightarrow> (cloudrun_error + (service_state \<times> string)) \<times> 'w"
type_synonym 'w deployer = "service_state \<Rightarrow> 'w \<Rightarrow> cloudrun_error option \<times> 'w"

text \<open>An error is only recorded where none is yet.\<close>

definition set_err :: "rec_error \<Rightarrow> rec_error sync_result \<Rightarrow> rec_error sync_result" where
  "set_err e res = (if res_err res = None then res\<lparr>res_err := Some e\<rparr> else res)"

text \<open>The section between acquiring and releasing the lock.\<close>

definition deploy_locked ::
  "(cloudrun_error \<Rightarrow> string) \<Rightarrow> rec_error sync_result \<Rightarrow> service_state \<Rightarrow> service_state \<Rightarrow> string \<Rightarrow> 'w deployer \<Rightarrow> 'w fetcher \<Rightarrow>
     sync_options \<Rightarrow> string list \<Rightarrow> 'w rec_world \<Rightarrow> rec_error sync_result \<times> 'w rec_world" where
  "deploy_locked msg res desired live rt deploy fetch opts managed w =
     (let k = uid (res_unit res) in
      case run_db (upsert_stmt res) w of
        (Inl e, w1) \<Rightarrow> (res\<lparr>res_err := Some (UpsertBeforeDeploy e)\<rparr>, w1)
      | (Inr None, w1) \<Rightarrow> (res\<lparr>res_err := Some (UpsertBeforeDeploy ''check constraint'')\<rparr>, w1)
      | (Inr (Some _), w1) \<Rightarrow>
         (case run_db (insert_event_stmt k (so_trigger opts) (so_actor opts) (st_digest live) (st_digest desired)) w1 of
            (Inl e, w2) \<Rightarrow> (res\<lparr>res_err := Some (WriteEvent e)\<rparr>, w2)
          | (Inr None, w2) \<Rightarrow> (res\<lparr>res_err := Some (WriteEvent ''constraint'')\<rparr>, w2)
          | (Inr (Some n), w2) \<Rightarrow>
             (case run_ext (deploy desired) w2 of
                (Some e, w3) \<Rightarrow>
                  let res = res\<lparr>res_deploy_failed := True, res_failure_message := msg e\<rparr>;
                      (upd, w4) = run_db (update_event_stmt n ''failed'' (msg e)) w3
                  in (case upd of
                        Inl ue \<Rightarrow> set_err (DeployAndUpdateError e ue) res
                      | Inr _ \<Rightarrow> set_err (DeployError e) res, w4)
              | (None, w3) \<Rightarrow>
                 (case run_ext fetch w3 of
                    (Inl e, w4) \<Rightarrow>
                      let (upd, w5) = run_db (update_event_stmt n ''succeeded'' []) w4
                      in (case upd of
                            Inl ue \<Rightarrow> set_err (PostCheckAndUpdateError e ue) res
                          | Inr _ \<Rightarrow> set_err (PostCheckError e) res, w5)
                  | (Inr (post, post_health), w4) \<Rightarrow>
                      let res = res\<lparr>res_live_image := st_digest post, res_health := post_health,
                                    res_status := status_name (compute desired post managed rt)\<rparr>;
                          (upd, w5) = run_db (update_event_stmt n ''succeeded'' []) w4
                      in (case upd of Inl ue \<Rightarrow> set_err (UpdateEventError ue) res | Inr _ \<Rightarrow> res, w5)))))"

definition deploy_sync_unit ::
  "(cloudrun_error \<Rightarrow> string) \<Rightarrow> rec_error sync_result \<Rightarrow> service_state \<Rightarrow> service_state \<Rightarrow> string \<Rightarrow> 'w deployer \<Rightarrow> 'w fetcher \<Rightarrow>
     sync_options \<Rightarrow> string list \<Rightarrow> 'w rec_world \<Rightarrow> rec_error sync_result \<times> 'w rec_world" where
  "deploy_sync_unit msg res desired live rt deploy fetch opts managed w =
     (let desired = (if field_managed managed ''image'' then desired else desired\<lparr>st_digest := st_digest live\<rparr>);
          k = uid (res_unit res);
          token = show_int (rw_clock w)
      in case run_db (acquire_lock_stmt k token) w of
           (Inl e, w1) \<Rightarrow> (res\<lparr>res_err := Some (AcquireLock e)\<rparr>, w1)
         | (Inr n, w1) \<Rightarrow>
             if n \<noteq> 1 then (res\<lparr>res_err := Some SyncInProgress\<rparr>, w1)
             else
               let (res', w2) = deploy_locked msg res desired live rt deploy fetch opts managed w1;
                   (_, w3) = run_db (release_lock_stmt k token) w2
               in (res', w3))"

definition apply_live_state ::
  "(cloudrun_error \<Rightarrow> string) \<Rightarrow> rec_error sync_result \<Rightarrow> service_state \<Rightarrow> 'w fetcher \<Rightarrow> string \<Rightarrow> 'w deployer \<Rightarrow> sync_options \<Rightarrow>
     string list \<Rightarrow> 'w rec_world \<Rightarrow> rec_error sync_result \<times> 'w rec_world" where
  "apply_live_state msg res desired fetch rt deploy opts managed w =
     (case run_ext fetch w of
        (Inl e, w1) \<Rightarrow>
          if is_not_provisioned e then
            (let res = res\<lparr>res_health := status_missing\<rparr>;
                 res = (if res_status res = [] then res\<lparr>res_status := status_missing\<rparr> else res)
             in (set_err (LiveNotProvisioned e) res, w1))
          else
            (let res = res\<lparr>res_health := status_invalid\<rparr>;
                 res = (if res_status res = [] then res\<lparr>res_status := status_invalid\<rparr> else res)
             in (set_err (GetLiveState e) res, w1))
      | (Inr (live, health_status), w1) \<Rightarrow>
          let res = res\<lparr>res_live_image := st_digest live, res_health := health_status\<rparr>;
              res = (if res_status res = []
                     then res\<lparr>res_status := status_name (compute desired live managed rt)\<rparr> else res);
              blocked = (res_status res = status_invalid \<or> res_status res = status_missing);
              policy = su_sync (res_unit res);
              auto_allowed = (auto_sync_enabled policy \<and> windows_allow (policy_windows policy) (so_now opts));
              would_deploy = (\<not> so_dry_run opts \<and> \<not> blocked \<and>
                (so_force opts \<or> (res_status res = status_name OutOfSync \<and> auto_allowed)))
          in if would_deploy \<and> res_observing res then
               (if so_force opts then set_err ObserveMode res else res, w1)
             else if would_deploy then deploy_sync_unit msg res desired live rt deploy fetch opts managed w1
             else (res, w1))"

section \<open>One unit\<close>

definition invalid_result :: "rec_error \<Rightarrow> rec_error sync_result \<Rightarrow> rec_error sync_result" where
  "invalid_result e res = res\<lparr>res_status := status_invalid, res_health := status_invalid, res_err := Some e\<rparr>"

text \<open>The digest to deploy: the manifest's, or the one a per-project track or version resolves to.\<close>

definition resolve_desired ::
  "'w deps \<Rightarrow> sync_unit \<Rightarrow> image_spec \<Rightarrow> 'w rec_world \<Rightarrow> (rec_error + string) \<times> 'w rec_world" where
  "resolve_desired dp u img w =
     (if su_track u = [] \<and> su_version u = [] then (Inr (im_digest img), w)
      else if im_repository img = [] then (Inl (OverrideNoRepository (su_project u)), w)
      else case dp_tags dp of
        None \<Rightarrow> (Inl (OverrideNoResolver (su_project u)), w)
      | Some lister \<Rightarrow>
         (case run_ext (lister (im_repository img)) w of
            (Inl e, w1) \<Rightarrow> (Inl (OverrideListTags (im_repository img) e), w1)
          | (Inr tags, w1) \<Rightarrow>
             (case resolve (dp_semver dp) tags (su_track u) (su_version u) (path_base (im_repository img)) of
                Inl e \<Rightarrow> (Inl (OverrideResolve (su_project u) e), w1)
              | Inr d \<Rightarrow> (Inr d, w1))))"

definition service_fetch ::
  "'w deps \<Rightarrow> sync_unit \<Rightarrow> string \<Rightarrow> (live_service \<Rightarrow> health) \<Rightarrow> 'w fetcher" where
  "service_fetch dp u fetch_digest assess x =
     (case dp_get_service dp (su_project u) (su_region u) (su_app u) fetch_digest x of
        (Inl e, x') \<Rightarrow> (Inl e, x')
      | (Inr live, x') \<Rightarrow> (Inr (ls_state live, health_name (assess live)), x'))"

definition job_fetch :: "'w deps \<Rightarrow> sync_unit \<Rightarrow> string \<Rightarrow> 'w fetcher" where
  "job_fetch dp u fetch_digest x =
     (case dp_get_job dp (su_project u) (su_region u) (su_app u) fetch_digest x of
        (Inl e, x') \<Rightarrow> (Inl e, x')
      | (Inr live, x') \<Rightarrow> (Inr (lj_state live, health_name (assess_job live)), x'))"

text \<open>What follows once the manifest is parsed and the digest resolved.\<close>

definition reconcile_resolved ::
  "'w deps \<Rightarrow> sync_unit \<Rightarrow> sync_options \<Rightarrow> service_def \<Rightarrow> string \<Rightarrow> rec_error sync_result \<Rightarrow> 'w rec_world \<Rightarrow>
     rec_error sync_result \<times> 'w rec_world" where
  "reconcile_resolved dp u opts sd digest res w =
     (let (failure, w1) = run_ext (precondition_check (dp_checker dp) (su_project u)
            (filter_preconditions (sd_requires sd) (su_ignore_preconditions u))) w;
          res = (case failure of None \<Rightarrow> res
                 | Some e \<Rightarrow> res\<lparr>res_status := status_invalid, res_err := Some (PreconditionError e)\<rparr>);
          managed = effective_managed_fields (dp_managed dp) (su_ignore_fields u);
          desired = desired_state sd digest managed;
          fetch_digest = (if field_managed managed ''image'' then digest else []);
          traffic_managed = field_managed managed ''traffic'';
          rt = sd_resource_type sd
      in if rt = ''job'' \<and> field_managed managed ''env'' \<and> res_err res = None
         then (invalid_result (EnvUnsupported rt) res, w1)
         else if rt = ''service'' then
           apply_live_state (dp_message dp) res desired
             (service_fetch dp u fetch_digest (\<lambda>live. assess_service desired live traffic_managed)) rt
             (dp_deploy_service dp (su_project u) (su_region u) (su_app u)) opts managed w1
         else if rt = ''workerPool'' then
           apply_live_state (dp_message dp) res desired (service_fetch dp u fetch_digest assess_worker_pool) rt
             (dp_deploy_service dp (su_project u) (su_region u) (su_app u)) opts managed w1
         else if rt = ''job'' then
           apply_live_state (dp_message dp) res desired (job_fetch dp u fetch_digest) rt
             (dp_deploy_job dp (su_project u) (su_region u) (su_app u)) opts managed w1
         else (invalid_result (UnknownType rt) res, w1))"

definition reconcile ::
  "'w deps \<Rightarrow> sync_unit \<Rightarrow> sync_options \<Rightarrow> 'w rec_world \<Rightarrow> rec_error sync_result \<times> 'w rec_world" where
  "reconcile dp u opts w =
     (let res = (new_result u)\<lparr>res_observing := observe_mode_enabled (su_sync u)\<rparr> in
      case run_ext (dp_manifest dp u) w of
        (Inl e, w1) \<Rightarrow> (invalid_result (FetchManifest e) res, w1)
      | (Inr raw, w1) \<Rightarrow>
         (case manifest_parse (dp_unmarshal dp) raw of
            Inl e \<Rightarrow> (invalid_result (InvalidDefinition e) res, w1)
          | Inr sd \<Rightarrow>
              let img = sd_image sd;
                  res = res\<lparr>res_resource_type := sd_resource_type sd, res_track := im_track img,
                            res_version := im_version img, res_repository := im_repository img\<rparr>
              in case resolve_desired dp u img w1 of
                   (Inl e, w2) \<Rightarrow> (invalid_result e res, w2)
                 | (Inr digest, w2) \<Rightarrow>
                     let res = (if su_track u \<noteq> [] \<or> su_version u \<noteq> []
                                then res\<lparr>res_track := su_track u, res_version := su_version u\<rparr> else res)
                     in reconcile_resolved dp u opts sd digest (res\<lparr>res_desired_image := digest\<rparr>) w2))"

section \<open>Entry points\<close>

definition upsert :: "rec_error sync_result \<Rightarrow> 'w rec_world \<Rightarrow> (string option \<times> rec_error sync_result) \<times> 'w rec_world" where
  "upsert res w =
     (case run_db (upsert_stmt res) w of
        (Inl e, w1) \<Rightarrow> ((Some e, res), w1)
      | (Inr None, w1) \<Rightarrow> ((Some ''check constraint'', res), w1)
      | (Inr (Some (ss, hs)), w1) \<Rightarrow> ((None, res\<lparr>res_status_since := Some ss, res_health_since := Some hs\<rparr>), w1))"

definition auto_options :: "time \<Rightarrow> sync_options" where
  "auto_options now = \<lparr>so_trigger = ''auto'', so_actor = ''runcd-controller'', so_force = False, so_dry_run = False, so_now = now\<rparr>"

definition manual_options :: "string \<Rightarrow> time \<Rightarrow> sync_options" where
  "manual_options actor now = \<lparr>so_trigger = ''manual'', so_actor = actor, so_force = True, so_dry_run = False, so_now = now\<rparr>"

definition dry_run_options :: "time \<Rightarrow> sync_options" where
  "dry_run_options now = \<lparr>so_trigger = ''manual'', so_actor = [], so_force = False, so_dry_run = True, so_now = now\<rparr>"

definition dry_run :: "'w deps \<Rightarrow> sync_unit \<Rightarrow> 'w rec_world \<Rightarrow> rec_error sync_result \<times> 'w rec_world" where
  "dry_run dp u w = reconcile dp u (dry_run_options (rw_clock w)) w"

text \<open>
  The notifier is a function on the world; its error is ignored. The result is what it is evaluated on.
\<close>

definition manual_sync ::
  "'w deps \<Rightarrow> (rec_error sync_result \<Rightarrow> 'w rec_world \<Rightarrow> 'w rec_world) \<Rightarrow> sync_unit \<Rightarrow> string \<Rightarrow> 'w rec_world \<Rightarrow>
     (rec_error sync_result \<times> string option) \<times> 'w rec_world" where
  "manual_sync dp notify u actor w =
     (let (res, w1) = reconcile dp u (manual_options actor (rw_clock w)) w in
      if res_err res = Some SyncInProgress then ((res, None), notify res w1)
      else let ((err, res), w2) = upsert res w1 in ((res, err), notify res w2))"

text \<open>One unit of \<open>RunOnce\<close>: its result, and the error its goroutine returns.\<close>

definition run_unit ::
  "'w deps \<Rightarrow> (rec_error sync_result \<Rightarrow> 'w rec_world \<Rightarrow> 'w rec_world) \<Rightarrow> time \<Rightarrow> sync_unit \<Rightarrow> 'w rec_world \<Rightarrow>
     (rec_error sync_result \<times> string option) \<times> 'w rec_world" where
  "run_unit dp notify now u w =
     (let (res, w1) = reconcile dp u (auto_options now) w in
      if res_err res = Some SyncInProgress then ((res, None), notify res w1)
      else let ((err, res), w2) = upsert res w1;
               res = (case err of None \<Rightarrow> res | Some e \<Rightarrow> set_err (UpsertError e) res)
           in ((res, err), notify res w2))"

text \<open>The units of a pass, in the order their goroutines happen to run; the error is the first one's.\<close>

fun run_units ::
  "'w deps \<Rightarrow> (rec_error sync_result \<Rightarrow> 'w rec_world \<Rightarrow> 'w rec_world) \<Rightarrow> time \<Rightarrow> sync_unit list \<Rightarrow> 'w rec_world \<Rightarrow>
     (rec_error sync_result \<times> string option) list \<times> 'w rec_world" where
  "run_units dp notify now [] w = ([], w)"
| "run_units dp notify now (u # us) w =
     (let (r, w1) = run_unit dp notify now u w; (rs, w2) = run_units dp notify now us w1 in (r # rs, w2))"

definition run_once ::
  "'w deps \<Rightarrow> (rec_error sync_result \<Rightarrow> 'w rec_world \<Rightarrow> 'w rec_world) \<Rightarrow> sync_unit list \<Rightarrow> 'w rec_world \<Rightarrow>
     (rec_error sync_result list \<times> string option) \<times> 'w rec_world" where
  "run_once dp notify us w =
     (let (rs, w1) = run_units dp notify (rw_clock w) us w
      in ((map fst rs, first_some (map snd rs)), w1))"


section \<open>Lemmas\<close>

lemma run_ext_eq: "run_ext f w = (fst (f (rw_ext w)), w\<lparr>rw_ext := snd (f (rw_ext w))\<rparr>)"
  by (simp add: run_ext_def split_beta)

text \<open>The same dependencies with other deploy calls, and the same options as a dry run.\<close>

definition with_deploys ::
  "(string \<Rightarrow> string \<Rightarrow> string \<Rightarrow> 'w deployer) \<Rightarrow> (string \<Rightarrow> string \<Rightarrow> string \<Rightarrow> 'w deployer) \<Rightarrow> 'w deps \<Rightarrow> 'w deps" where
  "with_deploys ds dj dp = dp\<lparr>dp_deploy_service := ds, dp_deploy_job := dj\<rparr>"

lemma with_deploys_simps [simp]:
  "dp_manifest (with_deploys ds dj dp) = dp_manifest dp" "dp_unmarshal (with_deploys ds dj dp) = dp_unmarshal dp"
  "dp_tags (with_deploys ds dj dp) = dp_tags dp" "dp_semver (with_deploys ds dj dp) = dp_semver dp"
  "dp_checker (with_deploys ds dj dp) = dp_checker dp" "dp_get_service (with_deploys ds dj dp) = dp_get_service dp"
  "dp_get_job (with_deploys ds dj dp) = dp_get_job dp" "dp_deploy_service (with_deploys ds dj dp) = ds"
  "dp_deploy_job (with_deploys ds dj dp) = dj" "dp_message (with_deploys ds dj dp) = dp_message dp"
  "dp_managed (with_deploys ds dj dp) = dp_managed dp"
  by (simp_all add: with_deploys_def)

lemma with_own_deploys: "with_deploys (dp_deploy_service dp) (dp_deploy_job dp) dp = dp"
  by (simp add: with_deploys_def)

definition as_dry_run :: "sync_options \<Rightarrow> sync_options" where
  "as_dry_run opts = opts\<lparr>so_dry_run := True\<rparr>"

text \<open>The condition under which a result read without deploying leads to a deploy.\<close>

definition deploy_allowed :: "sync_options \<Rightarrow> 'e sync_result \<Rightarrow> bool" where
  "deploy_allowed opts res \<longleftrightarrow> \<not> so_dry_run opts \<and> res_status res \<notin> {status_invalid, status_missing} \<and>
     \<not> res_observing res \<and>
     (so_force opts \<or> res_status res = status_name OutOfSync \<and> auto_sync_enabled (su_sync (res_unit res)) \<and>
        windows_allow (policy_windows (su_sync (res_unit res))) (so_now opts))"

definition observe_blocks :: "sync_options \<Rightarrow> 'e sync_result \<Rightarrow> bool" where
  "observe_blocks opts res \<longleftrightarrow> so_force opts \<and> \<not> so_dry_run opts \<and>
     res_status res \<notin> {status_invalid, status_missing} \<and> res_observing res"

definition health_strings :: "string set" where
  "health_strings = {''Healthy'', ''Progressing'', ''Degraded'', ''Missing''}"

lemma health_name_strings [simp, intro]: "health_name h \<in> health_strings"
  by (cases h) (simp_all add: health_name_def health_strings_def)

definition undeployed :: "'e sync_result \<Rightarrow> bool" where
  "undeployed res \<longleftrightarrow> \<not> res_deploy_failed res \<and> res_failure_message res = []"

definition fetch_ok :: "'w fetcher \<Rightarrow> bool" where
  "fetch_ok fetch \<longleftrightarrow> (\<forall>x live h x'. fetch x = (Inr (live, h), x') \<longrightarrow> h \<in> health_strings)"

lemma fetch_ok_intros: "fetch_ok (service_fetch dp u d assess)" "fetch_ok (job_fetch dp u d)"
  by (auto simp: fetch_ok_def service_fetch_def job_fetch_def split: prod.splits sum.splits)

text \<open>What a parsed manifest and a digest make of a unit: the desired state, and how to read the live one.\<close>

definition live_fetch ::
  "'w deps \<Rightarrow> sync_unit \<Rightarrow> string list \<Rightarrow> service_state \<Rightarrow> string \<Rightarrow> string \<Rightarrow> 'w fetcher" where
  "live_fetch dp u managed desired rt digest =
     (let fd = (if field_managed managed ''image'' then digest else []) in
      if rt = ''service'' then service_fetch dp u fd (\<lambda>l. assess_service desired l (field_managed managed ''traffic''))
      else if rt = ''workerPool'' then service_fetch dp u fd assess_worker_pool else job_fetch dp u fd)"

definition planned ::
  "'w deps \<Rightarrow> sync_unit \<Rightarrow> string list \<Rightarrow> service_state \<Rightarrow> string \<Rightarrow> 'w fetcher \<Rightarrow> bool" where
  "planned dp u managed desired rt fetch \<longleftrightarrow>
     (\<exists>raw sd digest. manifest_parse (dp_unmarshal dp) raw = Inr sd \<and> rt = sd_resource_type sd \<and>
        desired = desired_state sd digest managed \<and> fetch = live_fetch dp u managed desired rt digest \<and>
        (su_track u = [] \<and> su_version u = [] \<longrightarrow> digest = im_digest (sd_image sd)))"

text \<open>A reconciliation either ends before the live state is read, or it is \<open>apply_live_state\<close> on what the
  manifest, the tags and the preconditions gave; neither touches the database.\<close>

lemma reconcile_resolved_cases:
  assumes "res_status res = []" and "res_err res = None"
  obtains (invalid) res' x where "\<And>ds dj opts. reconcile_resolved (with_deploys ds dj dp) u opts sd digest res w = (res', w\<lparr>rw_ext := x\<rparr>)"
      "res_status res' = status_invalid" "res_health res' = status_invalid"
      "res_unit res' = res_unit res" "res_observing res' = res_observing res" "undeployed res' = undeployed res"
  | (live) res' desired fetch rt managed x where
      "\<And>ds dj opts. reconcile_resolved (with_deploys ds dj dp) u opts sd digest res w =
         apply_live_state (dp_message dp) res' desired fetch rt ((if rt = ''job'' then dj else ds) (su_project u) (su_region u) (su_app u))
           opts managed (w\<lparr>rw_ext := x\<rparr>)"
      "fetch_ok fetch" "res_status res' = [] \<and> res_err res' = None \<or> res_status res' = status_invalid"
      "res_unit res' = res_unit res" "res_observing res' = res_observing res"
      "managed = effective_managed_fields (dp_managed dp) (su_ignore_fields u)"
      "desired = desired_state sd digest managed" "rt = sd_resource_type sd"
      "fetch = live_fetch dp u managed desired rt digest"
      "res_resource_type res' = res_resource_type res"
      "res_desired_image res' = res_desired_image res" "undeployed res' = undeployed res"
proof -
  obtain failure x where chk: "run_ext (precondition_check (dp_checker dp) (su_project u)
      (filter_preconditions (sd_requires sd) (su_ignore_preconditions u))) w = (failure, w\<lparr>rw_ext := x\<rparr>)"
    by (simp add: run_ext_eq)
  define res' where "res' = (case failure of None \<Rightarrow> res
      | Some e \<Rightarrow> res\<lparr>res_status := status_invalid, res_err := Some (PreconditionError e)\<rparr>)"
  have res': "res_status res' = [] \<and> res_err res' = None \<or> res_status res' = status_invalid"
      "res_unit res' = res_unit res" "res_observing res' = res_observing res"
      "res_desired_image res' = res_desired_image res" "undeployed res' = undeployed res"
      "res_resource_type res' = res_resource_type res"
    using assms by (auto simp: res'_def undeployed_def split: option.split)
  have fetch_same: "service_fetch (with_deploys ds dj dp) u d a = service_fetch dp u d a"
    "job_fetch (with_deploys ds dj dp) u d = job_fetch dp u d" for ds dj d a
    by (simp_all add: fun_eq_iff service_fetch_def job_fetch_def)
  let ?managed = "effective_managed_fields (dp_managed dp) (su_ignore_fields u)"
  let ?fd = "if field_managed ?managed ''image'' then digest else []"
  let ?rt = "sd_resource_type sd"
  note unf = reconcile_resolved_def with_deploys_simps fetch_same Let_def chk prod.case res'_def [symmetric]
  consider "?rt = ''job'' \<and> field_managed ?managed ''env'' \<and> res_err res' = None" | "?rt = ''service''" | "?rt = ''workerPool''"
    | "?rt = ''job''" "\<not> (?rt = ''job'' \<and> field_managed ?managed ''env'' \<and> res_err res' = None)"
    | "?rt \<noteq> ''service'' \<and> ?rt \<noteq> ''workerPool'' \<and> ?rt \<noteq> ''job''"
    by blast
  then show ?thesis
  proof cases
    case 1
    show ?thesis by (rule invalid [of "invalid_result (EnvUnsupported ?rt) res'" x])
      (use 1 res' in \<open>simp_all add: unf invalid_result_def undeployed_def\<close>)
  next
    case 5
    show ?thesis by (rule invalid [of "invalid_result (UnknownType ?rt) res'" x])
      (use 5 res' in \<open>simp_all add: unf invalid_result_def undeployed_def\<close>)
  next
    case 2
    show ?thesis
      by (rule live [of res' "desired_state sd digest ?managed" "service_fetch dp u ?fd (\<lambda>l. assess_service (desired_state sd digest ?managed) l (field_managed ?managed ''traffic''))" ?rt ?managed x])
        (use 2 res' in \<open>simp_all add: unf fetch_ok_intros live_fetch_def\<close>)
  next
    case 3
    show ?thesis
      by (rule live [of res' "desired_state sd digest ?managed" "service_fetch dp u ?fd assess_worker_pool" ?rt ?managed x])
        (use 3 res' in \<open>simp_all add: unf fetch_ok_intros live_fetch_def\<close>)
  next
    case 4
    show ?thesis
      by (rule live [of res' "desired_state sd digest ?managed" "job_fetch dp u ?fd" ?rt ?managed x])
        (use 4 res' in \<open>auto simp: unf fetch_ok_intros live_fetch_def\<close>)
  qed
qed

lemma resolve_desired_ext:
  obtains r x where "\<And>ds dj. resolve_desired (with_deploys ds dj dp) u img w = (r, w\<lparr>rw_ext := x\<rparr>)"
proof -
  have keep: "w = w\<lparr>rw_ext := rw_ext w\<rparr>" by simp
  have "\<exists>r x. resolve_desired dp u img w = (r, w\<lparr>rw_ext := x\<rparr>)"
  proof (cases "su_track u = [] \<and> su_version u = [] \<or> im_repository img = [] \<or> dp_tags dp = None")
    case True
    then have "\<exists>r. resolve_desired dp u img w = (r, w)" by (auto simp: resolve_desired_def)
    with keep show ?thesis by metis
  next
    case False
    then obtain lister where "dp_tags dp = Some lister" by auto
    with False show ?thesis
      by (auto simp: resolve_desired_def run_ext_eq split: sum.split)
  qed
  moreover have "resolve_desired (with_deploys ds dj dp) u img w = resolve_desired dp u img w" for ds dj
    unfolding resolve_desired_def with_deploys_simps ..
  ultimately show ?thesis using that by metis
qed

text \<open>Up to the desired image: the pass is invalid, or goes on with a parsed manifest and its digest.\<close>

lemma reconcile_desired_cases:
  obtains (invalid) res x where "\<And>ds dj opts. reconcile (with_deploys ds dj dp) u opts w = (res, w\<lparr>rw_ext := x\<rparr>)"
      "res_status res = status_invalid" "res_health res = status_invalid"
      "res_unit res = u" "res_observing res = observe_mode_enabled (su_sync u)" "undeployed res"
  | (desired) raw sd digest res x where
      "\<And>ds dj opts. reconcile (with_deploys ds dj dp) u opts w =
         reconcile_resolved (with_deploys ds dj dp) u opts sd digest res (w\<lparr>rw_ext := x\<rparr>)"
      "manifest_parse (dp_unmarshal dp) raw = Inr sd"
      "su_track u = [] \<and> su_version u = [] \<longrightarrow> digest = im_digest (sd_image sd)"
      "res_status res = []" "res_err res = None" "res_unit res = u" "res_observing res = observe_mode_enabled (su_sync u)"
      "res_desired_image res = digest" "undeployed res" "res_resource_type res = sd_resource_type sd"
proof -
  let ?res = "(new_result u)\<lparr>res_observing := observe_mode_enabled (su_sync u)\<rparr> :: rec_error sync_result"
  note unf = reconcile_def with_deploys_simps run_ext_eq Let_def prod.case
  obtain raw x where raw: "dp_manifest dp u (rw_ext w) = (raw, x)" by (metis surj_pair)
  consider e where "raw = Inl e" | body e where "raw = Inr body" "manifest_parse (dp_unmarshal dp) body = Inl e"
    | body sd where "raw = Inr body" "manifest_parse (dp_unmarshal dp) body = Inr sd"
    by (metis sum.exhaust)
  then show ?thesis
  proof cases
    case (1 e)
    show ?thesis by (rule invalid [of "invalid_result (FetchManifest e) ?res" x])
      (simp_all add: unf raw 1 invalid_result_def new_result_def undeployed_def)
  next
    case (2 body e)
    show ?thesis by (rule invalid [of "invalid_result (InvalidDefinition e) ?res" x])
      (simp_all add: unf raw 2 invalid_result_def new_result_def undeployed_def)
  next
    case (3 body sd)
    let ?img = "sd_image sd"
    let ?res1 = "?res\<lparr>res_resource_type := sd_resource_type sd, res_track := im_track ?img,
                          res_version := im_version ?img, res_repository := im_repository ?img\<rparr>"
    obtain r y where r: "\<And>ds dj. resolve_desired (with_deploys ds dj dp) u ?img (w\<lparr>rw_ext := x\<rparr>) = (r, w\<lparr>rw_ext := y\<rparr>)"
      using resolve_desired_ext [of dp u ?img "w\<lparr>rw_ext := x\<rparr>"] by auto
    show ?thesis
    proof (cases r)
      case L: (Inl e)
      show ?thesis by (rule invalid [of "invalid_result e ?res1" y])
        (simp_all add: unf raw 3 r L invalid_result_def new_result_def undeployed_def)
    next
      case R: (Inr digest)
      let ?res2 = "(if su_track u \<noteq> [] \<or> su_version u \<noteq> []
          then ?res1\<lparr>res_track := su_track u, res_version := su_version u\<rparr> else ?res1)\<lparr>res_desired_image := digest\<rparr>"
      have plain: "su_track u = [] \<and> su_version u = [] \<longrightarrow> digest = im_digest ?img"
        using r [of undefined undefined] R by (auto simp: resolve_desired_def)
      show ?thesis
        by (rule desired [of sd digest ?res2 y body]) (use 3 plain in \<open>auto simp: unf raw r R new_result_def undeployed_def\<close>)
    qed
  qed
qed

lemma reconcile_cases:
  obtains (invalid) res x where "\<And>ds dj opts. reconcile (with_deploys ds dj dp) u opts w = (res, w\<lparr>rw_ext := x\<rparr>)"
      "res_status res = status_invalid" "res_health res = status_invalid"
      "res_unit res = u" "res_observing res = observe_mode_enabled (su_sync u)" "undeployed res"
  | (live) res desired fetch rt managed x where
      "\<And>ds dj opts. reconcile (with_deploys ds dj dp) u opts w =
         apply_live_state (dp_message dp) res desired fetch rt ((if rt = ''job'' then dj else ds) (su_project u) (su_region u) (su_app u))
           opts managed (w\<lparr>rw_ext := x\<rparr>)"
      "fetch_ok fetch" "res_status res = [] \<and> res_err res = None \<or> res_status res = status_invalid"
      "res_unit res = u" "res_observing res = observe_mode_enabled (su_sync u)"
      "managed = effective_managed_fields (dp_managed dp) (su_ignore_fields u)"
      "st_digest desired = res_desired_image res" "undeployed res"
      "planned dp u managed desired rt fetch" "res_resource_type res = rt"
proof (cases rule: reconcile_desired_cases [of dp u w, case_names unread desired])
  case (unread res x)
  then show ?thesis by (rule invalid)
next
  case (desired raw sd digest res2 y)
  show ?thesis
  proof (rule reconcile_resolved_cases [OF desired(4,5), of dp u sd digest "w\<lparr>rw_ext := y\<rparr>"], goal_cases)
    case (1 res' x)
    show ?thesis by (rule invalid [of res' x]) (use 1 desired in simp_all)
  next
    case (2 res' want fetch rt managed x)
    have "planned dp u managed want rt fetch"
      unfolding planned_def using desired(2,3) 2(7-9) by blast
    then show ?thesis
      by (intro live [of res' want fetch rt managed x]) (use 2(1-8,10-) desired in \<open>simp_all add: desired_state_def\<close>)
  qed
qed

text \<open>Reading the live state, and what it leads to.\<close>

definition observed_result ::
  "rec_error sync_result \<Rightarrow> service_state \<Rightarrow> string list \<Rightarrow> string \<Rightarrow> service_state \<Rightarrow> string \<Rightarrow> rec_error sync_result" where
  "observed_result res desired managed rt live h =
     res\<lparr>res_live_image := st_digest live, res_health := h,
         res_status := (if res_status res = [] then status_name (compute desired live managed rt) else res_status res)\<rparr>"

lemma apply_live_state_cases:
  assumes unit: "res_observing res = observe_mode_enabled (su_sync (res_unit res))"
  obtains (failed) res' x where "\<And>deploy opts. apply_live_state msg res desired fetch rt deploy opts managed w = (res', w\<lparr>rw_ext := x\<rparr>)"
      "res_status res' \<in> {status_invalid, status_missing} \<or> res_status res' = res_status res"
      "res_status res = [] \<longrightarrow> res_status res' \<in> {status_invalid, status_missing}"
      "res_health res' \<in> {status_invalid, status_missing}"
      "res_unit res' = res_unit res" "res_observing res' = res_observing res" "undeployed res' = undeployed res"
  | (read) live h x where "fetch (rw_ext w) = (Inr (live, h), x)"
      "\<And>deploy opts. apply_live_state msg res desired fetch rt deploy opts managed w =
         (let res' = observed_result res desired managed rt live h; w1 = w\<lparr>rw_ext := x\<rparr> in
          if deploy_allowed opts res' then deploy_sync_unit msg res' desired live rt deploy fetch opts managed w1
          else (if observe_blocks opts res' then set_err ObserveMode res' else res', w1))"
proof (cases "fetch (rw_ext w)")
  case (Pair r x)
  show ?thesis
  proof (cases r)
    case (Inl e)
    define res' where "res' = fst (apply_live_state msg res desired fetch rt undefined undefined managed w)"
    show ?thesis
      by (rule failed [of res' x])
        (auto simp: apply_live_state_def run_ext_eq Pair Inl res'_def Let_def set_err_def undeployed_def)
  next
    case (Inr lh)
    obtain live h where lh: "lh = (live, h)" by (cases lh)
    show ?thesis
    proof (rule read [of live h x])
      fix deploy opts
      let ?res = "observed_result res desired managed rt live h"
      have obs: "(if res_status (res\<lparr>res_live_image := st_digest live, res_health := h\<rparr>) = []
          then res\<lparr>res_live_image := st_digest live, res_health := h\<rparr>\<lparr>res_status := status_name (compute desired live managed rt)\<rparr>
          else res\<lparr>res_live_image := st_digest live, res_health := h\<rparr>) = ?res"
        by (simp add: observed_result_def)
      have step: "apply_live_state msg res desired fetch rt deploy opts managed w =
         (if (\<not> so_dry_run opts \<and> \<not> (res_status ?res = status_invalid \<or> res_status ?res = status_missing) \<and>
              (so_force opts \<or> (res_status ?res = status_name OutOfSync \<and> auto_sync_enabled (su_sync (res_unit ?res)) \<and>
                 windows_allow (policy_windows (su_sync (res_unit ?res))) (so_now opts)))) \<and> res_observing ?res
          then (if so_force opts then set_err ObserveMode ?res else ?res, w\<lparr>rw_ext := x\<rparr>)
          else if (\<not> so_dry_run opts \<and> \<not> (res_status ?res = status_invalid \<or> res_status ?res = status_missing) \<and>
              (so_force opts \<or> (res_status ?res = status_name OutOfSync \<and> auto_sync_enabled (su_sync (res_unit ?res)) \<and>
                 windows_allow (policy_windows (su_sync (res_unit ?res))) (so_now opts))))
          then deploy_sync_unit msg ?res desired live rt deploy fetch opts managed (w\<lparr>rw_ext := x\<rparr>)
          else (?res, w\<lparr>rw_ext := x\<rparr>))"
        unfolding apply_live_state_def run_ext_eq Pair Inr lh fst_conv snd_conv prod.case sum.case Let_def obs ..
      show "apply_live_state msg res desired fetch rt deploy opts managed w =
         (let res' = ?res; w1 = w\<lparr>rw_ext := x\<rparr> in
          if deploy_allowed opts res' then deploy_sync_unit msg res' desired live rt deploy fetch opts managed w1
          else (if observe_blocks opts res' then set_err ObserveMode res' else res', w1))"
        unfolding step Let_def deploy_allowed_def observe_blocks_def
        by (cases "res_observing ?res"; cases "res_status ?res = status_invalid \<or> res_status ?res = status_missing") auto
    qed (simp add: Pair Inr lh)
  qed
qed

text \<open>Statements: what they keep, and their effect when nothing fails.\<close>

lemma run_db_cases:
  assumes "run_db stmt w = (r, w')"
  obtains (ok) v t where "r = Inr v" "stmt t (rw_db w) = (v, rw_db w')" "rw_ext w' = rw_ext w"
  | (err) e t where "r = Inl e" "rw_db w' \<in> {rw_db w, snd (stmt t (rw_db w))}" "rw_ext w' = rw_ext w"
proof -
  obtain d f where df: "(case rw_stmts w of [] \<Rightarrow> (0, NoFault) | s # _ \<Rightarrow> s) = (d, f)" by (metis surj_pair)
  obtain db where db: "exec_stmt f (stmt (rw_clock w + d)) (rw_db w) = (r, db)"
      "w' = w\<lparr>rw_db := db, rw_clock := rw_clock w + d, rw_stmts := tl (rw_stmts w)\<rparr>"
    using assms by (auto simp: run_db_def df Let_def split: prod.splits)
  have "db \<in> {rw_db w, snd (stmt (rw_clock w + d) (rw_db w))}"
    using exec_stmt_table [of f "stmt (rw_clock w + d)" "rw_db w"] db(1) by simp
  then show ?thesis
    using db ok [of _ "rw_clock w + d"] err [of _ "rw_clock w + d"] by (cases r) (auto simp: exec_stmt_Inr)
qed

lemma run_db_keeps:
  assumes "\<And>t db. f (snd (stmt t db)) = f db" and "run_db stmt w = (r, w')"
  shows "f (rw_db w') = f (rw_db w)"
  using assms(2)
proof (cases rule: run_db_cases)
  case (ok v t)
  then show ?thesis using assms(1) [of t "rw_db w"] by simp
qed (use assms(1) in auto)

definition faultless :: "'w rec_world \<Rightarrow> bool" where
  "faultless w \<longleftrightarrow> list_all (\<lambda>s. snd s = NoFault \<and> 0 \<le> fst s) (rw_stmts w)"

lemma faultless_ext [simp]: "faultless (w\<lparr>rw_ext := x\<rparr>) = faultless w"
  by (simp add: faultless_def)

lemma run_db_faultless:
  assumes "faultless w"
  obtains t v db w' where "rw_clock w \<le> t" "stmt t (rw_db w) = (v, db)" "run_db stmt w = (Inr v, w')"
    "rw_db w' = db" "rw_clock w' = t" "rw_ext w' = rw_ext w" "faultless w'"
proof -
  obtain d where d: "(case rw_stmts w of [] \<Rightarrow> (0, NoFault) | s # _ \<Rightarrow> s) = (d, NoFault)" "0 \<le> d"
    using assms by (cases "rw_stmts w") (auto simp: faultless_def)
  obtain v db where v: "stmt (rw_clock w + d) (rw_db w) = (v, db)" by (metis surj_pair)
  let ?w = "w\<lparr>rw_db := db, rw_clock := rw_clock w + d, rw_stmts := tl (rw_stmts w)\<rparr>"
  have "run_db stmt w = (Inr v, ?w)" by (simp add: run_db_def d v exec_stmt_def)
  moreover have "faultless ?w" using assms by (cases "rw_stmts w") (auto simp: faultless_def)
  ultimately show ?thesis using that [of "rw_clock w + d" v db ?w] v d(2) by simp
qed

lemma stmt_next_event [simp]:
  "db_next_event (snd (acquire_lock_stmt k tk t db)) = db_next_event db"
  "db_next_event (snd (release_lock_stmt k tk t db)) = db_next_event db"
  "db_next_event (snd (update_event_stmt n r e t db)) = db_next_event db"
  "db_next_event (snd (upsert_stmt res t db)) = db_next_event db"
  by (auto simp: acquire_lock_stmt_def release_lock_stmt_def update_event_stmt_def upsert_stmt_def Let_def
      split: option.split)

lemma insert_event_next:
  "insert_event_stmt k tr ac f t' t db = (Some n, db') \<Longrightarrow> db_next_event db' = db_next_event db + 1"
  by (auto simp: insert_event_stmt_def Let_def split: if_splits)

text \<open>Without an audit row there was no deploy call.\<close>

lemma deploy_locked_silent:
  assumes "deploy_locked msg res desired live rt deploy fetch opts managed w = (res', w')"
    and "db_next_event (rw_db w') = db_next_event (rw_db w)"
  shows "deploy_locked msg res desired live rt deploy' fetch opts managed w = (res', w')"
proof -
  let ?ins = "insert_event_stmt (uid (res_unit res)) (so_trigger opts) (so_actor opts) (st_digest live) (st_digest desired)"
  obtain r1 w1 where up: "run_db (upsert_stmt res) w = (r1, w1)" by (metis surj_pair)
  obtain r2 w2 where ins: "run_db ?ins w1 = (r2, w2)" by (metis surj_pair)
  have keep: "db_next_event (rw_db w1) = db_next_event (rw_db w)" by (rule run_db_keeps [OF _ up]) simp
  have kept: "db_next_event (rw_db w'') = db_next_event (rw_db v)"
    if "run_db (update_event_stmt n a b) v = (x, w'')" for n a b v x w''
    by (rule run_db_keeps [OF _ that]) simp
  show ?thesis
  proof (cases "(\<exists>row. r1 = Inr (Some row)) \<and> (\<exists>n. r2 = Inr (Some n))")
    case True
    then obtain row n where r: "r1 = Inr (Some row)" "r2 = Inr (Some n)" by auto
    have "db_next_event (rw_db w2) = db_next_event (rw_db w) + 1"
      using ins r(2) keep by (cases rule: run_db_cases) (auto dest: insert_event_next)
    moreover have "db_next_event (rw_db w') = db_next_event (rw_db w2)"
      using assms(1) by (auto simp: deploy_locked_def up ins r Let_def run_ext_eq dest!: kept
          split: option.splits sum.splits prod.splits)
    ultimately show ?thesis using assms(2) by simp
  next
    case False
    then show ?thesis
      using assms(1) by (auto simp: deploy_locked_def up ins split: sum.splits option.splits)
  qed
qed

lemma deploy_sync_unit_silent:
  assumes "deploy_sync_unit msg res desired live rt deploy fetch opts managed w = (res', w')"
    and "db_next_event (rw_db w') = db_next_event (rw_db w)"
  shows "deploy_sync_unit msg res desired live rt deploy' fetch opts managed w = (res', w')"
proof -
  let ?acq = "acquire_lock_stmt (uid (res_unit res)) (show_int (rw_clock w))"
  let ?des = "if field_managed managed ''image'' then desired else desired\<lparr>st_digest := st_digest live\<rparr>"
  obtain r w1 where acq: "run_db ?acq w = (r, w1)" by (metis surj_pair)
  have keep: "db_next_event (rw_db w1) = db_next_event (rw_db w)" by (rule run_db_keeps [OF _ acq]) simp
  show ?thesis
  proof (cases "r = Inr 1")
    case True
    obtain res2 w2 where loc: "deploy_locked msg res ?des live rt deploy fetch opts managed w1 = (res2, w2)" by (metis surj_pair)
    obtain x w3 where rel: "run_db (release_lock_stmt (uid (res_unit res)) (show_int (rw_clock w))) w2 = (x, w3)" by (metis surj_pair)
    have "db_next_event (rw_db w3) = db_next_event (rw_db w2)" by (rule run_db_keeps [OF _ rel]) simp
    moreover have "res' = res2" "w' = w3"
      using assms(1) by (simp_all add: deploy_sync_unit_def Let_def acq True loc rel)
    ultimately have "deploy_locked msg res ?des live rt deploy' fetch opts managed w1 = (res2, w2)"
      using assms(2) keep by (intro deploy_locked_silent [OF loc]) simp
    then show ?thesis
      using assms(1) by (simp add: deploy_sync_unit_def Let_def acq True loc rel)
  next
    case False
    then show ?thesis
      using assms(1) by (auto simp: deploy_sync_unit_def Let_def acq split: sum.splits)
  qed
qed

text \<open>What a successful deploy call and the check after it make of the result.\<close>

definition confirmed ::
  "rec_error sync_result \<Rightarrow> service_state \<Rightarrow> string \<Rightarrow> 'w deployer \<Rightarrow> 'w fetcher \<Rightarrow> string list \<Rightarrow> 'w \<Rightarrow> rec_error sync_result \<Rightarrow> bool" where
  "confirmed res desired rt deploy fetch managed x res' \<longleftrightarrow>
     (\<exists>x'. deploy desired x = (None, x') \<and>
        (\<forall>post h x''. fetch x' = (Inr (post, h), x'') \<longrightarrow>
           res' = res\<lparr>res_live_image := st_digest post, res_health := h,
                      res_status := status_name (compute desired post managed rt)\<rparr>))"

text \<open>A faultless attempt that gets the lock.\<close>

definition audit_row ::
  "sync_unit \<Rightarrow> sync_options \<Rightarrow> string \<Rightarrow> string \<Rightarrow> 'e sync_result \<Rightarrow> event_row \<Rightarrow> bool" where
  "audit_row u opts from_image to_image res row \<longleftrightarrow>
     er_unit row = uid u \<and> er_trigger row = so_trigger opts \<and> er_actor row = so_actor opts \<and>
     er_from_image row = null_if_empty from_image \<and> er_to_image row = to_image \<and>
     (\<exists>t \<ge> er_started row. er_finished row = Some t) \<and>
     er_result row = (if res_deploy_failed res then ''failed'' else ''succeeded'') \<and>
     er_error row = null_if_empty (res_failure_message res)"

definition fresh_events :: "rec_db \<Rightarrow> bool" where
  "fresh_events db \<longleftrightarrow> list_all (\<lambda>p. fst p < db_next_event db) (db_events db)"

lemma update_last_event:
  assumes "fresh_events db" and "db_events db' = db_events db @ [(db_next_event db, row)]"
  shows "db_events (snd (update_event_stmt (db_next_event db) a b t db')) =
    db_events db @ [(db_next_event db, row\<lparr>er_finished := Some t, er_result := a, er_error := null_if_empty b\<rparr>)]"
proof -
  have "map (\<lambda>(i, r). if i = db_next_event db then (i, f r) else (i, r)) (db_events db) = db_events db" for f :: "event_row \<Rightarrow> event_row"
    using assms(1) unfolding fresh_events_def by (intro map_idI) (auto simp: list_all_iff)
  with assms(2) show ?thesis by (simp add: update_event_stmt_def)
qed

definition valid_row :: "'e sync_result \<Rightarrow> bool" where
  "valid_row res \<longleftrightarrow> res_status res \<in> status_values \<and> res_health res \<in> health_values"

text \<open>What the critical section does once the audit row \<open>n\<close> is written.\<close>

definition deploy_tail ::
  "(cloudrun_error \<Rightarrow> string) \<Rightarrow> rec_error sync_result \<Rightarrow> service_state \<Rightarrow> string \<Rightarrow> 'w deployer \<Rightarrow> 'w fetcher \<Rightarrow>
     string list \<Rightarrow> int \<Rightarrow> 'w rec_world \<Rightarrow> rec_error sync_result \<times> 'w rec_world" where
  "deploy_tail msg res desired rt deploy fetch managed n w2 =
     (case run_ext (deploy desired) w2 of
        (Some e, w3) \<Rightarrow>
          let res = res\<lparr>res_deploy_failed := True, res_failure_message := msg e\<rparr>;
              (upd, w4) = run_db (update_event_stmt n ''failed'' (msg e)) w3
          in (case upd of Inl ue \<Rightarrow> set_err (DeployAndUpdateError e ue) res | Inr _ \<Rightarrow> set_err (DeployError e) res, w4)
      | (None, w3) \<Rightarrow>
         (case run_ext fetch w3 of
            (Inl e, w4) \<Rightarrow>
              let (upd, w5) = run_db (update_event_stmt n ''succeeded'' []) w4
              in (case upd of Inl ue \<Rightarrow> set_err (PostCheckAndUpdateError e ue) res | Inr _ \<Rightarrow> set_err (PostCheckError e) res, w5)
          | (Inr (post, post_health), w4) \<Rightarrow>
              let res = res\<lparr>res_live_image := st_digest post, res_health := post_health,
                            res_status := status_name (compute desired post managed rt)\<rparr>;
                  (upd, w5) = run_db (update_event_stmt n ''succeeded'' []) w4
              in (case upd of Inl ue \<Rightarrow> set_err (UpdateEventError ue) res | Inr _ \<Rightarrow> res, w5)))"

definition open_row :: "unit_id \<Rightarrow> sync_options \<Rightarrow> string \<Rightarrow> string \<Rightarrow> time \<Rightarrow> event_row" where
  "open_row k opts source target t = \<lparr>er_unit = k, er_trigger = so_trigger opts, er_actor = so_actor opts,
     er_from_image = null_if_empty source, er_to_image = target, er_started = t,
     er_finished = None, er_result = ''in_progress'', er_error = None\<rparr>"

lemma deploy_locked_opens:
  assumes "faultless w" and "valid_row res" and "so_trigger opts \<in> {''auto'', ''manual''}"
  obtains t2 w2 where
    "deploy_locked msg res desired live rt deploy fetch opts managed w =
       deploy_tail msg res desired rt deploy fetch managed (db_next_event (rw_db w)) w2"
    "db_events (rw_db w2) = db_events (rw_db w) @
       [(db_next_event (rw_db w), open_row (uid (res_unit res)) opts (st_digest live) (st_digest desired) t2)]"
    "db_locks (rw_db w2) = db_locks (rw_db w)" "rw_clock w2 = t2" "faultless w2" "rw_ext w2 = rw_ext w"
proof -
  let ?k = "uid (res_unit res)"
  let ?ins = "insert_event_stmt ?k (so_trigger opts) (so_actor opts) (st_digest live) (st_digest desired)"
  obtain t1 v1 db1 w1 where w1: "rw_clock w \<le> t1" "upsert_stmt res t1 (rw_db w) = (v1, db1)"
    "run_db (upsert_stmt res) w = (Inr v1, w1)" "rw_db w1 = db1" "rw_clock w1 = t1" "faultless w1" "rw_ext w1 = rw_ext w"
    by (rule run_db_faultless [OF assms(1), of "upsert_stmt res"])
  have up: "\<exists>s. v1 = Some s" "lookup (db_apps db1) ?k \<noteq> None" "db_events db1 = db_events (rw_db w)"
      "db_next_event db1 = db_next_event (rw_db w)" "db_locks db1 = db_locks (rw_db w)"
    using w1(2) assms(2) by (auto simp: upsert_stmt_def valid_row_def Let_def)
  obtain t2 v2 db2 w2 where w2: "t1 \<le> t2" "?ins t2 db1 = (v2, db2)" "run_db ?ins w1 = (Inr v2, w2)"
    "rw_db w2 = db2" "rw_clock w2 = t2" "faultless w2" "rw_ext w2 = rw_ext w"
    by (rule run_db_faultless [OF w1(6), of ?ins]) (use w1 in simp)
  have ins: "v2 = Some (db_next_event (rw_db w))" "db_locks db2 = db_locks (rw_db w)"
    "db_events db2 = db_events (rw_db w) @ [(db_next_event (rw_db w), open_row ?k opts (st_digest live) (st_digest desired) t2)]"
    using w2(2) up assms(3) by (auto simp: insert_event_stmt_def Let_def open_row_def)
  have "deploy_locked msg res desired live rt deploy fetch opts managed w =
      deploy_tail msg res desired rt deploy fetch managed (db_next_event (rw_db w)) w2"
    using up(1) w1(3) w2(3) ins(1) by (auto simp: deploy_locked_def deploy_tail_def Let_def)
  then show thesis using that [of w2 t2] w2 ins by simp
qed

lemma update_closes_row:
  assumes "faultless w2" and "fresh_events (rw_db w)" and "db_events (rw_db w2) = db_events (rw_db w) @ [(db_next_event (rw_db w), row)]"
  obtains t v3 w3 where "rw_clock w2 \<le> t" "run_db (update_event_stmt (db_next_event (rw_db w)) a b) (w2\<lparr>rw_ext := x\<rparr>) = (Inr v3, w3)"
    "faultless w3" "rw_clock w3 = t" "db_locks (rw_db w3) = db_locks (rw_db w2)"
    "db_events (rw_db w3) = db_events (rw_db w) @
       [(db_next_event (rw_db w), row\<lparr>er_finished := Some t, er_result := a, er_error := null_if_empty b\<rparr>)]"
proof -
  let ?n = "db_next_event (rw_db w)"
  have "faultless (w2\<lparr>rw_ext := x\<rparr>)" using assms(1) by simp
  then obtain t v3 db3 w3 where w3: "rw_clock (w2\<lparr>rw_ext := x\<rparr>) \<le> t" "update_event_stmt ?n a b t (rw_db (w2\<lparr>rw_ext := x\<rparr>)) = (v3, db3)"
    "run_db (update_event_stmt ?n a b) (w2\<lparr>rw_ext := x\<rparr>) = (Inr v3, w3)" "rw_db w3 = db3" "rw_clock w3 = t" "faultless w3"
    by (rule run_db_faultless [of _ "update_event_stmt ?n a b"])
  have "db3 = snd (update_event_stmt ?n a b t (rw_db w2))" using w3(2) by simp
  moreover have "db_locks (snd (update_event_stmt ?n a b t (rw_db w2))) = db_locks (rw_db w2)" by (simp add: update_event_stmt_def)
  ultimately show thesis
    using that [of t v3 w3] update_last_event [OF assms(2,3), of a b t] w3 by auto
qed

lemma deploy_locked_records:
  assumes "deploy_locked msg res desired live rt deploy fetch opts managed w = (res', w')"
    and "faultless w" and "fresh_events (rw_db w)" and "valid_row res" and "undeployed res"
    and "so_trigger opts \<in> {''auto'', ''manual''}"
  shows "\<exists>row. db_events (rw_db w') = db_events (rw_db w) @ [(db_next_event (rw_db w), row)] \<and>
      audit_row (res_unit res) opts (st_digest live) (st_digest desired) res' row \<and>
      db_locks (rw_db w') = db_locks (rw_db w) \<and> faultless w' \<and>
      (res_deploy_failed res' \<or> confirmed res desired rt deploy fetch managed (rw_ext w) res') \<and>
      (res_deploy_failed res' \<longrightarrow> fst (deploy desired (rw_ext w)) \<noteq> None)"
proof -
  obtain t2 w2 where tail: "deploy_locked msg res desired live rt deploy fetch opts managed w =
      deploy_tail msg res desired rt deploy fetch managed (db_next_event (rw_db w)) w2"
    and row: "db_events (rw_db w2) = db_events (rw_db w) @
      [(db_next_event (rw_db w), open_row (uid (res_unit res)) opts (st_digest live) (st_digest desired) t2)]"
    and w2: "db_locks (rw_db w2) = db_locks (rw_db w)" "rw_clock w2 = t2" "faultless w2" "rw_ext w2 = rw_ext w"
    by (rule deploy_locked_opens [OF assms(2,4,6)])
  note run = assms(1)[unfolded tail deploy_tail_def]
  obtain d x where dep: "deploy desired (rw_ext w) = (d, x)" by (metis surj_pair)
  show ?thesis
  proof (cases d)
    case (Some e)
    obtain t v3 w3 where w3: "rw_clock w2 \<le> t" "run_db (update_event_stmt (db_next_event (rw_db w)) ''failed'' (msg e)) (w2\<lparr>rw_ext := x\<rparr>) = (Inr v3, w3)"
      "faultless w3" "rw_clock w3 = t" "db_locks (rw_db w3) = db_locks (rw_db w2)" "db_events (rw_db w3) = db_events (rw_db w) @
        [(db_next_event (rw_db w), (open_row (uid (res_unit res)) opts (st_digest live) (st_digest desired) t2)
            \<lparr>er_finished := Some t, er_result := ''failed'', er_error := null_if_empty (msg e)\<rparr>)]"
      by (rule update_closes_row [OF w2(3) assms(3) row])
    have "w' = w3" "res_deploy_failed res'" "res_failure_message res' = msg e"
      using run by (auto simp: run_ext_eq dep Some w2(4) w3(2) set_err_def Let_def split: if_splits)
    then show ?thesis using w3 w2 dep Some by (auto simp: audit_row_def open_row_def)
  next
    case None
    obtain f y where fet: "fetch x = (f, y)" by (metis surj_pair)
    obtain t v3 w3 where w3: "rw_clock w2 \<le> t" "run_db (update_event_stmt (db_next_event (rw_db w)) ''succeeded'' []) (w2\<lparr>rw_ext := y\<rparr>) = (Inr v3, w3)"
      "faultless w3" "rw_clock w3 = t" "db_locks (rw_db w3) = db_locks (rw_db w2)" "db_events (rw_db w3) = db_events (rw_db w) @
        [(db_next_event (rw_db w), (open_row (uid (res_unit res)) opts (st_digest live) (st_digest desired) t2)
            \<lparr>er_finished := Some t, er_result := ''succeeded'', er_error := null_if_empty []\<rparr>)]"
      by (rule update_closes_row [OF w2(3) assms(3) row])
    have fin: "w' = w3" "\<not> res_deploy_failed res'" "res_failure_message res' = []"
      using run assms(5)
      by (auto simp: run_ext_eq dep None fet w2(4) w3(2) set_err_def undeployed_def Let_def split: sum.splits if_splits)
    have "res' = res\<lparr>res_live_image := st_digest post, res_health := h, res_status := status_name (compute desired post managed rt)\<rparr>"
      if "f = Inr (post, h)" for post h
      using run that by (auto simp: run_ext_eq dep None fet w2(4) w3(2) Let_def)
    then have "confirmed res desired rt deploy fetch managed (rw_ext w) res'"
      unfolding confirmed_def using dep None fet by (intro exI [of _ x]) auto
    then show ?thesis using w3 w2 fin by (auto simp: audit_row_def open_row_def)
  qed
qed

definition lock_free :: "unit_id \<Rightarrow> 'w rec_world \<Rightarrow> bool" where
  "lock_free k w \<longleftrightarrow> (case lookup (db_locks (rw_db w)) k of None \<Rightarrow> True | Some row \<Rightarrow> lk_expires row < rw_clock w)"

lemma lock_free_ext [simp]: "lock_free k (w\<lparr>rw_ext := x\<rparr>) = lock_free k w"
  by (simp add: lock_free_def split: option.split)

definition locks_after :: "unit_id \<Rightarrow> rec_db \<Rightarrow> rec_db \<Rightarrow> bool" where
  "locks_after k db db' \<longleftrightarrow> (\<forall>k'. lookup (db_locks db') k' = (if k' = k then None else lookup (db_locks db) k'))"

lemma deploy_sync_unit_records:
  assumes "deploy_sync_unit msg res desired live rt deploy fetch opts managed w = (res', w')"
    and "faultless w" and "fresh_events (rw_db w)" and "valid_row res" and "undeployed res"
    and "so_trigger opts \<in> {''auto'', ''manual''}" and "lock_free (uid (res_unit res)) w"
  shows "\<exists>row. db_events (rw_db w') = db_events (rw_db w) @ [(db_next_event (rw_db w), row)] \<and>
      audit_row (res_unit res) opts (st_digest live) (if field_managed managed ''image'' then st_digest desired else st_digest live) res' row \<and>
      locks_after (uid (res_unit res)) (rw_db w) (rw_db w') \<and>
      (res_deploy_failed res' \<or>
       confirmed res (if field_managed managed ''image'' then desired else desired\<lparr>st_digest := st_digest live\<rparr>) rt deploy fetch managed (rw_ext w) res') \<and>
      (res_deploy_failed res' \<longrightarrow>
       fst (deploy (if field_managed managed ''image'' then desired else desired\<lparr>st_digest := st_digest live\<rparr>) (rw_ext w)) \<noteq> None)"
proof -
  let ?k = "uid (res_unit res)" and ?tk = "show_int (rw_clock w)"
  let ?des = "if field_managed managed ''image'' then desired else desired\<lparr>st_digest := st_digest live\<rparr>"
  let ?acq = "acquire_lock_stmt ?k ?tk" and ?rel = "release_lock_stmt ?k ?tk"
  obtain t1 v1 db1 w1 where w1: "rw_clock w \<le> t1" "?acq t1 (rw_db w) = (v1, db1)" "run_db ?acq w = (Inr v1, w1)"
    "rw_db w1 = db1" "rw_clock w1 = t1" "faultless w1" "rw_ext w1 = rw_ext w"
    by (rule run_db_faultless [OF assms(2), of ?acq])
  have got: "v1 = 1 \<and> db1 = rw_db w\<lparr>db_locks := put ?k \<lparr>lk_holder = ?tk, lk_expires = t1 + lock_ttl\<rparr> (db_locks (rw_db w))\<rparr>"
    using w1(2)
  proof (cases rule: acquire_cases)
    case (busy row)
    then show ?thesis using assms(7) w1(1) by (simp add: lock_free_def)
  qed simp
  obtain res2 w2 where loc: "deploy_locked msg res ?des live rt deploy fetch opts managed w1 = (res2, w2)" by (metis surj_pair)
  have "fresh_events (rw_db w1)" using got w1(4) assms(3) by (simp add: fresh_events_def)
  from deploy_locked_records [OF loc w1(6) this assms(4-6)] obtain row where
    row: "db_events (rw_db w2) = db_events (rw_db w) @ [(db_next_event (rw_db w), row)]"
      "audit_row (res_unit res) opts (st_digest live) (st_digest ?des) res2 row" "db_locks (rw_db w2) = db_locks db1" "faultless w2"
      "res_deploy_failed res2 \<or> confirmed res ?des rt deploy fetch managed (rw_ext w) res2"
      "res_deploy_failed res2 \<longrightarrow> fst (deploy ?des (rw_ext w)) \<noteq> None"
    using got w1(4,7) by auto
  obtain t3 v3 db3 w3 where w3: "rw_clock w2 \<le> t3" "?rel t3 (rw_db w2) = (v3, db3)" "run_db ?rel w2 = (Inr v3, w3)"
    "rw_db w3 = db3" by (rule run_db_faultless [OF row(4), of ?rel])
  have "res' = res2" "w' = w3"
    using assms(1) by (simp_all add: deploy_sync_unit_def Let_def w1(3) got loc w3(3))
  moreover have "db_events db3 = db_events (rw_db w2)"
    using w3(2) by (auto simp: release_lock_stmt_def split: option.splits)
  moreover have "locks_after ?k (rw_db w) db3"
    using w3(2) row(3) got by (auto simp: locks_after_def release_lock_stmt_def)
  moreover have "st_digest ?des = (if field_managed managed ''image'' then st_digest desired else st_digest live)" by simp
  ultimately show ?thesis using row(1,2,5,6) w3(4) by auto
qed

text \<open>Every status and health a reconciliation reports satisfies the tables' checks.\<close>

lemma status_name_values [simp]: "status_name s \<in> {''Synced'', ''OutOfSync''}"
  by (cases s) (simp_all add: status_name_def)

lemma set_err_simps [simp]:
  "res_status (set_err e res) = res_status res" "res_health (set_err e res) = res_health res"
  "res_unit (set_err e res) = res_unit res" "res_deploy_failed (set_err e res) = res_deploy_failed res"
  "res_observing (set_err e res) = res_observing res" "valid_row (set_err e res) = valid_row res"
  by (simp_all add: set_err_def valid_row_def)

lemma valid_row_observed:
  assumes "res_status res = [] \<or> res_status res = status_invalid" and "h \<in> health_strings"
  shows "valid_row (observed_result res desired managed rt live h)"
  using assms status_name_values [of "compute desired live managed rt"]
  by (auto simp: valid_row_def observed_result_def status_values_def health_values_def health_strings_def status_invalid_def)

lemma valid_row_err [simp]: "valid_row (res\<lparr>res_err := e\<rparr>) = valid_row res"
  "valid_row (res\<lparr>res_deploy_failed := b, res_failure_message := m\<rparr>) = valid_row res"
  by (simp_all add: valid_row_def)

lemma deploy_locked_valid:
  assumes "deploy_locked msg res desired live rt deploy fetch opts managed w = (res', w')" and "valid_row res" and "fetch_ok fetch"
  shows "valid_row res' \<and> res_unit res' = res_unit res"
proof -
  have post: "valid_row (res\<lparr>res_live_image := d, res_health := h, res_status := status_name s\<rparr>)" if "h \<in> health_strings" for d h s
    using status_name_values [of s] that
    by (auto simp: valid_row_def status_values_def health_values_def health_strings_def)
  let ?ins = "insert_event_stmt (uid (res_unit res)) (so_trigger opts) (so_actor opts) (st_digest live) (st_digest desired)"
  obtain r1 w1 where up: "run_db (upsert_stmt res) w = (r1, w1)" by (metis surj_pair)
  obtain r2 w2 where ins: "run_db ?ins w1 = (r2, w2)" by (metis surj_pair)
  obtain d x where dep: "deploy desired (rw_ext w2) = (d, x)" by (metis surj_pair)
  obtain f y where fet: "fetch x = (f, y)" by (metis surj_pair)
  show ?thesis
  proof (cases "(\<exists>row. r1 = Inr (Some row)) \<and> (\<exists>n. r2 = Inr (Some n))")
    case False
    then show ?thesis
      using assms(1,2) by (auto simp: deploy_locked_def up ins split: sum.splits option.splits)
  next
    case True
    then obtain row n where r: "r1 = Inr (Some row)" "r2 = Inr (Some n)" by auto
    note run = assms(1) [unfolded deploy_locked_def Let_def up ins r prod.case sum.case option.case run_ext_eq dep fst_conv snd_conv]
    show ?thesis
    proof (cases d)
      case (Some e)
      then show ?thesis
        using run assms(2) by (auto split: sum.splits prod.splits)
    next
      case None
      show ?thesis
      proof (cases f)
        case (Inl e)
        then show ?thesis
          using run assms(2) None fet by (auto split: sum.splits prod.splits)
      next
        case (Inr ph)
        obtain l h where "ph = (l, h)" by (cases ph)
        with Inr fet assms(3) have "h \<in> health_strings" "f = Inr (l, h)" by (auto simp: fetch_ok_def)
        then show ?thesis
          using run None fet post by (auto split: sum.splits prod.splits)
      qed
    qed
  qed
qed

lemma deploy_sync_unit_valid:
  assumes "deploy_sync_unit msg res desired live rt deploy fetch opts managed w = (res', w')" and "valid_row res" and "fetch_ok fetch"
  shows "valid_row res' \<and> res_unit res' = res_unit res"
proof -
  have "valid_row r \<and> res_unit r = res_unit res" if "deploy_locked msg res d live rt deploy fetch opts managed v = (r, v')" for d v r v'
    by (rule deploy_locked_valid [OF that assms(2,3)])
  then show ?thesis
    using assms(1,2) by (auto simp: deploy_sync_unit_def Let_def split: sum.splits if_splits prod.splits) 
qed

lemma observed_simps [simp]:
  "res_unit (observed_result res desired managed rt live h) = res_unit res"
  "res_observing (observed_result res desired managed rt live h) = res_observing res"
  "undeployed (observed_result res desired managed rt live h) = undeployed res"
  "res_desired_image (observed_result res desired managed rt live h) = res_desired_image res"
  "res_live_image (observed_result res desired managed rt live h) = st_digest live"
  "res_resource_type (observed_result res desired managed rt live h) = res_resource_type res"
  "res_err (observed_result res desired managed rt live h) = res_err res"
  by (simp_all add: observed_result_def undeployed_def)

text \<open>A reconciliation, seen from its dry run: the same result, and a deploy if that is allowed.\<close>

lemma reconcile_from_dry_run:
  fixes dp :: "'w deps"
  obtains (quiet) res x where
      "\<And>ds dj opts. reconcile (with_deploys ds dj dp) u opts w = (res, w\<lparr>rw_ext := x\<rparr>)"
      "res_status res \<in> {status_invalid, status_missing}" "res_health res \<in> {status_invalid, status_missing}" "res_unit res = u"
      "undeployed res"
  | (live) res live desired fetch rt managed x where
      "\<And>ds dj opts. reconcile (with_deploys ds dj dp) u opts w =
         (if deploy_allowed opts res
          then deploy_sync_unit (dp_message dp) res desired live rt ((if rt = ''job'' then dj else ds) (su_project u) (su_region u) (su_app u))
            fetch opts managed (w\<lparr>rw_ext := x\<rparr>)
          else (if observe_blocks opts res then set_err ObserveMode res else res, w\<lparr>rw_ext := x\<rparr>))"
      "fetch_ok fetch" "valid_row res" "res_unit res = u" "res_observing res = observe_mode_enabled (su_sync u)" "undeployed res"
      "managed = effective_managed_fields (dp_managed dp) (su_ignore_fields u)"
      "st_digest desired = res_desired_image res" "st_digest live = res_live_image res"
      "\<exists>h y. fetch y = (Inr (live, h), x)"
      "planned dp u managed desired rt fetch" "res_resource_type res = rt"
      "res_status res \<notin> {status_invalid, status_missing} \<longrightarrow> res_err res = None"
proof (cases rule: reconcile_cases [of dp u w, case_names unread reading])
  case (unread res x)
  then show ?thesis using that(1) [of res x] by simp
next
  case live: (reading res desired fetch rt managed x)
  have obs: "res_observing res = observe_mode_enabled (su_sync (res_unit res))" using live(4,5) by simp
  show ?thesis
  proof (cases rule: apply_live_state_cases [OF obs, of "dp_message dp" desired fetch rt managed "w\<lparr>rw_ext := x\<rparr>", case_names failed "read"])
    case (failed res' y)
    then show ?thesis using live(1,3,4,8) that(1) [of res' y] by auto
  next
    case (read lv h y)
    let ?res = "observed_result res desired managed rt lv h"
    have "fetch x = (Inr (lv, h), y)" using read(1) by simp
    moreover have "h \<in> health_strings" using live(2) read(1) by (auto simp: fetch_ok_def)
    then have "valid_row ?res" using live(3) by (auto intro: valid_row_observed)
    moreover have "res_status ?res \<notin> {status_invalid, status_missing} \<longrightarrow> res_err ?res = None"
      using live(3) by (auto simp: observed_result_def status_invalid_def)
    ultimately show ?thesis
      using live(1,2,4-) read(2) by (intro that(2) [of ?res desired lv rt fetch managed y]) (auto simp: Let_def)
  qed
qed

text \<open>A pass whose dry run does not allow a deploy ends as the dry run did.\<close>

lemma reconcile_undeployed:
  assumes "reconcile dp u (as_dry_run opts) w = (res, w1)" and "\<not> deploy_allowed opts res"
  shows "reconcile (with_deploys ds dj dp) u opts w = (if observe_blocks opts res then set_err ObserveMode res else res, w1) \<and>
     rw_db w1 = rw_db w \<and> rw_stmts w1 = rw_stmts w"
proof (cases rule: reconcile_from_dry_run [of dp u w])
  case (quiet res' x)
  then have "reconcile dp u (as_dry_run opts) w = (res', w\<lparr>rw_ext := x\<rparr>)" by (metis with_own_deploys)
  with quiet assms show ?thesis by (auto simp: observe_blocks_def)
next
  case (live res' lv desired fetch rt managed x)
  have "reconcile dp u (as_dry_run opts) w = (res', w\<lparr>rw_ext := x\<rparr>)"
    using live(1) [of "dp_deploy_service dp" "dp_deploy_job dp" "as_dry_run opts"]
    by (simp add: with_own_deploys deploy_allowed_def observe_blocks_def as_dry_run_def)
  with assms live(1) show ?thesis by auto
qed

text \<open>A pass whose dry run allows a deploy is recorded.\<close>

lemma reconcile_deployed:
  assumes "reconcile dp u (as_dry_run opts) w = (seen, w1)" and "deploy_allowed opts seen"
    and "reconcile dp u opts w = (res, w')"
    and "faultless w" and "fresh_events (rw_db w)" and "lock_free (uid u) w"
    and "so_trigger opts \<in> {''auto'', ''manual''}"
  shows "\<exists>row. db_events (rw_db w') = db_events (rw_db w) @ [(db_next_event (rw_db w), row)] \<and>
      audit_row u opts (res_live_image seen)
        (if field_managed (effective_managed_fields (dp_managed dp) (su_ignore_fields u)) ''image''
         then res_desired_image seen else res_live_image seen) res row \<and>
      locks_after (uid u) (rw_db w) (rw_db w')"
proof (cases rule: reconcile_from_dry_run [of dp u w])
  case (quiet res' x)
  then have "reconcile dp u (as_dry_run opts) w = (res', w\<lparr>rw_ext := x\<rparr>)" by (metis with_own_deploys)
  with quiet assms(1,2) show ?thesis by (auto simp: deploy_allowed_def)
next
  case (live res' lv desired fetch rt managed x)
  have seen: "seen = res'"
    using live(1) [of "dp_deploy_service dp" "dp_deploy_job dp" "as_dry_run opts"] assms(1)
    by (simp add: with_own_deploys deploy_allowed_def observe_blocks_def as_dry_run_def)
  have "deploy_sync_unit (dp_message dp) res' desired lv rt
      ((if rt = ''job'' then dp_deploy_job dp else dp_deploy_service dp) (su_project u) (su_region u) (su_app u))
      fetch opts managed (w\<lparr>rw_ext := x\<rparr>) = (res, w')"
    using live(1) [of "dp_deploy_service dp" "dp_deploy_job dp" opts] assms(2,3) seen by (simp add: with_own_deploys)
  from deploy_sync_unit_records [OF this _ _ live(3,6) assms(7)] assms(4-6) live(4)
  have "\<exists>row. db_events (rw_db w') = db_events (rw_db w) @ [(db_next_event (rw_db w), row)] \<and>
      audit_row u opts (st_digest lv) (if field_managed managed ''image'' then st_digest desired else st_digest lv) res row \<and>
      locks_after (uid u) (rw_db w) (rw_db w')"
    by auto
  then show ?thesis unfolding seen live(7-9) .
qed

section \<open>Properties\<close>

text \<open>C11: a dry run writes nothing and deploys nothing: whatever the manifest, the registry, the
  preconditions and Cloud Run answer, and whatever faults the database has in store, no statement is
  sent to it, and the result does not depend on the deploy calls.\<close>

theorem dry_run_pure:
  "\<exists>res x. \<forall>ds dj. dry_run (with_deploys ds dj dp) u w = (res, w\<lparr>rw_ext := x\<rparr>)"
proof (cases rule: reconcile_from_dry_run [of dp u w])
  case (live res lv desired fetch rt managed x)
  then show ?thesis by (auto simp: dry_run_def dry_run_options_def deploy_allowed_def observe_blocks_def)
qed (auto simp: dry_run_def)

text \<open>C3: a reconciliation deploys only when its dry run says it may: unless the unit came out neither
  Invalid nor Missing, is not observed, and is either forced or OutOfSync with auto-sync on inside its
  windows, the pass ends exactly as the dry run did, whatever the deploy calls are and without a database
  statement; a forced sync of an observed unit alone reports observe mode.\<close>

theorem reconcile_gate:
  assumes "reconcile dp u (as_dry_run opts) w = (res, w1)" and "\<not> deploy_allowed opts res"
  shows "reconcile (with_deploys ds dj dp) u opts w = (if observe_blocks opts res then set_err ObserveMode res else res, w1) \<and>
     rw_db w1 = rw_db w \<and> rw_stmts w1 = rw_stmts w"
  by (rule reconcile_undeployed [OF assms])

text \<open>C2: no deploy call goes out unaudited, whatever statements fail or lose their acknowledgement: when a
  pass leaves no new \<open>sync_events\<close> row behind, its outcome does not depend on the deploy calls.\<close>

theorem deploy_audited:
  assumes "reconcile dp u opts w = (res, w')" and "db_next_event (rw_db w') = db_next_event (rw_db w)"
  shows "reconcile (with_deploys ds dj dp) u opts w = (res, w')"
proof (cases rule: reconcile_from_dry_run [of dp u w])
  case (quiet res' x)
  then show ?thesis using assms(1) by (metis with_own_deploys)
next
  case (live res' lv desired fetch rt managed x)
  show ?thesis
  proof (cases "deploy_allowed opts res'")
    case True
    have "deploy_sync_unit (dp_message dp) res' desired lv rt
        ((if rt = ''job'' then dp_deploy_job dp else dp_deploy_service dp) (su_project u) (su_region u) (su_app u))
        fetch opts managed (w\<lparr>rw_ext := x\<rparr>) = (res, w')"
      using live(1) [of "dp_deploy_service dp" "dp_deploy_job dp" opts] assms(1) True by (simp add: with_own_deploys)
    from deploy_sync_unit_silent [OF this] show ?thesis using live(1) True assms(2) by simp
  next
    case False
    then show ?thesis
      using live(1) [of "dp_deploy_service dp" "dp_deploy_job dp" opts] live(1) [of ds dj opts] assms(1)
      by (simp add: with_own_deploys)
  qed
qed


section \<open>An instance\<close>

text \<open>A manifest, no tags, preconditions that hold, and given Cloud Run calls.\<close>

definition plain_deps ::
  "(string \<Rightarrow> string \<Rightarrow> string \<Rightarrow> string \<Rightarrow> 'w \<Rightarrow> (cloudrun_error + live_service) \<times> 'w) \<Rightarrow>
   (string \<Rightarrow> string \<Rightarrow> string \<Rightarrow> string \<Rightarrow> 'w \<Rightarrow> (cloudrun_error + live_job) \<times> 'w) \<Rightarrow>
   (string \<Rightarrow> string \<Rightarrow> string \<Rightarrow> 'w deployer) \<Rightarrow> (string \<Rightarrow> string \<Rightarrow> string \<Rightarrow> 'w deployer) \<Rightarrow> 'w deps" where
  "plain_deps gs gj ds dj = \<lparr>dp_manifest = (\<lambda>u x. (Inr [], x)), dp_unmarshal = (\<lambda>_. Inr example_service), dp_tags = None,
     dp_semver = \<lparr>sv_is_valid = (\<lambda>_. False), sv_canonical = (\<lambda>_. []), sv_major = (\<lambda>_. []), sv_major_minor = (\<lambda>_. []),
       sv_prerelease = (\<lambda>_. []), sv_compare = (\<lambda>_ _. 0)\<rparr>,
     dp_checker = \<lparr>topic_exists = (\<lambda>x _ _. (Inr True, x)), subscription_exists = (\<lambda>x _ _. (Inr True, x))\<rparr>,
     dp_get_service = gs, dp_get_job = gj, dp_deploy_service = ds, dp_deploy_job = dj,
     dp_message = (\<lambda>_. ''error''), dp_managed = [''image'', ''traffic'']\<rparr>"

definition example_deps :: "string deps" where
  "example_deps = plain_deps
     (\<lambda>_ _ _ d x. (Inr \<lparr>ls_state = \<lparr>st_digest = x, st_percent = Some 100, st_env = None, st_secrets = None\<rparr>,
        ls_has_revision = (d = [] \<or> d = x), ls_ready = True, ls_creating = False\<rparr>, x))
     (\<lambda>_ _ _ _ x. (Inl NotProvisioned, x)) (\<lambda>_ _ _ d x. (None, st_digest d)) (\<lambda>_ _ _ d x. (Some NotProvisioned, x))"

lemma example_parse: "manifest_parse (\<lambda>_. Inr example_service) [] = Inr (default_resource_type example_service)"
proof -
  have "distinct (keys (sd_env example_service))" by (simp add: example_service_def keys_def)
  then show ?thesis using example_service_wf manifest_parse_Inr [of "\<lambda>_. Inr example_service" "[]" "default_resource_type example_service"] by simp
qed

definition example_rec_world :: "string rec_world" where
  "example_rec_world = \<lparr>rw_db = empty_db, rw_clock = 0, rw_stmts = [], rw_ext = ''sha256:0''\<rparr>"

lemma example_fields:
  "sd_resource_type (default_resource_type example_service) = ''service''"
  "sd_image (default_resource_type example_service) = sd_image example_service"
  "sd_traffic example_service = Some \<lparr>tr_latest_percent = Some 100\<rparr>"
  "sd_requires example_service = []"
  "im_digest (sd_image example_service) \<noteq> ''sha256:0''"
  by (simp_all add: default_resource_type_def resource_type_name_def example_service_def)
    (auto dest: arg_cong [where f = length])

definition planned_result :: "rec_error sync_result" where
  "planned_result = (new_result store_unit)\<lparr>res_resource_type := ''service'',
      res_track := im_track (sd_image example_service), res_version := im_version (sd_image example_service),
      res_repository := im_repository (sd_image example_service), res_desired_image := im_digest (sd_image example_service)\<rparr>"

definition planned_state :: service_state where
  "planned_state = \<lparr>st_digest = im_digest (sd_image example_service), st_percent = Some 100, st_env = None, st_secrets = None\<rparr>"

lemma plain_reconcile:
  "reconcile (plain_deps gs gj ds dj) store_unit opts w =
     apply_live_state (\<lambda>_. ''error'') planned_result planned_state
       (service_fetch (plain_deps gs gj ds dj) store_unit (im_digest (sd_image example_service)) (\<lambda>l. assess_service planned_state l True))
       ''service'' (ds ''p'' ''eu'' ''web'') opts [''image'', ''traffic''] w"
proof -
  let ?sd = "default_resource_type example_service" and ?digest = "im_digest (sd_image example_service)"
  have step1: "reconcile (plain_deps gs gj ds dj) store_unit opts w =
      reconcile_resolved (plain_deps gs gj ds dj) store_unit opts ?sd ?digest planned_result w"
    by (simp add: reconcile_def plain_deps_def run_ext_eq example_parse resolve_desired_def store_unit_def
        Let_def planned_result_def new_result_def observe_mode_enabled_def example_fields)
  have fd: "effective_managed_fields [''image'', ''traffic''] [] = [''image'', ''traffic'']"
    by (simp add: effective_managed_fields_def)
  have un: "su_ignore_fields store_unit = []" "su_project store_unit = ''p''" "su_app store_unit = ''web''"
    "su_region store_unit = ''eu''" "su_ignore_preconditions store_unit = []" by (simp_all add: store_unit_def)
  have des: "desired_state ?sd ?digest [''image'', ''traffic''] = planned_state"
    by (simp add: desired_state_def field_managed_def planned_state_def example_fields)
  show ?thesis unfolding step1
    by (simp add: reconcile_resolved_def Let_def run_ext_eq example_fields filter_preconditions_def un fd des field_managed_def
        plain_deps_def)
qed

definition example_seen :: "rec_error sync_result" where
  "example_seen = planned_result\<lparr>res_live_image := ''sha256:0'', res_health := ''Missing'', res_status := ''OutOfSync''\<rparr>"

lemma planned_status:
  assumes "st_digest live = ''sha256:0''"
  shows "compute planned_state live [''image'', ''traffic''] rt = OutOfSync"
  using assms example_fields(5) by (simp add: planned_state_def)

lemma plain_dry_run:
  assumes "gs ''p'' ''eu'' ''web'' (im_digest (sd_image example_service)) (rw_ext w) = (Inr live, x)"
    and "st_digest (ls_state live) = ''sha256:0''" and "\<not> ls_has_revision live"
  shows "reconcile (plain_deps gs gj ds dj) store_unit (as_dry_run opts) w = (example_seen, w\<lparr>rw_ext := x\<rparr>)"
proof -
  have fetch: "service_fetch (plain_deps gs gj ds dj) store_unit (im_digest (sd_image example_service))
      (\<lambda>l. assess_service planned_state l True) (rw_ext w) = (Inr (ls_state live, ''Missing''), x)"
    using assms by (simp add: service_fetch_def plain_deps_def store_unit_def assess_service_def health_name_def)
  have st: "res_status planned_result = []" by (simp add: planned_result_def new_result_def)
  show ?thesis
    unfolding plain_reconcile
    by (simp add: apply_live_state_def run_ext_eq fetch st assms(2) Let_def as_dry_run_def
        planned_status [OF assms(2)] example_seen_def status_name_def del: compute.simps)
qed

lemma example_dry_run:
  "reconcile example_deps store_unit (as_dry_run opts) example_rec_world = (example_seen, example_rec_world)"
  using example_fields(5) plain_dry_run [of "\<lambda>_ _ _ d x. (Inr \<lparr>ls_state = \<lparr>st_digest = x, st_percent = Some 100, st_env = None, st_secrets = None\<rparr>,
        ls_has_revision = (d = [] \<or> d = x), ls_ready = True, ls_creating = False\<rparr>, x)" example_rec_world]
  by (simp add: example_deps_def example_rec_world_def) (simp add: example_service_def)

definition example_opts :: sync_options where
  "example_opts = manual_options ''ann@example.com'' 0"

lemma example_allowed: "deploy_allowed example_opts example_seen"
  by (simp add: deploy_allowed_def example_opts_def manual_options_def example_seen_def planned_result_def status_invalid_def status_missing_def new_result_def)

lemma example_preconditions:
  "faultless example_rec_world" "fresh_events (rw_db example_rec_world)" "lock_free (uid store_unit) example_rec_world"
  "so_trigger example_opts \<in> {''auto'', ''manual''}"
  by (simp_all add: faultless_def fresh_events_def lock_free_def example_rec_world_def empty_db_def example_opts_def manual_options_def)


text \<open>An automatic pass over a unit without auto-sync deploys nothing.\<close>

theorem reconcile_gate_witness:
  "\<forall>ds dj. reconcile (with_deploys ds dj example_deps) store_unit (auto_options 0) example_rec_world = (example_seen, example_rec_world)"
proof -
  have "\<not> deploy_allowed (auto_options 0) example_seen" "\<not> observe_blocks (auto_options 0) example_seen"
    by (simp_all add: deploy_allowed_def observe_blocks_def auto_options_def auto_sync_enabled_def example_seen_def planned_result_def new_result_def store_unit_def)
  with reconcile_gate [OF example_dry_run] show ?thesis by simp
qed

theorem deploy_audited_witness:
  "\<forall>ds dj. reconcile (with_deploys ds dj example_deps) store_unit (as_dry_run example_opts) example_rec_world = (example_seen, example_rec_world)"
  using deploy_audited [OF example_dry_run refl] by blast

end
