(* ===== verification/Reconcile_Pass.thy ===== *)
theory Reconcile_Pass
  imports Reconcile
begin

text \<open>
  What whole passes of the reconciler achieve: what every statement keeps, a reconciliation keeps; a pass
  over all units persists each result; and a sync through the Cloud Run client of \<open>internal/cloudrun\<close>
  brings a service to its desired state.
\<close>

section \<open>What a reconciliation keeps\<close>

text \<open>A predicate on worlds that every statement on the unit keeps is kept by a whole reconciliation.\<close>

definition unit_invariant :: "unit_id \<Rightarrow> ('w rec_world \<Rightarrow> bool) \<Rightarrow> bool" where
  "unit_invariant k P \<longleftrightarrow>
     (\<forall>w x. P w \<longrightarrow> P (w\<lparr>rw_ext := x\<rparr>)) \<and>
     (\<forall>w tk. P w \<longrightarrow> P (snd (run_db (acquire_lock_stmt k tk) w)) \<and> P (snd (run_db (release_lock_stmt k tk) w))) \<and>
     (\<forall>w (res :: rec_error sync_result). P w \<longrightarrow> uid (res_unit res) = k \<longrightarrow> P (snd (run_db (upsert_stmt res) w))) \<and>
     (\<forall>w tr ac f t. P w \<longrightarrow> P (snd (run_db (insert_event_stmt k tr ac f t) w))) \<and>
     (\<forall>w n a b. P w \<longrightarrow> P (snd (run_db (update_event_stmt n a b) w)))"

lemma unit_invariantD:
  assumes "unit_invariant k P" and "P w"
  shows "P (w\<lparr>rw_ext := x\<rparr>)" "run_db (acquire_lock_stmt k tk) w = (r1, w1) \<Longrightarrow> P w1"
    "run_db (release_lock_stmt k tk) w = (r2, w2) \<Longrightarrow> P w2"
    "uid (res_unit (res :: rec_error sync_result)) = k \<Longrightarrow> run_db (upsert_stmt res) w = (r3, w3) \<Longrightarrow> P w3"
    "run_db (insert_event_stmt k tr ac f t) w = (r4, w4) \<Longrightarrow> P w4"
    "run_db (update_event_stmt n a b) w = (r5, w5) \<Longrightarrow> P w5"
  using assms unfolding unit_invariant_def by (metis snd_conv)+

lemma deploy_locked_invariant:
  assumes inv: "unit_invariant (uid (res_unit res)) P" and "P w"
    and "deploy_locked msg res desired live rt deploy fetch opts managed w = (res', w')"
  shows "P w'"
proof -
  let ?k = "uid (res_unit res)"
  let ?ins = "insert_event_stmt ?k (so_trigger opts) (so_actor opts) (st_digest live) (st_digest desired)"
  obtain r1 w1 where up: "run_db (upsert_stmt res) w = (r1, w1)" by (metis surj_pair)
  obtain r2 w2 where ins: "run_db ?ins w1 = (r2, w2)" by (metis surj_pair)
  have P1: "P w1" using unit_invariantD(4) [OF inv assms(2) refl up] .
  have P2: "P w2" using unit_invariantD(5) [OF inv P1 ins] .
  have upd: "P v" if "run_db (update_event_stmt n a b) (w2\<lparr>rw_ext := x\<rparr>) = (r, v)" for n a b x r v
    using unit_invariantD(6) [OF inv unit_invariantD(1) [OF inv P2] that] .
  show ?thesis
  proof (cases "(\<exists>row. r1 = Inr (Some row)) \<and> (\<exists>n. r2 = Inr (Some n))")
    case False
    then show ?thesis
      using assms(3) P1 P2 by (auto simp: deploy_locked_def up ins split: sum.splits option.splits)
  next
    case True
    then obtain row n where r: "r1 = Inr (Some row)" "r2 = Inr (Some n)" by auto
    obtain d x where dep: "deploy desired (rw_ext w2) = (d, x)" by (metis surj_pair)
    obtain f y where fet: "fetch x = (f, y)" by (metis surj_pair)
    note run = assms(3) [unfolded deploy_locked_def Let_def up ins r prod.case sum.case option.case run_ext_eq dep fst_conv snd_conv]
    show ?thesis
      using run fet by (auto simp: split: option.splits sum.splits prod.splits dest!: upd)
  qed
qed

lemma deploy_sync_unit_invariant:
  assumes inv: "unit_invariant (uid (res_unit res)) P" and "P w"
    and "deploy_sync_unit msg res desired live rt deploy fetch opts managed w = (res', w')"
  shows "P w'"
proof -
  let ?k = "uid (res_unit res)" and ?tk = "show_int (rw_clock w)"
  let ?des = "if field_managed managed ''image'' then desired else desired\<lparr>st_digest := st_digest live\<rparr>"
  obtain r w1 where acq: "run_db (acquire_lock_stmt ?k ?tk) w = (r, w1)" by (metis surj_pair)
  obtain res2 w2 where loc: "deploy_locked msg res ?des live rt deploy fetch opts managed w1 = (res2, w2)" by (metis surj_pair)
  obtain x w3 where rel: "run_db (release_lock_stmt ?k ?tk) w2 = (x, w3)" by (metis surj_pair)
  have P1: "P w1" using unit_invariantD(2) [OF inv assms(2) acq] .
  have "P w3" using unit_invariantD(3) [OF inv deploy_locked_invariant [OF inv P1 loc] rel] .
  then show ?thesis
    using assms(3) P1 by (auto simp: deploy_sync_unit_def Let_def acq loc rel split: sum.splits if_splits)
qed

text \<open>A run either ends without a deploy attempt, or in one.\<close>

lemma reconcile_run_cases:
  assumes "reconcile dp u opts w = (res, w')"
  obtains (quiet) x where "w' = w\<lparr>rw_ext := x\<rparr>" "valid_row res" "res_unit res = u"
  | (deploy) res0 desired live rt deploy fetch managed x where
      "deploy_sync_unit (dp_message dp) res0 desired live rt deploy fetch opts managed (w\<lparr>rw_ext := x\<rparr>) = (res, w')"
      "fetch_ok fetch" "valid_row res0" "res_unit res0 = u"
proof (cases rule: reconcile_from_dry_run [of dp u w, case_names early live])
  case (early res' x)
  then have "(res, w') = (res', w\<lparr>rw_ext := x\<rparr>)" using assms by (metis with_own_deploys)
  with early quiet [of x] show ?thesis
    by (auto simp: valid_row_def status_values_def health_values_def status_invalid_def status_missing_def)
next
  case (live res' lv desired fetch rt managed x)
  note run = live(1) [of "dp_deploy_service dp" "dp_deploy_job dp" opts, unfolded with_own_deploys, symmetric, unfolded assms]
  show ?thesis
  proof (cases "deploy_allowed opts res'")
    case True
    then show ?thesis
      using run live(2-4) deploy [of res' desired lv rt] by simp
  next
    case False
    then show ?thesis using run live(3,4) quiet [of x] by (auto split: if_splits)
  qed
qed

lemma reconcile_invariant:
  assumes inv: "unit_invariant (uid u) P" and "P w" and run: "reconcile dp u opts w = (res, w')"
  shows "P w'"
  using run
proof (cases rule: reconcile_run_cases)
  case (quiet x)
  then show ?thesis using unit_invariantD(1) [OF inv assms(2)] by simp
next
  case (deploy res0 desired live rt deploy fetch managed x)
  with inv have "unit_invariant (uid (res_unit res0)) P" by simp
  from deploy_sync_unit_invariant [OF this unit_invariantD(1) [OF inv assms(2)] deploy(1)] show ?thesis .
qed

lemma reconcile_result:
  assumes "reconcile dp u opts w = (res, w')"
  shows "valid_row res \<and> res_unit res = u"
  using assms
proof (cases rule: reconcile_run_cases)
  case (deploy res0 desired live rt deploy fetch managed x)
  then show ?thesis using deploy_sync_unit_valid [OF deploy(1,3,2)] by simp
qed simp

section \<open>A pass over all units\<close>

lemma run_db_faultless_keeps: "faultless w \<Longrightarrow> faultless (snd (run_db stmt w))"
  by (rule run_db_faultless [of w stmt]) simp_all

lemma unit_invariant_faultless: "unit_invariant k faultless"
  by (simp add: unit_invariant_def run_db_faultless_keeps)

lemma unit_invariant_rows:
  assumes "k' \<noteq> k"
  shows "unit_invariant k (\<lambda>w. lookup (db_apps (rw_db w)) k' = r)"
proof -
  have same: "lookup (db_apps (snd (acquire_lock_stmt k tk t db))) k' = lookup (db_apps db) k'"
    "lookup (db_apps (snd (release_lock_stmt k tk t db))) k' = lookup (db_apps db) k'"
    "lookup (db_apps (snd (insert_event_stmt k tr ac f to_image t db))) k' = lookup (db_apps db) k'"
    "lookup (db_apps (snd (update_event_stmt n a b t db))) k' = lookup (db_apps db) k'"
    "uid (res_unit (res :: rec_error sync_result)) = k \<Longrightarrow> lookup (db_apps (snd (upsert_stmt res t db))) k' = lookup (db_apps db) k'"
    for tk t db tr ac f to_image n a b res
    using assms by (auto simp: acquire_lock_stmt_def release_lock_stmt_def insert_event_stmt_def update_event_stmt_def
        upsert_stmt_def Let_def split: option.split)
  have keep: "(\<And>t db. lookup (db_apps (snd (stmt t db))) k' = lookup (db_apps db) k') \<Longrightarrow>
      lookup (db_apps (rw_db (snd (run_db stmt w)))) k' = lookup (db_apps (rw_db w)) k'"
    for stmt :: "time \<Rightarrow> rec_db \<Rightarrow> 'r \<times> rec_db" and w :: "'w rec_world"
    by (rule run_db_keeps [of "\<lambda>db. lookup (db_apps db) k'" stmt w "fst (run_db stmt w)"]) simp_all
  show ?thesis unfolding unit_invariant_def by (simp add: keep same)
qed

definition keeps_database :: "(rec_error sync_result \<Rightarrow> 'w rec_world \<Rightarrow> 'w rec_world) \<Rightarrow> bool" where
  "keeps_database notify \<longleftrightarrow> (\<forall>res w. \<exists>x. notify res w = w\<lparr>rw_ext := x\<rparr>)"

text \<open>The unit's row holds what the result says.\<close>

definition row_shows :: "rec_db \<Rightarrow> 'e sync_result \<Rightarrow> bool" where
  "row_shows db res \<longleftrightarrow> (\<exists>row. lookup (db_apps db) (uid (res_unit res)) = Some row \<and> ar_status row = res_status res \<and>
     ar_health row = res_health res \<and> res_status_since res = Some (ar_status_since row) \<and>
     res_health_since res = Some (ar_health_since row))"

lemma upsert_faultless:
  fixes res :: "rec_error sync_result"
  assumes "faultless w" and "valid_row res"
  obtains res' w' where "upsert res w = ((None, res'), w')" "faultless w'" "row_shows (rw_db w') res'"
    "res_unit res' = res_unit res" "res_err res' = res_err res"
    "\<forall>k. k \<noteq> uid (res_unit res) \<longrightarrow> lookup (db_apps (rw_db w')) k = lookup (db_apps (rw_db w)) k"
proof -
  obtain t v db w' where w': "upsert_stmt res t (rw_db w) = (v, db)" "run_db (upsert_stmt res) w = (Inr v, w')"
    "rw_db w' = db" "faultless w'" by (rule run_db_faultless [OF assms(1)])
  from w'(1) show ?thesis
  proof (cases rule: upsert_stmt_cases)
    case bad
    then show ?thesis using assms(2) by (simp add: valid_row_def)
  next
    case (ok row)
    let ?res = "res\<lparr>res_status_since := Some (ar_status_since row), res_health_since := Some (ar_health_since row)\<rparr>"
    have "upsert res w = ((None, ?res), w')" using w'(2) ok(2) by (simp add: upsert_def)
    moreover have "row_shows (rw_db w') ?res" using w'(3) ok(1,3) by (simp add: row_shows_def)
    ultimately show ?thesis using that [of ?res w'] w'(3,4) ok(3) by simp
  qed
qed

lemma run_unit_faultless:
  assumes "faultless w" and nk: "keeps_database notify" and "run_unit dp notify now u w = ((res, err), w')"
  shows "faultless w' \<and> err = None \<and> res_unit res = u \<and>
     (res_err res = Some SyncInProgress \<or> row_shows (rw_db w') res) \<and>
     (\<forall>k. k \<noteq> uid u \<longrightarrow> lookup (db_apps (rw_db w')) k = lookup (db_apps (rw_db w)) k)"
proof -
  obtain r1 w1 where rec: "reconcile dp u (auto_options now) w = (r1, w1)" by (metis surj_pair)
  have r1: "valid_row r1" "res_unit r1 = u" using reconcile_result [OF rec] by auto
  have f1: "faultless w1" by (rule reconcile_invariant [OF unit_invariant_faultless assms(1) rec])
  have other: "lookup (db_apps (rw_db w1)) k = lookup (db_apps (rw_db w)) k" if "k \<noteq> uid u" for k
    using reconcile_invariant [OF unit_invariant_rows [OF that] refl rec] .
  show ?thesis
  proof (cases "res_err r1 = Some SyncInProgress")
    case True
    obtain x where x: "notify r1 w1 = w1\<lparr>rw_ext := x\<rparr>" using nk by (auto simp: keeps_database_def)
    with True have "res = r1" "err = None" "w' = w1\<lparr>rw_ext := x\<rparr>" using assms(3) rec by (simp_all add: run_unit_def)
    with True show ?thesis using f1 r1 other by simp
  next
    case False
    obtain r2 w2 where up: "upsert r1 w1 = ((None, r2), w2)" "faultless w2" "row_shows (rw_db w2) r2" "res_unit r2 = res_unit r1"
      "\<forall>k. k \<noteq> uid (res_unit r1) \<longrightarrow> lookup (db_apps (rw_db w2)) k = lookup (db_apps (rw_db w1)) k"
      by (rule upsert_faultless [OF f1 r1(1)])
    obtain x where "notify r2 w2 = w2\<lparr>rw_ext := x\<rparr>" using nk by (auto simp: keeps_database_def)
    with False have "res = r2" "err = None" "w' = w2\<lparr>rw_ext := x\<rparr>" using assms(3) rec up(1) by (simp_all add: run_unit_def)
    then show ?thesis using up r1 other by simp
  qed
qed

lemma run_units_faultless:
  assumes "faultless w" and "keeps_database notify" and "distinct (map uid us)"
    and "run_units dp notify now us w = (rs, w')"
  shows "faultless w' \<and> list_all2 (\<lambda>u r. snd r = None \<and> res_unit (fst r) = u \<and>
       (res_err (fst r) = Some SyncInProgress \<or> row_shows (rw_db w') (fst r))) us rs \<and>
     (\<forall>k. k \<notin> uid ` set us \<longrightarrow> lookup (db_apps (rw_db w')) k = lookup (db_apps (rw_db w)) k)"
  using assms(1,3,4)
proof (induction us arbitrary: w rs)
  case (Cons u us)
  obtain res err w1 where u: "run_unit dp notify now u w = ((res, err), w1)" by (metis surj_pair)
  obtain rs1 w2 where us: "run_units dp notify now us w1 = (rs1, w2)" by (metis surj_pair)
  have w': "rs = (res, err) # rs1" "w' = w2" using Cons.prems(3) u us by simp_all
  note head = run_unit_faultless [OF Cons.prems(1) assms(2) u]
  have dist: "distinct (map uid us)" "uid u \<notin> uid ` set us" using Cons.prems(2) by auto
  from head have fw: "faultless w1" by simp
  note tail = Cons.IH [OF fw dist(1) us [folded w'(2)], unfolded w'(2)]
  have "lookup (db_apps (rw_db w2)) (uid u) = lookup (db_apps (rw_db w1)) (uid u)"
    using tail dist(2) by metis
  then have "row_shows (rw_db w2) res" if "row_shows (rw_db w1) res"
    using that head by (simp add: row_shows_def)
  then have "snd (res, err) = None \<and> res_unit (fst (res, err)) = u \<and>
      (res_err (fst (res, err)) = Some SyncInProgress \<or> row_shows (rw_db w2) (fst (res, err)))"
    using head by auto
  with tail head show ?case unfolding w' by simp
qed simp

text \<open>One bad unit cannot take down the fleet. With a database that does not fail, a pass over distinct
  units returns one result per unit, in order, and no error, whatever the manifests, the registry, the
  preconditions and Cloud Run answer for any of them; and every unit's row holds its result's status and
  health, and since when, unless another attempt holds its lock, and no other row changes.\<close>

theorem run_once_complete:
  assumes "run_once dp notify us w = ((results, err), w')"
    and "faultless w" and "keeps_database notify" and "distinct (map uid us)"
  shows "err = None \<and> map res_unit results = us \<and>
     (\<forall>i < length results. res_err (results ! i) = Some SyncInProgress \<or> row_shows (rw_db w') (results ! i)) \<and>
     (\<forall>k. k \<notin> uid ` set us \<longrightarrow> lookup (db_apps (rw_db w')) k = lookup (db_apps (rw_db w)) k)"
proof -
  obtain rs where rs: "run_units dp notify (rw_clock w) us w = (rs, w')" "results = map fst rs" "err = first_some (map snd rs)"
    using assms(1) by (auto simp: run_once_def split: prod.splits)
  note pass = run_units_faultless [OF assms(2,3,4) rs(1)]
  have "list_all2 (\<lambda>u r. snd r = None) us rs" using pass by (auto elim: list_all2_mono)
  then have "set (map snd rs) \<subseteq> {None}" by (induction rule: list_all2_induct) auto
  then have "err = None" unfolding rs(3) by (induction rs) auto
  moreover have "list_all2 (\<lambda>u r. res_unit (fst r) = u) us rs" using pass by (auto elim: list_all2_mono)
  then have "map res_unit results = us" unfolding rs(2) by (induction rule: list_all2_induct) auto
  ultimately show ?thesis
    using pass by (auto simp: rs(2) list_all2_conv_all_nth)
qed

theorem run_once_complete_witness:
  "\<exists>res w'. run_once example_deps (\<lambda>_ w. w) [store_unit] example_rec_world = (([res], None), w') \<and>
     res_unit res = store_unit \<and> (res_err res = Some SyncInProgress \<or> row_shows (rw_db w') res)"
proof -
  obtain results err w' where run: "run_once example_deps (\<lambda>_ w. w) [store_unit] example_rec_world = ((results, err), w')"
    by (metis surj_pair)
  have nk: "keeps_database (\<lambda>_ w :: string rec_world. w)"
    unfolding keeps_database_def by (metis (full_types) rec_world.surjective rec_world.update_convs(4))
  from run_once_complete [OF run example_preconditions(1) nk] have
    "err = None" "map res_unit results = [store_unit]"
    "\<forall>i < length results. res_err (results ! i) = Some SyncInProgress \<or> row_shows (rw_db w') (results ! i)" by auto
  with run show ?thesis by (cases results) auto
qed

section \<open>Through the Cloud Run client\<close>

text \<open>The dependencies with the real client, whose state and world are the first parts of the reconciler's.\<close>

definition with_cloud_run :: "'a run_api \<Rightarrow> (gcp_client \<times> 'a) deps \<Rightarrow> (gcp_client \<times> 'a) deps" where
  "with_cloud_run api dp = dp\<lparr>
     dp_get_service := (\<lambda>project region app digest (c, w).
       let (r, c') = get_service api w project region app digest c in (r, (c', w))),
     dp_get_job := (\<lambda>project region app digest (c, w).
       let (r, c') = get_job api w project region app digest c in (r, (c', w))),
     dp_deploy_service := (\<lambda>project region app desired x.
       let (e, c', w') = deploy_service api project region app desired x in (e, (c', w'))),
     dp_deploy_job := (\<lambda>project region app desired x.
       let (e, c', w') = deploy_job api project region app desired x in (e, (c', w')))\<rparr>"

lemma desired_secrets_keys:
  assumes "distinct (map sec_name ss)"
  shows "set (keys (desired_secrets ss)) = set (map sec_name ss) \<and> distinct (keys (desired_secrets ss))"
proof -
  have "set (keys (foldl (\<lambda>m s. put (sec_name s) (f s) m) m ss)) = set (keys m) \<union> set (map sec_name ss) \<and>
      distinct (keys (foldl (\<lambda>m s. put (sec_name s) (f s) m) m ss))" if "distinct (keys m)" for f and m :: "(string \<times> secret_source) list"
    using that
  proof (induction ss arbitrary: m)
    case (Cons a ss)
    have "distinct (keys (put (sec_name a) (f a) m))" using Cons.prems wf_map_put [of m] by (simp add: wf_map_def)
    from Cons.IH [OF this] show ?case by (auto simp: keys_put)
  qed simp
  from this [of "[]"] show ?thesis by (simp add: desired_secrets_def keys_def)
qed

lemma desired_state_wf:
  assumes "wf_service sd"
  shows "wf_env (desired_state sd digest managed)"
proof -
  have env: "distinct (keys (sd_env sd) @ map sec_name (sd_secrets sd))"
    using assms by (simp add: wf_service_def env_names_def)
  then have "distinct (keys (sd_env sd) @ keys (desired_secrets (sd_secrets sd)))"
    using desired_secrets_keys [of "sd_secrets sd"] by auto
  then show ?thesis by (simp add: wf_env_def desired_state_def keys_def)
qed

lemma wf_digest_plain: "wf_digest d \<Longrightarrow> CHR ''@'' \<notin> set d"
  by (auto simp: wf_digest_def list_all_iff is_hex_def is_digit_def less_eq_char_def dest: bspec [of _ _ "CHR ''@''"])

lemma compute_image: "compute desired live managed rt = Synced \<Longrightarrow> field_managed managed ''image'' \<Longrightarrow>
    st_digest live = st_digest desired"
  by (induction managed) (auto simp: field_managed_def split: if_splits)

text \<open>What a deploy of a parsed manifest leaves is read back as in sync.\<close>

lemma deployed_read_back:
  assumes "reads_writes api" and wf: "wf_service sd" and "field_managed managed ''image''"
    and d: "desired = desired_state sd (im_digest (sd_image sd)) managed"
    and "dp_deploy_service (with_cloud_run api dp) (su_project u) (su_region u) (su_app u) desired x = (None, x')"
    and "api_get_service api (snd x) (service_name (su_project u) (su_region u) (su_app u)) = Inr svc"
  shows "\<exists>live h. live_fetch (with_cloud_run api dp) u managed desired ''service'' (im_digest (sd_image sd)) x' = (Inr (live, h), x') \<and>
    compute desired live managed ''service'' = Synced"
proof -
  obtain c a where x: "x = (c, a)" by (cases x)
  obtain c1 a1 where dep: "deploy_service api (su_project u) (su_region u) (su_app u) desired (c, a) = (None, c1, a1)" "x' = (c1, a1)"
    using assms(5) x by (cases x') (auto simp: with_cloud_run_def split: prod.splits)
  have env: "wf_env desired" using desired_state_wf [OF wf] d by simp
  have at: "CHR ''@'' \<notin> set (st_digest desired)"
    using wf d wf_digest_plain by (simp add: desired_state_def wf_service_def wf_image_def)
  have svc: "api_get_service api a (service_name (su_project u) (su_region u) (su_app u)) = Inr svc"
    using assms(6) x by simp
  obtain lsv where got: "get_service api a1 (su_project u) (su_region u) (su_app u) (im_digest (sd_image sd)) c1 = (Inr lsv, c1)"
      and synced: "compute desired (ls_state lsv) managed ''service'' = Synced"
    using deploy_service_get [OF assms(1) dep(1) svc at env] by blast
  have "\<exists>h. live_fetch (with_cloud_run api dp) u managed desired ''service'' (im_digest (sd_image sd)) x' = (Inr (ls_state lsv, h), x')"
    using got dep(2) assms(3) by (simp add: live_fetch_def service_fetch_def with_cloud_run_def)
  with synced show ?thesis by blast
qed


text \<open>An instance: one service, forced to its manifest.\<close>

definition converge_world :: "(gcp_client \<times> service_msg \<times> job_msg) rec_world" where
  "converge_world = \<lparr>rw_db = empty_db, rw_clock = 0, rw_stmts = [],
     rw_ext = (new_gcp_client, \<lparr>sm_name = ''web'', sm_containers = [\<lparr>ct_image = ''host/p/r/web@sha256:0'', ct_env = []\<rparr>], sm_traffic = [],
        sm_condition = None, sm_reconciling = False\<rparr>, snd example_world)\<rparr>"

definition no_cloud_run :: "(gcp_client \<times> service_msg \<times> job_msg) deps" where
  "no_cloud_run = plain_deps (\<lambda>_ _ _ _ x. (Inl NotProvisioned, x)) (\<lambda>_ _ _ _ x. (Inl NotProvisioned, x))
     (\<lambda>_ _ _ _ x. (Some NotProvisioned, x)) (\<lambda>_ _ _ _ x. (Some NotProvisioned, x))"

lemma with_cloud_run_plain: "with_cloud_run api (plain_deps a b c d) = 
   plain_deps (dp_get_service (with_cloud_run api (plain_deps a b c d))) (dp_get_job (with_cloud_run api (plain_deps a b c d)))
    (dp_deploy_service (with_cloud_run api (plain_deps a b c d))) (dp_deploy_job (with_cloud_run api (plain_deps a b c d)))"
  by (simp add: with_cloud_run_def plain_deps_def)

lemma digest_no_at: "digest_suffix ''host/p/r/web@sha256:0'' = ''sha256:0''"
  using last_index_split [of "CHR ''@''" "''sha256:0''" "''host/p/r/web''"] by (simp add: digest_suffix_def)

lemma converge_image: "resolve_image_digest api w ''host/p/r/web@sha256:0'' c = (Inr ''sha256:0'', c)"
  using digest_no_at by (simp add: resolve_image_digest_def)

lemma example_digest_ne: "im_digest (sd_image example_service) \<noteq> []"
  by (simp add: example_service_def)

lemma converge_get:
  "\<exists>live c. get_service one_world (snd (rw_ext converge_world)) ''p'' ''eu'' ''web'' (im_digest (sd_image example_service)) new_gcp_client = (Inr live, c) \<and>
    st_digest (ls_state live) = ''sha256:0'' \<and> \<not> ls_has_revision live"
  using example_fields(5) example_digest_ne
  by (simp add: get_service_def services_client_def one_world_def converge_world_def live_service_from_service_def new_gcp_client_def 
     container_image_def converge_image split: prod.split)

lemma converge_deploy:
  "\<exists>c w. deploy_service one_world ''p'' ''eu'' ''web'' planned_state (c0, snd (rw_ext converge_world)) = (None, c, w)"
  by (simp add: deploy_service_def services_client_def one_world_def converge_world_def planned_state_def validated_percent_def Let_def)

lemma plain_sync:
  assumes "gs ''p'' ''eu'' ''web'' (im_digest (sd_image example_service)) (rw_ext w) = (Inr live, x)"
    and "st_digest (ls_state live) = ''sha256:0''" and "\<not> ls_has_revision live"
    and "fst (ds ''p'' ''eu'' ''web'' planned_state x) = None"
    and "faultless w" and "fresh_events (rw_db w)" and "lock_free (uid store_unit) w"
    and "reconcile (plain_deps gs gj ds dj) store_unit example_opts w = (res, w')"
  shows "\<not> res_deploy_failed res"
proof -
  let ?fetch = "service_fetch (plain_deps gs gj ds dj) store_unit (im_digest (sd_image example_service)) (\<lambda>l. assess_service planned_state l True)"
  have fetch: "?fetch (rw_ext w) = (Inr (ls_state live, ''Missing''), x)"
    using assms(1,3) by (simp add: service_fetch_def plain_deps_def store_unit_def assess_service_def health_name_def)
  have st: "res_status planned_result = []" "res_observing planned_result = False" "res_unit planned_result = store_unit"
    by (simp_all add: planned_result_def new_result_def)
  have "deploy_sync_unit (\<lambda>_. ''error'') example_seen planned_state (ls_state live) ''service'' (ds ''p'' ''eu'' ''web'')
      ?fetch example_opts [''image'', ''traffic''] (w\<lparr>rw_ext := x\<rparr>) = (res, w')"
    using assms(8) unfolding plain_reconcile
    by (simp add: apply_live_state_def run_ext_eq fetch st assms(2) Let_def example_opts_def manual_options_def
        planned_status [OF assms(2)] example_seen_def status_name_def status_invalid_def status_missing_def del: compute.simps)
  from deploy_sync_unit_records [OF this] assms(4-7)
  show ?thesis
    by (auto simp: example_seen_def st example_opts_def manual_options_def valid_row_def status_values_def health_values_def
        undeployed_def planned_result_def new_result_def field_managed_def)
qed


end
