(* ===== verification/Orphans.thy ===== *)
theory Orphans
  imports Expander Cloudrun
begin

text \<open>
  Orphan detection (\<open>internal/reconcile/orphans.go\<close>): the live services of every project and region the
  given units touch, less the apps those units declare there. The listing of a scope is an argument; the
  order in which the runtime ranges over the scopes is another.
\<close>

section \<open>Model\<close>

record orphan =
  or_project :: string
  or_region :: string
  or_app :: string

type_synonym orphan_scope = "string \<times> string"

datatype orphan_error = ListServices orphan_scope cloudrun_error

definition unit_scope :: "sync_unit \<Rightarrow> orphan_scope" where
  "unit_scope u = (su_project u, su_region u)"

definition add_expected :: "(orphan_scope \<times> string list) list \<Rightarrow> sync_unit \<Rightarrow> (orphan_scope \<times> string list) list" where
  "add_expected m u =
     put (unit_scope u) (su_app u # (case lookup m (unit_scope u) of None \<Rightarrow> [] | Some apps \<Rightarrow> apps)) m"

definition expected_apps :: "sync_unit list \<Rightarrow> (orphan_scope \<times> string list) list" where
  "expected_apps units = foldl add_expected [] units"

definition scope_orphans :: "orphan_scope \<Rightarrow> string list \<Rightarrow> string list \<Rightarrow> orphan list" where
  "scope_orphans key apps names =
     map (\<lambda>name. \<lparr>or_project = fst key, or_region = snd key, or_app = name\<rparr>) (filter (\<lambda>name. name \<notin> set apps) names)"

text \<open>The last loop: the orphans and errors so far, and how many scopes succeeded.\<close>

fun collect_orphans ::
  "(orphan_scope \<times> string list) list \<Rightarrow> (orphan_scope \<times> (cloudrun_error + string list)) list \<Rightarrow>
     orphan list \<times> orphan_error list \<times> nat \<Rightarrow> orphan list \<times> orphan_error list \<times> nat" where
  "collect_orphans expected [] st = st"
| "collect_orphans expected ((key, Inl e) # rs) (orphans, errs, succeeded) =
     collect_orphans expected rs (orphans, errs @ [ListServices key e], succeeded)"
| "collect_orphans expected ((key, Inr names) # rs) (orphans, errs, succeeded) =
     collect_orphans expected rs
       (orphans @ scope_orphans key (case lookup expected key of None \<Rightarrow> [] | Some apps \<Rightarrow> apps) names, errs, succeeded + 1)"

text \<open>A nil slice of orphans is \<^term>\<open>None\<close>; the joined error is the list of its parts.\<close>

definition detect_orphans ::
  "(string \<Rightarrow> string \<Rightarrow> cloudrun_error + string list) \<Rightarrow> (orphan_scope list \<Rightarrow> orphan_scope list) \<Rightarrow> sync_unit list \<Rightarrow>
     orphan list option \<times> orphan_error list" where
  "detect_orphans list_names order units =
     (let expected = expected_apps units; scopes = order (keys expected);
          results = map (\<lambda>key. (key, list_names (fst key) (snd key))) scopes;
          (orphans, errs, succeeded) = collect_orphans expected results ([], [], 0)
      in if scopes \<noteq> [] \<and> succeeded = 0 then (None, errs) else (Some orphans, errs))"

section \<open>Lemmas\<close>

lemma expected_apps_lookup:
  "(case lookup (expected_apps units) key of None \<Rightarrow> {} | Some apps \<Rightarrow> set apps) = {su_app u |u. u \<in> set units \<and> unit_scope u = key}"
  "set (keys (expected_apps units)) = unit_scope ` set units"
proof -
  have gen: "(case lookup (foldl add_expected m units) key of None \<Rightarrow> {} | Some apps \<Rightarrow> set apps) =
      (case lookup m key of None \<Rightarrow> {} | Some apps \<Rightarrow> set apps) \<union> {su_app u |u. u \<in> set units \<and> unit_scope u = key} \<and>
      set (keys (foldl add_expected m units)) = set (keys m) \<union> unit_scope ` set units" for m
  proof (induction units arbitrary: m)
    case (Cons u units)
    have one: "(case lookup (add_expected m u) key of None \<Rightarrow> {} | Some apps \<Rightarrow> set apps) =
        (case lookup m key of None \<Rightarrow> {} | Some apps \<Rightarrow> set apps) \<union> (if unit_scope u = key then {su_app u} else {})"
      by (auto simp: add_expected_def split: option.split)
    have "set (keys (add_expected m u)) = insert (unit_scope u) (set (keys m))"
      by (simp add: add_expected_def keys_put)
    with one show ?case using Cons.IH [of "add_expected m u"] by auto
  qed simp
  from gen [of "[]"] show
    "(case lookup (expected_apps units) key of None \<Rightarrow> {} | Some apps \<Rightarrow> set apps) = {su_app u |u. u \<in> set units \<and> unit_scope u = key}"
    "set (keys (expected_apps units)) = unit_scope ` set units"
    by (simp_all add: expected_apps_def keys_def)
qed

lemma collect_orphans_result:
  "collect_orphans expected rs (os, errs, n) =
     (os @ concat (map (\<lambda>(key, r). case r of Inl e \<Rightarrow> []
        | Inr names \<Rightarrow> scope_orphans key (case lookup expected key of None \<Rightarrow> [] | Some apps \<Rightarrow> apps) names) rs),
      errs @ concat (map (\<lambda>(key, r). case r of Inl e \<Rightarrow> [ListServices key e] | Inr _ \<Rightarrow> []) rs),
      n + length (filter (\<lambda>(key, r). case r of Inl _ \<Rightarrow> False | Inr _ \<Rightarrow> True) rs))"
  by (induction expected rs "(os, errs, n)" arbitrary: os errs n rule: collect_orphans.induct) simp_all

lemma in_scope_orphans:
  "o' \<in> set (scope_orphans key apps names) \<longleftrightarrow>
     (or_project o', or_region o') = key \<and> or_app o' \<in> set names \<and> or_app o' \<notin> set apps"
  by (cases o'; cases key) (auto simp: scope_orphans_def)

section \<open>What is reported\<close>

text \<open>A reported orphan is exactly a live service in a project and region some given unit is in, whose
  listing succeeded, that no given unit declares there, in whichever order the scopes are visited; the
  errors are those of the scopes that failed.\<close>

lemma detect_orphans_exact:
  assumes "\<And>xs. set (order xs) = set xs"
    and "detect_orphans list_names order units = (Some orphans, errs)"
  shows "(o' \<in> set orphans \<longleftrightarrow>
       (\<exists>names. list_names (or_project o') (or_region o') = Inr names \<and> or_app o' \<in> set names) \<and>
       (or_project o', or_region o') \<in> unit_scope ` set units \<and>
       (\<nexists>u. u \<in> set units \<and> unit_scope u = (or_project o', or_region o') \<and> su_app u = or_app o')) \<and>
     (ListServices key e \<in> set errs \<longleftrightarrow> key \<in> unit_scope ` set units \<and> list_names (fst key) (snd key) = Inl e)"
proof -
  let ?expected = "expected_apps units"
  let ?rs = "map (\<lambda>key. (key, list_names (fst key) (snd key))) (order (keys ?expected))"
  have scopes: "set (order (keys ?expected)) = unit_scope ` set units"
    using assms(1) [of "keys ?expected"] expected_apps_lookup(2) by simp
  have apps: "set (case lookup ?expected key of None \<Rightarrow> [] | Some apps \<Rightarrow> apps) = {su_app u |u. u \<in> set units \<and> unit_scope u = key}" for key
    using expected_apps_lookup(1) [of units key] by (simp split: option.splits)
  have res: "orphans = concat (map (\<lambda>(key, r). case r of Inl e \<Rightarrow> []
        | Inr names \<Rightarrow> scope_orphans key (case lookup ?expected key of None \<Rightarrow> [] | Some apps \<Rightarrow> apps) names) ?rs)"
    "errs = concat (map (\<lambda>(key, r). case r of Inl e \<Rightarrow> [ListServices key e] | Inr _ \<Rightarrow> []) ?rs)"
    using assms(2) by (auto simp: detect_orphans_def Let_def collect_orphans_result split: if_splits)
  define K where "K = unit_scope ` set units"
  define A where "A key = {su_app u |u. u \<in> set units \<and> unit_scope u = key}" for key
  have "o' \<in> set orphans \<longleftrightarrow> (\<exists>key \<in> K. \<exists>names. list_names (fst key) (snd key) = Inr names \<and>
      (or_project o', or_region o') = key \<and> or_app o' \<in> set names \<and> or_app o' \<notin> A key)"
    unfolding res(1) A_def apps [symmetric] K_def scopes [symmetric]
    by (auto simp: in_scope_orphans split: sum.splits) (metis Inr_inject fst_conv snd_conv)+
  then have "o' \<in> set orphans \<longleftrightarrow>
      (\<exists>names. list_names (or_project o') (or_region o') = Inr names \<and> or_app o' \<in> set names) \<and>
      (or_project o', or_region o') \<in> K \<and> or_app o' \<notin> A (or_project o', or_region o')"
    by auto
  moreover have "ListServices key e \<in> set errs \<longleftrightarrow> key \<in> unit_scope ` set units \<and> list_names (fst key) (snd key) = Inl e"
    unfolding res(2) scopes [symmetric] by (auto split: sum.splits)
  moreover have "or_app o' \<notin> A k \<longleftrightarrow> (\<nexists>u. u \<in> set units \<and> unit_scope u = k \<and> su_app u = or_app o')" for k
    by (auto simp: A_def)
  ultimately show ?thesis unfolding K_def by simp
qed

definition orphan_unit :: "string \<Rightarrow> string \<Rightarrow> string \<Rightarrow> sync_unit" where
  "orphan_unit app project region = \<lparr>su_app = app, su_project = project, su_env = ''prd'', su_region = region,
     su_sync = \<lparr>sp_auto = None, sp_retry = None, sp_self_heal = None, sp_windows = None, sp_observe = None\<rparr>,
     su_source_repo = ''o/r'', su_source_path = ''web.yaml'', su_source_branch = [],
     su_ignore_fields = [], su_ignore_preconditions = [], su_track = [], su_version = []\<rparr>"

lemma orphan_unit_simps [simp]:
  "su_app (orphan_unit app project region) = app" "su_project (orphan_unit app project region) = project"
  "su_env (orphan_unit app project region) = ''prd''" "unit_scope (orphan_unit app project region) = (project, region)"
  by (simp_all add: orphan_unit_def unit_scope_def)

end
