(* ===== verification/Auth.thy ===== *)
theory Auth
  imports RunCD_Prelude
begin

text \<open>
  Identity verification (\<open>internal/auth/auth.go\<close>): which requests the three authenticators accept, and
  whose identity they report. Validating a token's signature, issuer and audience is the work of the
  Google libraries and an argument here: \<open>validate\<close> stands for \<open>idtoken.Validate\<close> and \<open>verify_iap\<close> for
  the verifier \<open>oidc.NewVerifier\<close> builds for an audience, followed by the decoding of its claims.
\<close>

section \<open>Model\<close>

text \<open>\<open>Header.Get\<close>: a missing header is the empty string.\<close>

record request =
  rq_headers :: "(string \<times> string) list"
  rq_path :: "(string \<times> string) list"
  rq_query :: "(string \<times> string) list"

definition get_value :: "(string \<times> string) list \<Rightarrow> string \<Rightarrow> string" where
  "get_value m k = (case lookup m k of None \<Rightarrow> [] | Some v \<Rightarrow> v)"

datatype claim_value = BoolClaim bool | StringClaim string | OtherClaim

type_synonym claims = "(string \<times> claim_value) list"
type_synonym token_validator = "string \<Rightarrow> string \<Rightarrow> string + claims"
type_synonym iap_verifier = "string \<Rightarrow> string \<Rightarrow> string + (string + string)"

datatype auth_error =
    MissingBearer
  | EmptyAudience
  | EmptyServiceAccount
  | InvalidToken string
  | EmailNotVerified
  | MissingEmail
  | WrongServiceAccount string
  | MissingAssertion
  | UndecodableClaims string

definition bearer_prefix :: string where "bearer_prefix = ''Bearer ''"

definition bearer_token :: "request \<Rightarrow> string option" where
  "bearer_token r =
     (let h = get_value (rq_headers r) ''Authorization'' in
      if \<not> has_prefix h bearer_prefix then None
      else let token = trim_prefix h bearer_prefix in if token = [] then None else Some token)"

text \<open>The type assertions on claims: the zero value when the claim is missing or of another type.\<close>

definition bool_claim :: "claims \<Rightarrow> string \<Rightarrow> bool" where
  "bool_claim cs k = (case lookup cs k of Some (BoolClaim b) \<Rightarrow> b | _ \<Rightarrow> False)"

definition string_claim :: "claims \<Rightarrow> string \<Rightarrow> string option" where
  "string_claim cs k = (case lookup cs k of Some (StringClaim s) \<Rightarrow> Some s | _ \<Rightarrow> None)"

definition google_verify :: "token_validator \<Rightarrow> string \<Rightarrow> request \<Rightarrow> auth_error + string" where
  "google_verify validate audience r =
     (case bearer_token r of
        None \<Rightarrow> Inl MissingBearer
      | Some token \<Rightarrow>
          if audience = [] then Inl EmptyAudience
          else case validate token audience of
            Inl e \<Rightarrow> Inl (InvalidToken e)
          | Inr cs \<Rightarrow>
              if \<not> bool_claim cs ''email_verified'' then Inl EmailNotVerified
              else case string_claim cs ''email'' of
                None \<Rightarrow> Inl MissingEmail
              | Some email \<Rightarrow> if email = [] then Inl MissingEmail else Inr email)"

definition eventarc_verify :: "token_validator \<Rightarrow> string \<Rightarrow> string \<Rightarrow> request \<Rightarrow> auth_error + string" where
  "eventarc_verify validate audience account r =
     (case bearer_token r of
        None \<Rightarrow> Inl MissingBearer
      | Some token \<Rightarrow>
          if audience = [] then Inl EmptyAudience
          else if account = [] then Inl EmptyServiceAccount
          else case validate token audience of
            Inl e \<Rightarrow> Inl (InvalidToken e)
          | Inr cs \<Rightarrow>
              let email = (case string_claim cs ''email'' of None \<Rightarrow> [] | Some s \<Rightarrow> s)
              in if email \<noteq> account then Inl (WrongServiceAccount email) else Inr email)"

definition iap_assertion_header :: string where "iap_assertion_header = ''X-RunCD-IAP-Assertion''"

definition new_iap_authenticator :: "iap_verifier \<Rightarrow> string \<Rightarrow> auth_error + (string \<Rightarrow> string + (string + string))" where
  "new_iap_authenticator verify_iap audience =
     (if audience = [] then Inl EmptyAudience else Inr (verify_iap audience))"

definition iap_verify :: "(string \<Rightarrow> string + (string + string)) \<Rightarrow> request \<Rightarrow> auth_error + string" where
  "iap_verify verifier r =
     (let assertion = get_value (rq_headers r) iap_assertion_header in
      if assertion = [] then Inl MissingAssertion
      else case verifier assertion of
        Inl e \<Rightarrow> Inl (InvalidToken e)
      | Inr (Inl e) \<Rightarrow> Inl (UndecodableClaims e)
      | Inr (Inr email) \<Rightarrow> if email = [] then Inl MissingEmail else Inr email)"

section \<open>Lemmas\<close>

lemma bearer_token_Some:
  "bearer_token r = Some token \<longleftrightarrow> get_value (rq_headers r) ''Authorization'' = bearer_prefix @ token \<and> token \<noteq> []"
  by (auto simp: bearer_token_def Let_def trim_prefix_def has_prefix_iff)

lemma bool_claim_iff: "bool_claim cs k \<longleftrightarrow> lookup cs k = Some (BoolClaim True)"
  by (simp add: bool_claim_def split: option.split claim_value.split)

lemma string_claim_Some: "string_claim cs k = Some s \<longleftrightarrow> lookup cs k = Some (StringClaim s)"
  by (simp add: string_claim_def split: option.split claim_value.split)

lemma google_verify_Inr:
  "google_verify validate audience r = Inr email \<longleftrightarrow>
     audience \<noteq> [] \<and> email \<noteq> [] \<and>
     (\<exists>token cs. bearer_token r = Some token \<and> validate token audience = Inr cs \<and>
        lookup cs ''email_verified'' = Some (BoolClaim True) \<and> lookup cs ''email'' = Some (StringClaim email))"
  unfolding bool_claim_iff [symmetric] string_claim_Some [symmetric]
  by (auto simp: google_verify_def split: option.splits sum.splits if_splits)

lemma eventarc_verify_Inr:
  "eventarc_verify validate audience account r = Inr email \<longleftrightarrow>
     audience \<noteq> [] \<and> account \<noteq> [] \<and> email = account \<and>
     (\<exists>token cs. bearer_token r = Some token \<and> validate token audience = Inr cs \<and>
        lookup cs ''email'' = Some (StringClaim account))"
  unfolding string_claim_Some [symmetric]
  by (auto simp: eventarc_verify_def Let_def split: option.splits sum.splits if_splits)

lemma iap_verify_Inr:
  "iap_verify verifier r = Inr email \<longleftrightarrow>
     get_value (rq_headers r) iap_assertion_header \<noteq> [] \<and> email \<noteq> [] \<and>
     verifier (get_value (rq_headers r) iap_assertion_header) = Inr (Inr email)"
  by (auto simp: iap_verify_def Let_def split: sum.splits if_splits)

section \<open>Authenticators\<close>

text \<open>The interface \<open>Authenticator\<close>: an identity comes from one credential of the request and from nothing else in it.\<close>

locale authenticator =
  fixes verify :: "request \<Rightarrow> auth_error + string"
    and credential :: "request \<Rightarrow> string option"
    and names :: "string \<Rightarrow> string \<Rightarrow> bool"
  assumes verify_iff: "verify r = Inr email \<longleftrightarrow> (\<exists>c. credential r = Some c \<and> names c email)"
    and no_anonymous: "names c email \<Longrightarrow> email \<noteq> []"
begin

lemma identity_nonempty: "verify r = Inr email \<Longrightarrow> email \<noteq> []"
  using verify_iff no_anonymous by blast

lemma refused_without_credential: "credential r = None \<Longrightarrow> \<exists>e. verify r = Inl e"
  using verify_iff [of r] by (cases "verify r") auto

lemma same_credential: "credential r = credential r' \<Longrightarrow> verify r = Inr email \<longleftrightarrow> verify r' = Inr email"
  by (simp add: verify_iff)

end

definition assertion :: "request \<Rightarrow> string option" where
  "assertion r = (let a = get_value (rq_headers r) iap_assertion_header in if a = [] then None else Some a)"

interpretation google: authenticator "google_verify validate audience" bearer_token
    "\<lambda>token email. audience \<noteq> [] \<and> email \<noteq> [] \<and> (\<exists>cs. validate token audience = Inr cs \<and>
       lookup cs ''email_verified'' = Some (BoolClaim True) \<and> lookup cs ''email'' = Some (StringClaim email))" for validate audience
  by unfold_locales (auto simp: google_verify_Inr)

interpretation eventarc: authenticator "eventarc_verify validate audience account" bearer_token
    "\<lambda>token email. audience \<noteq> [] \<and> account \<noteq> [] \<and> email = account \<and>
       (\<exists>cs. validate token audience = Inr cs \<and> lookup cs ''email'' = Some (StringClaim account))" for validate audience account
  by unfold_locales (auto simp: eventarc_verify_Inr)

interpretation iap: authenticator "iap_verify verifier" assertion "\<lambda>a email. email \<noteq> [] \<and> verifier a = Inr (Inr email)" for verifier
  by unfold_locales (auto simp: iap_verify_Inr assertion_def Let_def)

section \<open>Properties\<close>

text \<open>C29: who is let in. A request is accepted under an identity exactly when a non-empty credential is
  present, the configured audience is not empty, the library accepts the credential for that very audience,
  and the identity is the non-empty one it names: for a human token the email the issuer calls verified, for
  the event endpoint the one configured service account, for IAP the email of the assertion.\<close>

theorem authenticated_iff:
  "(google_verify validate audience r = Inr email \<longleftrightarrow>
     (\<exists>token cs. get_value (rq_headers r) ''Authorization'' = bearer_prefix @ token \<and> token \<noteq> [] \<and> audience \<noteq> [] \<and>
        validate token audience = Inr cs \<and> lookup cs ''email_verified'' = Some (BoolClaim True) \<and>
        lookup cs ''email'' = Some (StringClaim email) \<and> email \<noteq> [])) \<and>
   (eventarc_verify validate audience account r = Inr email \<longleftrightarrow>
     (\<exists>token cs. get_value (rq_headers r) ''Authorization'' = bearer_prefix @ token \<and> token \<noteq> [] \<and> audience \<noteq> [] \<and>
        validate token audience = Inr cs \<and> lookup cs ''email'' = Some (StringClaim email) \<and>
        email = account \<and> account \<noteq> [])) \<and>
   ((\<exists>a. new_iap_authenticator verify_iap audience = Inr a \<and> iap_verify a r = Inr email) \<longleftrightarrow>
     audience \<noteq> [] \<and> get_value (rq_headers r) iap_assertion_header \<noteq> [] \<and>
     verify_iap audience (get_value (rq_headers r) iap_assertion_header) = Inr (Inr email) \<and> email \<noteq> [])"
  unfolding google_verify_Inr eventarc_verify_Inr bearer_token_Some iap_verify_Inr
  by (auto simp: new_iap_authenticator_def)

end
