(* ===== verification/Api.thy ===== *)
theory Api
  imports Auth Rbac Reconcile_Pass Orphans Notify
begin

text \<open>
  The HTTP API (\<open>internal/api\<close>): the read views of the dashboard, the gated manual sync, one unit or many,
  the dry run, the orphan scan and the image event. A handler is a function of the request and the world of
  \<open>Reconcile\<close>; \<open>serve\<close> is the mux. A reply is a status with a text or with the view that is encoded as
  JSON. The live listing of the orphan scan reads the world and leaves it as it is.
\<close>

section \<open>Reading the tables\<close>

record application_row =
  aw_app :: string
  aw_project :: string
  aw_desired_image :: string
  aw_live_image :: string
  aw_track :: string
  aw_version :: string
  aw_repository :: string
  aw_resource_type :: string
  aw_status :: string
  aw_health :: string
  aw_last_reconciled :: time

record sync_event =
  se_id :: int
  se_trigger :: string
  se_actor :: string
  se_from_image :: string
  se_to_image :: string
  se_started :: time
  se_finished :: "time option"
  se_result :: string
  se_error :: string

definition coalesce :: "string option \<Rightarrow> string" where
  "coalesce s = (case s of None \<Rightarrow> [] | Some t \<Rightarrow> t)"

definition application_row_of :: "unit_id \<times> app_row \<Rightarrow> application_row" where
  "application_row_of = (\<lambda>(k, row).
     \<lparr>aw_app = fst k, aw_project = snd k, aw_desired_image = ar_desired_image row,
      aw_live_image = coalesce (ar_live_image row), aw_track = ar_track row, aw_version = ar_version row,
      aw_repository = ar_repository row, aw_resource_type = ar_resource_type row, aw_status = ar_status row,
      aw_health = ar_health row, aw_last_reconciled = ar_last_reconciled row\<rparr>)"

definition sync_event_of :: "int \<times> event_row \<Rightarrow> sync_event" where
  "sync_event_of = (\<lambda>(n, row).
     \<lparr>se_id = n, se_trigger = er_trigger row, se_actor = er_actor row, se_from_image = coalesce (er_from_image row),
      se_to_image = er_to_image row, se_started = er_started row, se_finished = er_finished row,
      se_result = er_result row, se_error = coalesce (er_error row)\<rparr>)"

definition list_applications_stmt :: "time \<Rightarrow> rec_db \<Rightarrow> application_row list \<times> rec_db" where
  "list_applications_stmt now db = (map application_row_of (db_apps db), db)"

definition get_application_stmt :: "string \<Rightarrow> string \<Rightarrow> time \<Rightarrow> rec_db \<Rightarrow> application_row option \<times> rec_db" where
  "get_application_stmt app project now db =
     (map_option (\<lambda>row. application_row_of ((app, project), row)) (lookup (db_apps db) (app, project)), db)"

text \<open>\<open>ORDER BY started_at DESC LIMIT\<close>; events that started at the same instant stay in table order.\<close>

definition sync_history_stmt :: "string \<Rightarrow> string \<Rightarrow> nat \<Rightarrow> time \<Rightarrow> rec_db \<Rightarrow> sync_event list \<times> rec_db" where
  "sync_history_stmt app project limit now db =
     (take limit (sort_key (\<lambda>e. - se_started e)
        (map sync_event_of (filter (\<lambda>(n, row). er_unit row = (app, project)) (db_events db)))), db)"

definition sync_event_counts_stmt :: "time \<Rightarrow> rec_db \<Rightarrow> ((string \<times> string) \<times> nat) list \<times> rec_db" where
  "sync_event_counts_stmt now db =
     (let buckets = map (\<lambda>(n, row). (er_trigger row, er_result row)) (db_events db)
      in (map (\<lambda>b. (b, count_list buckets b)) (dedup [] buckets), db))"

section \<open>Handlers\<close>

datatype notifier = EvaluatorNotifier evaluator | OtherNotifier

record runtime_info =
  ri_config_repo :: string
  ri_config_branch :: string
  ri_config_path :: string
  ri_rbac_path :: string
  ri_interval_seconds :: int

text \<open>
  \<open>Handler\<close>: \<open>ha_list\<close> is missing when the lookup is no \<open>UnitLister\<close>; the reconciler is its dependencies
  and its notifier, which is also a function on the world.
\<close>

record 'w handler =
  ha_auth :: "request \<Rightarrow> auth_error + string"
  ha_rbac :: rbac_store
  ha_find :: "string \<Rightarrow> string \<Rightarrow> sync_unit option"
  ha_list :: "sync_unit list option"
  ha_deps :: "'w deps"
  ha_notify :: "rec_error sync_result \<Rightarrow> 'w rec_world \<Rightarrow> 'w rec_world"
  ha_notifier :: "notifier option"
  ha_list_names :: "'w \<Rightarrow> string \<Rightarrow> string \<Rightarrow> cloudrun_error + string list"
  ha_scope_order :: "orphan_scope list \<Rightarrow> orphan_scope list"
  ha_runtime :: runtime_info
  ha_image_events :: "(request \<Rightarrow> auth_error + string) option"
  ha_is_leader :: "bool option"
  ha_nudge :: bool

text \<open>\<open>StaticUnits\<close>, the lookup by the key \<open>app/project\<close>.\<close>

definition app_key :: "string \<Rightarrow> string \<Rightarrow> string" where
  "app_key app project = app @ CHR ''/'' # project"

definition static_find :: "(string \<times> sync_unit) list \<Rightarrow> string \<Rightarrow> string \<Rightarrow> sync_unit option" where
  "static_find m app project = lookup m (app_key app project)"

definition static_list :: "(string \<times> sync_unit) list \<Rightarrow> sync_unit list" where
  "static_list m = map snd m"

text \<open>The interface \<open>UnitLookup\<close> with \<open>UnitLister\<close>: what is found is what is listed, under its key.\<close>

locale unit_lookup =
  fixes keyed :: "'m \<Rightarrow> bool"
    and find_unit :: "'m \<Rightarrow> string \<Rightarrow> string \<Rightarrow> sync_unit option"
    and list_units :: "'m \<Rightarrow> sync_unit list"
  assumes find_iff: "keyed m \<Longrightarrow> find_unit m app project = Some u \<longleftrightarrow> u \<in> set (list_units m) \<and> unit_key app project = su_key u"
begin

lemma listed_found: "\<lbrakk> keyed m; u \<in> set (list_units m) \<rbrakk> \<Longrightarrow> find_unit m (su_app u) (su_project u) = Some u"
  by (simp add: find_iff su_key_def)

lemma found_listed: "\<lbrakk> keyed m; find_unit m app project = Some u \<rbrakk> \<Longrightarrow> u \<in> set (list_units m)"
  by (simp add: find_iff)

lemma unlisted_missing: "\<lbrakk> keyed m; unit_key app project \<notin> su_key ` set (list_units m) \<rbrakk> \<Longrightarrow> find_unit m app project = None"
  by (cases "find_unit m app project") (auto simp: find_iff)

lemma listed_once: "\<lbrakk> keyed m; u \<in> set (list_units m); v \<in> set (list_units m); su_key u = su_key v \<rbrakk> \<Longrightarrow> u = v"
  using listed_found [of m u] find_iff [of m "su_app u" "su_project u" v] by (simp add: su_key_def)

end

definition static_keyed :: "(string \<times> sync_unit) list \<Rightarrow> bool" where
  "static_keyed m \<longleftrightarrow> distinct (keys m) \<and> (\<forall>(k, u) \<in> set m. k = su_key u)"

lemma app_key_eq: "app_key app project = unit_key app project"
  by (simp add: app_key_def unit_key_def)

interpretation static_units: unit_lookup static_keyed static_find static_list
proof
  fix m app project u
  assume m: "static_keyed m"
  then have look: "lookup m k = Some v \<longleftrightarrow> (k, v) \<in> set m" for k v
    by (intro lookup_wf_iff) (simp add: static_keyed_def wf_map_def)
  have key: "k = su_key v" if "(k, v) \<in> set m" for k v
    using m that by (auto simp: static_keyed_def)
  show "static_find m app project = Some u \<longleftrightarrow> u \<in> set (static_list m) \<and> unit_key app project = su_key u"
    unfolding static_find_def static_list_def app_key_eq look
  proof
    assume "(unit_key app project, u) \<in> set m"
    then show "u \<in> set (map snd m) \<and> unit_key app project = su_key u" using key by (auto intro: rev_image_eqI)
  next
    assume u: "u \<in> set (map snd m) \<and> unit_key app project = su_key u"
    then obtain k where "(k, u) \<in> set m" by auto
    with u key [of k u] show "(unit_key app project, u) \<in> set m" by simp
  qed
qed

datatype 'b http_reply = HttpError (reply_status: nat) string | HttpJson (reply_status: nat) 'b

definition allowed :: "'w handler \<Rightarrow> string \<Rightarrow> sync_unit \<Rightarrow> bool" where
  "allowed h email u = can_sync_folders (store_get (ha_rbac h)) (folder_membership (ha_rbac h)) email u"

definition verify :: "'w handler \<Rightarrow> request \<Rightarrow> 'b http_reply + string" where
  "verify h r = (case ha_auth h r of Inl e \<Rightarrow> Inl (HttpError 401 ''invalid token'') | Inr email \<Rightarrow> Inr email)"

record sync_response =
  sr_app :: string
  sr_project :: string
  sr_status :: string
  sr_health :: string

definition handle_sync :: "'w handler \<Rightarrow> request \<Rightarrow> 'w rec_world \<Rightarrow> sync_response http_reply \<times> 'w rec_world" where
  "handle_sync h r w =
     (case verify h r of
        Inl reply \<Rightarrow> (reply, w)
      | Inr email \<Rightarrow>
          let project = get_value (rq_path r) ''project''; app = get_value (rq_path r) ''app'' in
          case ha_find h app project of
            None \<Rightarrow> (HttpError 404 ''unknown app/project'', w)
          | Some u \<Rightarrow>
              if \<not> allowed h email u
              then (HttpError 403 ''forbidden: no role grants sync access to this app/project'', w)
              else
                let ((res, err), w1) = manual_sync (ha_deps h) (ha_notify h) u email w in
                (if err \<noteq> None then HttpError 500 ''sync failed''
                 else if res_err res = Some SyncInProgress
                 then HttpError 409 ''sync already in progress for this app/project''
                 else if res_err res = Some ObserveMode
                 then HttpError 409 ''sync disabled: this app/environment is in observe mode (sync.observe)''
                 else HttpJson (if res_deploy_failed res then 422 else 200)
                   \<lparr>sr_app = app, sr_project = project, sr_status = res_status res, sr_health = res_health res\<rparr>, w1))"

subsection \<open>Batches\<close>

record batch_result =
  br_app :: string
  br_project :: string
  br_status :: string
  br_health :: string
  br_skipped :: string
  br_deploy_failed :: bool

definition empty_batch_result :: "sync_unit \<Rightarrow> batch_result" where
  "empty_batch_result u = \<lparr>br_app = su_app u, br_project = su_project u, br_status = [], br_health = [],
     br_skipped = [], br_deploy_failed = False\<rparr>"

definition sync_one_for_batch ::
  "'w handler \<Rightarrow> string \<Rightarrow> rbac_config option \<Rightarrow> membership \<Rightarrow> sync_unit \<Rightarrow> 'w rec_world \<Rightarrow> batch_result \<times> 'w rec_world" where
  "sync_one_for_batch h email cfg fm u w =
     (let result = empty_batch_result u in
      if \<not> can_sync_folders cfg fm email u then (result\<lparr>br_skipped := ''forbidden''\<rparr>, w)
      else
        let ((res, err), w1) = manual_sync (ha_deps h) (ha_notify h) u email w in
        (if err \<noteq> None then result\<lparr>br_skipped := ''error''\<rparr>
         else if res_err res = Some SyncInProgress then result\<lparr>br_skipped := ''inProgress''\<rparr>
         else if res_err res = Some ObserveMode then result\<lparr>br_skipped := ''observing''\<rparr>
         else result\<lparr>br_status := res_status res, br_health := res_health res, br_deploy_failed := res_deploy_failed res\<rparr>, w1))"

fun sync_batch_units ::
  "'w handler \<Rightarrow> string \<Rightarrow> rbac_config option \<Rightarrow> membership \<Rightarrow> sync_unit list \<Rightarrow> 'w rec_world \<Rightarrow> batch_result list \<times> 'w rec_world" where
  "sync_batch_units h email cfg fm [] w = ([], w)"
| "sync_batch_units h email cfg fm (u # us) w =
     (let (b, w1) = sync_one_for_batch h email cfg fm u w; (bs, w2) = sync_batch_units h email cfg fm us w1
      in (b # bs, w2))"

definition rows_by_key :: "application_row list \<Rightarrow> (string \<times> application_row) list" where
  "rows_by_key rows = foldl (\<lambda>m row. put (app_key (aw_app row) (aw_project row)) row m) [] rows"

definition filter_out_of_sync :: "sync_unit list \<Rightarrow> 'w rec_world \<Rightarrow> sync_unit list \<times> 'w rec_world" where
  "filter_out_of_sync units w =
     (case run_db list_applications_stmt w of
        (Inl e, w1) \<Rightarrow> (units, w1)
      | (Inr rows, w1) \<Rightarrow>
          let by_key = rows_by_key rows in
          (filter (\<lambda>u. case lookup by_key (app_key (su_app u) (su_project u)) of
             None \<Rightarrow> True | Some row \<Rightarrow> aw_status row \<noteq> ''Synced'') units, w1))"

text \<open>The units of a batch: those of the requested project, less the ones known to be in sync when asked.\<close>

definition batch_candidates ::
  "'w handler \<Rightarrow> string \<Rightarrow> request \<Rightarrow> sync_unit list \<Rightarrow> 'w rec_world \<Rightarrow> sync_unit list \<times> 'w rec_world" where
  "batch_candidates h email r units w =
     (let project = get_value (rq_query r) ''project'';
          only_out_of_sync = (get_value (rq_query r) ''filter'' = ''outOfSync'');
          candidates = filter (\<lambda>u. \<not> (project \<noteq> [] \<and> su_project u \<noteq> project)) units
      in if only_out_of_sync \<and> has_any_grant (store_get (ha_rbac h)) email
         then filter_out_of_sync candidates w else (candidates, w))"

definition handle_sync_batch :: "'w handler \<Rightarrow> request \<Rightarrow> 'w rec_world \<Rightarrow> batch_result list http_reply \<times> 'w rec_world" where
  "handle_sync_batch h r w =
     (case verify h r of
        Inl reply \<Rightarrow> (reply, w)
      | Inr email \<Rightarrow>
         (case ha_list h of
            None \<Rightarrow> (HttpError 501 ''unit listing not supported'', w)
          | Some units \<Rightarrow>
              let cfg = store_get (ha_rbac h); fm = folder_membership (ha_rbac h);
                  (candidates, w1) = batch_candidates h email r units w;
                  (results, w2) = sync_batch_units h email cfg fm candidates w1
              in (HttpJson (if list_ex br_deploy_failed results then 422 else 200) results, w2)))"

subsection \<open>Read views\<close>

record unit_view =
  uv_app :: string
  uv_project :: string
  uv_env :: string
  uv_region :: string
  uv_auto :: bool
  uv_desired_image :: string
  uv_live_image :: string
  uv_track :: string
  uv_version :: string
  uv_repository :: string
  uv_resource_type :: string
  uv_status :: string
  uv_health :: string
  uv_last_reconciled :: "time option"
  uv_can_sync :: bool
  uv_observing :: bool
  uv_ignore_fields :: "string list"
  uv_ignore_preconditions :: "string list"

definition pending_status :: string where "pending_status = ''Pending''"
definition pending_health :: string where "pending_health = ''Pending''"

definition unit_view_from :: "sync_unit \<Rightarrow> rbac_config option \<Rightarrow> membership \<Rightarrow> string \<Rightarrow> unit_view" where
  "unit_view_from u cfg fm email =
     \<lparr>uv_app = su_app u, uv_project = su_project u, uv_env = su_env u, uv_region = su_region u,
      uv_auto = auto_sync_enabled (su_sync u), uv_desired_image = [], uv_live_image = [], uv_track = [],
      uv_version = [], uv_repository = [], uv_resource_type = [], uv_status = pending_status,
      uv_health = pending_health, uv_last_reconciled = None, uv_can_sync = can_sync_folders cfg fm email u,
      uv_observing = observe_mode_enabled (su_sync u), uv_ignore_fields = su_ignore_fields u,
      uv_ignore_preconditions = su_ignore_preconditions u\<rparr>"

definition apply_row :: "unit_view \<Rightarrow> application_row \<Rightarrow> unit_view" where
  "apply_row v row =
     v\<lparr>uv_desired_image := aw_desired_image row, uv_live_image := aw_live_image row, uv_track := aw_track row,
       uv_version := aw_version row, uv_repository := aw_repository row, uv_resource_type := aw_resource_type row,
       uv_status := aw_status row, uv_health := aw_health row, uv_last_reconciled := Some (aw_last_reconciled row)\<rparr>"

definition handle_list_units :: "'w handler \<Rightarrow> request \<Rightarrow> 'w rec_world \<Rightarrow> unit_view list http_reply \<times> 'w rec_world" where
  "handle_list_units h r w =
     (case verify h r of
        Inl reply \<Rightarrow> (reply, w)
      | Inr email \<Rightarrow>
         (case ha_list h of
            None \<Rightarrow> (HttpError 501 ''unit listing not supported'', w)
          | Some units \<Rightarrow>
             (case run_db list_applications_stmt w of
                (Inl e, w1) \<Rightarrow> (HttpError 500 ''failed to list units'', w1)
              | (Inr rows, w1) \<Rightarrow>
                  let by_key = rows_by_key rows; cfg = store_get (ha_rbac h); fm = folder_membership (ha_rbac h) in
                  (HttpJson 200 (map (\<lambda>u. let v = unit_view_from u cfg fm email in
                     case lookup by_key (app_key (su_app u) (su_project u)) of
                       None \<Rightarrow> v | Some row \<Rightarrow> apply_row v row) units), w1))))"

definition handle_unit_detail :: "'w handler \<Rightarrow> request \<Rightarrow> 'w rec_world \<Rightarrow> unit_view http_reply \<times> 'w rec_world" where
  "handle_unit_detail h r w =
     (case verify h r of
        Inl reply \<Rightarrow> (reply, w)
      | Inr email \<Rightarrow>
          let project = get_value (rq_path r) ''project''; app = get_value (rq_path r) ''app'' in
          case ha_find h app project of
            None \<Rightarrow> (HttpError 404 ''unknown app/project'', w)
          | Some u \<Rightarrow>
              let v = unit_view_from u (store_get (ha_rbac h)) (folder_membership (ha_rbac h)) email in
              case run_db (get_application_stmt app project) w of
                (Inl e, w1) \<Rightarrow> (HttpError 500 ''failed to load unit'', w1)
              | (Inr found, w1) \<Rightarrow>
                  (HttpJson 200 (case found of None \<Rightarrow> v | Some row \<Rightarrow> apply_row v row), w1))"

record dry_run_view =
  dv_app :: string
  dv_project :: string
  dv_status :: string
  dv_health :: string
  dv_desired_image :: string
  dv_live_image :: string
  dv_observing :: bool

definition handle_dry_run :: "'w handler \<Rightarrow> request \<Rightarrow> 'w rec_world \<Rightarrow> dry_run_view http_reply \<times> 'w rec_world" where
  "handle_dry_run h r w =
     (case verify h r of
        Inl reply \<Rightarrow> (reply, w)
      | Inr email \<Rightarrow>
          let project = get_value (rq_path r) ''project''; app = get_value (rq_path r) ''app'' in
          case ha_find h app project of
            None \<Rightarrow> (HttpError 404 ''unknown app/project'', w)
          | Some u \<Rightarrow>
              if \<not> allowed h email u
              then (HttpError 403 ''forbidden: no role grants sync access to this app/project'', w)
              else
                let (res, w1) = dry_run (ha_deps h) u w in
                (HttpJson 200 \<lparr>dv_app = app, dv_project = project, dv_status = res_status res, dv_health = res_health res,
                   dv_desired_image = res_desired_image res, dv_live_image = res_live_image res,
                   dv_observing = res_observing res\<rparr>, w1))"

text \<open>The orphan scan, over the units the caller may sync.\<close>

definition handle_orphans :: "'w handler \<Rightarrow> request \<Rightarrow> 'w rec_world \<Rightarrow> orphan list http_reply \<times> 'w rec_world" where
  "handle_orphans h r w =
     (case verify h r of
        Inl reply \<Rightarrow> (reply, w)
      | Inr email \<Rightarrow>
          let cfg = store_get (ha_rbac h) in
          if \<not> has_any_grant cfg email then (HttpError 403 ''forbidden: no role grants sync access'', w)
          else case ha_list h of
            None \<Rightarrow> (HttpError 501 ''unit listing not supported'', w)
          | Some units \<Rightarrow>
              let fm = folder_membership (ha_rbac h);
                  scannable = filter (\<lambda>u. can_sync_folders cfg fm email u) units;
                  allowed_projects = map su_project scannable
              in (case detect_orphans (ha_list_names h (rw_ext w)) (ha_scope_order h) scannable of
                    (None, errs) \<Rightarrow>
                      if errs \<noteq> [] then (HttpError 500 ''failed to detect orphans'', w) else (HttpJson 200 [], w)
                  | (Some orphans, errs) \<Rightarrow>
                      (HttpJson (if errs \<noteq> [] then 206 else 200)
                        (filter (\<lambda>o'. or_project o' \<in> set allowed_projects) orphans), w)))"

text \<open>\<open>strconv.Atoi\<close> on a 64-bit platform.\<close>

definition digits_value :: "string \<Rightarrow> nat" where
  "digits_value ds = foldl (\<lambda>n c. 10 * n + (of_char c - 48)) 0 ds"

definition atoi :: "string \<Rightarrow> int option" where
  "atoi s =
     (let (neg, ds) = (case s of [] \<Rightarrow> (False, [])
            | c # cs \<Rightarrow> if c = CHR ''-'' then (True, cs) else if c = CHR ''+'' then (False, cs) else (False, s));
          n = (if neg then - int (digits_value ds) else int (digits_value ds))
      in if ds = [] \<or> \<not> list_all is_digit ds then None
         else if - (2 ^ 63) \<le> n \<and> n < 2 ^ 63 then Some n else None)"

definition default_history_limit :: int where "default_history_limit = 50"
definition max_history_limit :: int where "max_history_limit = 500"

definition history_limit :: "string \<Rightarrow> int option" where
  "history_limit q =
     (if q = [] then Some default_history_limit
      else case atoi q of None \<Rightarrow> None | Some n \<Rightarrow> if n \<le> 0 then None else Some (min n max_history_limit))"

definition handle_unit_history :: "'w handler \<Rightarrow> request \<Rightarrow> 'w rec_world \<Rightarrow> sync_event list http_reply \<times> 'w rec_world" where
  "handle_unit_history h r w =
     (case verify h r of
        Inl reply \<Rightarrow> (reply, w)
      | Inr email \<Rightarrow>
          let project = get_value (rq_path r) ''project''; app = get_value (rq_path r) ''app'' in
          case ha_find h app project of
            None \<Rightarrow> (HttpError 404 ''unknown app/project'', w)
          | Some u \<Rightarrow>
              if \<not> allowed h email u
              then (HttpError 403 ''forbidden: no role grants sync access to this app/project'', w)
              else case history_limit (get_value (rq_query r) ''limit'') of
                None \<Rightarrow> (HttpError 400 ''limit must be a positive integer'', w)
              | Some limit \<Rightarrow>
                 (case run_db (sync_history_stmt app project (nat limit)) w of
                    (Inl e, w1) \<Rightarrow> (HttpError 500 ''failed to load sync history'', w1)
                  | (Inr events, w1) \<Rightarrow> (HttpJson 200 events, w1)))"

definition handle_list_rbac :: "'w handler \<Rightarrow> request \<Rightarrow> rbac_rule list http_reply" where
  "handle_list_rbac h r =
     (case verify h r of
        Inl reply \<Rightarrow> reply
      | Inr email \<Rightarrow> HttpJson 200 (case store_get (ha_rbac h) of None \<Rightarrow> [] | Some rules \<Rightarrow> rules))"

record config_view =
  cv_runtime :: runtime_info
  cv_managed_fields :: "string list"
  cv_notifications :: bool
  cv_notify_by_env :: "(string \<times> env_rules) list"

definition handle_config :: "'w handler \<Rightarrow> request \<Rightarrow> config_view http_reply" where
  "handle_config h r =
     (case verify h r of
        Inl reply \<Rightarrow> reply
      | Inr email \<Rightarrow>
          HttpJson 200 \<lparr>cv_runtime = ha_runtime h, cv_managed_fields = dp_managed (ha_deps h),
            cv_notifications = (ha_notifier h \<noteq> None),
            cv_notify_by_env = (case ha_notifier h of
               Some (EvaluatorNotifier e) \<Rightarrow> resolved_rules e ''default'' | _ \<Rightarrow> [])\<rparr>)"

text \<open>An image event: the reply, and whether the reconcile loop is nudged.\<close>

definition handle_image_event :: "'w handler \<Rightarrow> request \<Rightarrow> unit http_reply \<times> bool" where
  "handle_image_event h r =
     (case ha_image_events h of
        None \<Rightarrow> (HttpError 404 ''404 page not found'', False)
      | Some auth \<Rightarrow>
         (case auth r of
            Inl e \<Rightarrow> (HttpError 403 ''forbidden'', False)
          | Inr _ \<Rightarrow> (HttpJson 202 (), ha_is_leader h = Some True \<and> ha_nudge h)))"

subsection \<open>The mux\<close>

datatype route = ListUnits | UnitDetail | UnitHistory | DryRun | ListRbac | ShowConfig | ListOrphans | SyncUnit
  | SyncBatch | ImageEvent

datatype api_body =
    UnitsBody "unit_view list"
  | UnitBody unit_view
  | HistoryBody "sync_event list"
  | DryRunBody dry_run_view
  | RbacBody "rbac_rule list"
  | ConfigBody config_view
  | OrphansBody "orphan list"
  | SyncBody sync_response
  | BatchBody "batch_result list"
  | NoBody

fun encode :: "('b \<Rightarrow> api_body) \<Rightarrow> 'b http_reply \<Rightarrow> api_body http_reply" where
  "encode f (HttpError status msg) = HttpError status msg"
| "encode f (HttpJson status b) = HttpJson status (f b)"

fun serve :: "'w handler \<Rightarrow> route \<Rightarrow> request \<Rightarrow> 'w rec_world \<Rightarrow> api_body http_reply \<times> 'w rec_world" where
  "serve h ListUnits r w = apfst (encode UnitsBody) (handle_list_units h r w)"
| "serve h UnitDetail r w = apfst (encode UnitBody) (handle_unit_detail h r w)"
| "serve h UnitHistory r w = apfst (encode HistoryBody) (handle_unit_history h r w)"
| "serve h DryRun r w = apfst (encode DryRunBody) (handle_dry_run h r w)"
| "serve h ListRbac r w = (encode RbacBody (handle_list_rbac h r), w)"
| "serve h ShowConfig r w = (encode ConfigBody (handle_config h r), w)"
| "serve h ListOrphans r w = apfst (encode OrphansBody) (handle_orphans h r w)"
| "serve h SyncUnit r w = apfst (encode SyncBody) (handle_sync h r w)"
| "serve h SyncBatch r w = apfst (encode BatchBody) (handle_sync_batch h r w)"
| "serve h ImageEvent r w = (encode (\<lambda>_. NoBody) (fst (handle_image_event h r)), w)"
end
