(* ===== verification/Api_Access.thy ===== *)
theory Api_Access
  imports Api
begin

text \<open>
  What the API lets whom do: a caller without a grant reaches neither Cloud Run nor the tables, a caller
  with grants touches the rows and locks of the granted units only, and what the replies mean.
\<close>

section \<open>Lemmas\<close>

lemma unit_invariant_locks:
  assumes "k' \<noteq> k"
  shows "unit_invariant k (\<lambda>w. lookup (db_locks (rw_db w)) k' = r)"
proof -
  have gone: "lookup (remove_key k m) k' = lookup m k'" for m :: "(unit_id \<times> lock_row) list"
    using assms by (induction m) (auto simp: remove_key_def)
  have same: "lookup (db_locks (snd (acquire_lock_stmt k tk t db))) k' = lookup (db_locks db) k'"
    "lookup (db_locks (snd (release_lock_stmt k tk t db))) k' = lookup (db_locks db) k'"
    "lookup (db_locks (snd (insert_event_stmt k tr ac f to_image t db))) k' = lookup (db_locks db) k'"
    "lookup (db_locks (snd (update_event_stmt n a b t db))) k' = lookup (db_locks db) k'"
    "lookup (db_locks (snd (upsert_stmt (res :: rec_error sync_result) t db))) k' = lookup (db_locks db) k'"
    for tk t db tr ac f to_image n a b res
    using assms by (auto simp: acquire_lock_stmt_def release_lock_stmt_def insert_event_stmt_def update_event_stmt_def
        upsert_stmt_def Let_def gone split: option.split)
  have keep: "(\<And>t db. lookup (db_locks (snd (stmt t db))) k' = lookup (db_locks db) k') \<Longrightarrow>
      lookup (db_locks (rw_db (snd (run_db stmt w)))) k' = lookup (db_locks (rw_db w)) k'"
    for stmt :: "time \<Rightarrow> rec_db \<Rightarrow> 'r \<times> rec_db" and w :: "'w rec_world"
    by (rule run_db_keeps [of "\<lambda>db. lookup (db_locks db) k'" stmt w "fst (run_db stmt w)"]) simp_all
  show ?thesis unfolding unit_invariant_def by (simp add: keep same)
qed

text \<open>What a unit's key owns in the tables.\<close>

definition unit_state :: "'w rec_world \<Rightarrow> unit_id \<Rightarrow> app_row option \<times> lock_row option" where
  "unit_state w k = (lookup (db_apps (rw_db w)) k, lookup (db_locks (rw_db w)) k)"

lemma reconcile_unit_state:
  assumes "reconcile dp u opts w = (res, w')" and "k \<noteq> uid u"
  shows "unit_state w' k = unit_state w k"
  using reconcile_invariant [OF unit_invariant_rows [OF assms(2)] refl assms(1)]
    reconcile_invariant [OF unit_invariant_locks [OF assms(2)] refl assms(1)]
  by (simp add: unit_state_def)

lemma upsert_unit_state:
  assumes "upsert res w = (r, w')" and "k \<noteq> uid (res_unit res)"
  shows "unit_state w' k = unit_state w k"
proof -
  obtain a w1 where up: "run_db (upsert_stmt res) w = (a, w1)" by (metis surj_pair)
  have "w' = w1" using assms(1) up by (auto simp: upsert_def split: sum.splits option.splits)
  moreover have "lookup (db_apps (rw_db w1)) k = lookup (db_apps (rw_db w)) k"
    using unit_invariantD(4) [OF unit_invariant_rows [OF assms(2)] refl refl up] .
  moreover have "lookup (db_locks (rw_db w1)) k = lookup (db_locks (rw_db w)) k"
    using unit_invariantD(4) [OF unit_invariant_locks [OF assms(2)] refl refl up] .
  ultimately show ?thesis by (simp add: unit_state_def)
qed

lemma unit_state_ext [simp]: "unit_state (w\<lparr>rw_ext := x\<rparr>) k = unit_state w k"
  by (simp add: unit_state_def)

lemma manual_sync_unit_state:
  assumes nk: "keeps_database notify" and run: "manual_sync dp notify u actor w = (r, w')" and "k \<noteq> uid u"
  shows "unit_state w' k = unit_state w k"
proof -
  obtain res w1 where rec: "reconcile dp u (manual_options actor (rw_clock w)) w = (res, w1)" by (metis surj_pair)
  have k: "k \<noteq> uid (res_unit res)" using reconcile_result [OF rec] assms(3) by simp
  note one = reconcile_unit_state [OF rec assms(3)]
  have note_state: "unit_state (notify res' v) k = unit_state v k" for res' v
    using nk unfolding keeps_database_def by (metis unit_state_ext)
  obtain err res2 w2 where up: "upsert res w1 = ((err, res2), w2)" by (metis surj_pair)
  have "w' = notify res w1 \<or> w' = notify res2 w2"
    using run by (auto simp: manual_sync_def rec up split: if_splits)
  then show ?thesis using one upsert_unit_state [OF up k] by (auto simp: note_state)
qed

lemma verify_cases:
  "verify h r = Inr email \<longleftrightarrow> ha_auth h r = Inr email"
  "verify h r = Inl reply \<longleftrightarrow> (\<exists>e. ha_auth h r = Inl e) \<and> reply = HttpError 401 ''invalid token''"
  by (auto simp: verify_def split: sum.split)

lemma run_db_read:
  assumes "run_db stmt w = (r, w')" and "\<And>t db. snd (stmt t db) = db"
  shows "rw_db w' = rw_db w \<and> rw_ext w' = rw_ext w"
  using assms(1) exec_stmt_table [of _ "stmt _" "rw_db w"]
  by (auto simp: run_db_def assms(2) Let_def split: prod.splits) (metis assms(2) insertE singletonD snd_conv)+

lemma read_stmts [simp]:
  "snd (list_applications_stmt t db) = db" "snd (get_application_stmt app project t db) = db"
  "snd (sync_history_stmt app project limit t db) = db" "snd (sync_event_counts_stmt t db) = db"
  by (simp_all add: list_applications_stmt_def get_application_stmt_def sync_history_stmt_def sync_event_counts_stmt_def Let_def)

lemma filter_out_of_sync_reads:
  assumes "filter_out_of_sync units w = (out, w')"
  shows "rw_db w' = rw_db w \<and> rw_ext w' = rw_ext w \<and> set out \<subseteq> set units"
proof -
  obtain r w1 where run: "run_db list_applications_stmt w = (r, w1)" by (metis surj_pair)
  have "rw_db w1 = rw_db w \<and> rw_ext w1 = rw_ext w" using run_db_read [OF run] by simp
  then show ?thesis using assms by (auto simp: filter_out_of_sync_def run Let_def split: sum.splits)
qed

lemma batch_candidates_reads:
  assumes "batch_candidates h email r units w = (out, w')"
  shows "rw_db w' = rw_db w \<and> rw_ext w' = rw_ext w \<and> set out \<subseteq> set units"
  using assms by (auto simp: batch_candidates_def Let_def split: if_splits dest!: filter_out_of_sync_reads)

section \<open>Callers without a grant\<close>

text \<open>The units the handler knows, and requests of callers who may sync none of them.\<close>

definition known :: "'w handler \<Rightarrow> sync_unit \<Rightarrow> bool" where
  "known h u \<longleftrightarrow> (\<exists>app project. ha_find h app project = Some u) \<or> (\<exists>us. ha_list h = Some us \<and> u \<in> set us)"

context unit_lookup begin

lemma known_iff:
  assumes "keyed m" and "ha_find h = find_unit m" and "ha_list h = Some (list_units m)"
  shows "known h u \<longleftrightarrow> u \<in> set (list_units m)"
  using assms found_listed by (auto simp: known_def)

end

definition may_sync :: "'w handler \<Rightarrow> request \<Rightarrow> sync_unit \<Rightarrow> bool" where
  "may_sync h r u \<longleftrightarrow> (\<exists>email. ha_auth h r = Inr email \<and> allowed h email u)"

text \<open>The handler with another Cloud Run, another notifier and another listing behind it.\<close>

definition with_backend ::
  "'w deps \<Rightarrow> (rec_error sync_result \<Rightarrow> 'w rec_world \<Rightarrow> 'w rec_world) \<Rightarrow>
   ('w \<Rightarrow> string \<Rightarrow> string \<Rightarrow> cloudrun_error + string list) \<Rightarrow> 'w handler \<Rightarrow> 'w handler" where
  "with_backend dp notify names h = h\<lparr>ha_deps := dp, ha_notify := notify, ha_list_names := names\<rparr>"

lemma with_backend_simps [simp]:
  "ha_auth (with_backend dp notify names h) = ha_auth h" "ha_rbac (with_backend dp notify names h) = ha_rbac h"
  "ha_find (with_backend dp notify names h) = ha_find h" "ha_list (with_backend dp notify names h) = ha_list h"
  "ha_deps (with_backend dp notify names h) = dp" "ha_runtime (with_backend dp notify names h) = ha_runtime h"
  "ha_notifier (with_backend dp notify names h) = ha_notifier h" "ha_scope_order (with_backend dp notify names h) = ha_scope_order h"
  "ha_list_names (with_backend dp notify names h) = names"
  "ha_image_events (with_backend dp notify names h) = ha_image_events h"
  "ha_is_leader (with_backend dp notify names h) = ha_is_leader h" "ha_nudge (with_backend dp notify names h) = ha_nudge h"
  "allowed (with_backend dp notify names h) = allowed h" "verify (with_backend dp notify names h) = verify h"
  by (simp_all add: with_backend_def allowed_def verify_def fun_eq_iff)

lemma with_own_backend: "with_backend (ha_deps h) (ha_notify h) (ha_list_names h) h = h"
  by (simp add: with_backend_def)

lemma batch_all_forbidden:
  assumes "list_all (\<lambda>u. \<not> can_sync_folders cfg fm email u) us"
  shows "sync_batch_units h email cfg fm us w = (map (\<lambda>u. (empty_batch_result u)\<lparr>br_skipped := ''forbidden''\<rparr>) us, w)"
  using assms by (induction us) (simp_all add: sync_one_for_batch_def)

lemma detect_orphans_none: "detect_orphans names order [] = (Some [], [])" if "order [] = []"
  using that by (simp add: detect_orphans_def expected_apps_def keys_def)

definition permutes_scopes :: "'w handler \<Rightarrow> bool" where
  "permutes_scopes h \<longleftrightarrow> (\<forall>xs. set (ha_scope_order h xs) = set xs)"

lemma permutes_scopes_Nil: "permutes_scopes h \<Longrightarrow> ha_scope_order h [] = []"
  unfolding permutes_scopes_def by (metis set_empty)

text \<open>The replies that involve only the database, or nothing.\<close>

lemma read_views_backend:
  "handle_list_units (with_backend dp notify names h) r w = handle_list_units h r w"
  "handle_unit_detail (with_backend dp notify names h) r w = handle_unit_detail h r w"
  "handle_unit_history (with_backend dp notify names h) r w = handle_unit_history h r w"
  "handle_list_rbac (with_backend dp notify names h) r = handle_list_rbac h r"
  "handle_image_event (with_backend dp notify names h) r = handle_image_event h r"
  "dp_managed dp = dp_managed (ha_deps h) \<Longrightarrow> handle_config (with_backend dp notify names h) r = handle_config h r"
  unfolding handle_list_units_def handle_unit_detail_def handle_unit_history_def handle_list_rbac_def
      handle_image_event_def handle_config_def with_backend_simps
  by (simp_all only:)

lemma read_views_db:
  "handle_list_units h r w = (a, w1) \<Longrightarrow> rw_db w1 = rw_db w \<and> rw_ext w1 = rw_ext w"
  "handle_unit_detail h r w = (b, w1) \<Longrightarrow> rw_db w1 = rw_db w \<and> rw_ext w1 = rw_ext w"
  "handle_unit_history h r w = (c, w1) \<Longrightarrow> rw_db w1 = rw_db w \<and> rw_ext w1 = rw_ext w"
proof -
  have reads: "run_db (list_applications_stmt) w = (x, v) \<Longrightarrow> rw_db v = rw_db w \<and> rw_ext v = rw_ext w"
    "run_db (get_application_stmt app project) w = (y, v) \<Longrightarrow> rw_db v = rw_db w \<and> rw_ext v = rw_ext w"
    "run_db (sync_history_stmt app project limit) w = (z, v) \<Longrightarrow> rw_db v = rw_db w \<and> rw_ext v = rw_ext w"
    for x y z v app project limit
    by (auto dest: run_db_read)
  show "handle_list_units h r w = (a, w1) \<Longrightarrow> rw_db w1 = rw_db w \<and> rw_ext w1 = rw_ext w"
    by (auto simp: handle_list_units_def Let_def split: sum.splits option.splits prod.splits dest: reads(1))
  show "handle_unit_detail h r w = (b, w1) \<Longrightarrow> rw_db w1 = rw_db w \<and> rw_ext w1 = rw_ext w"
    by (auto simp: handle_unit_detail_def Let_def split: sum.splits option.splits prod.splits dest: reads(2))
  show "handle_unit_history h r w = (c, w1) \<Longrightarrow> rw_db w1 = rw_db w \<and> rw_ext w1 = rw_ext w"
    by (auto simp: handle_unit_history_def Let_def split: sum.splits option.splits prod.splits if_splits dest: reads(3))
qed

lemma ungranted_unit_routes:
  assumes "\<And>u. known h u \<Longrightarrow> \<not> may_sync h r u"
  shows "\<exists>reply. \<forall>dp notify names. handle_sync (with_backend dp notify names h) r w = (reply, w)"
    and "\<exists>reply. \<forall>dp notify names. handle_dry_run (with_backend dp notify names h) r w = (reply, w)"
proof -
  have no: "ha_auth h r = Inr email \<Longrightarrow> ha_find h app project = Some u \<Longrightarrow> \<not> allowed h email u" for email app project u
    using assms [of u] by (auto simp: known_def may_sync_def)
  then show "\<exists>reply. \<forall>dp notify names. handle_sync (with_backend dp notify names h) r w = (reply, w)"
    and "\<exists>reply. \<forall>dp notify names. handle_dry_run (with_backend dp notify names h) r w = (reply, w)"
    by (cases "ha_auth h r"; cases "ha_find h (get_value (rq_path r) ''app'') (get_value (rq_path r) ''project'')";
        simp add: handle_sync_def handle_dry_run_def verify_def Let_def)+
qed

lemma ungranted_none:
  assumes "\<And>u. known h u \<Longrightarrow> \<not> may_sync h r u" and "ha_auth h r = Inr email" and "ha_list h = Some us" and "u \<in> set us"
  shows "\<not> can_sync_folders (store_get (ha_rbac h)) (folder_membership (ha_rbac h)) email u"
  using assms(1) [of u] assms(2-) by (auto simp: known_def may_sync_def allowed_def)

lemma ungranted_orphans:
  assumes none: "\<And>u. known h u \<Longrightarrow> \<not> may_sync h r u" and scopes: "permutes_scopes h"
  shows "\<exists>reply. \<forall>dp notify names. handle_orphans (with_backend dp notify names h) r w = (reply, w)"
proof (cases "\<exists>email us. ha_auth h r = Inr email \<and> ha_list h = Some us")
  case False
  then show ?thesis
    by (cases "ha_auth h r"; cases "ha_list h"; cases "\<forall>email. ha_auth h r = Inr email \<longrightarrow> has_any_grant (store_get (ha_rbac h)) email";
        simp add: handle_orphans_def verify_def Let_def)
next
  case True
  then obtain email us where eu: "ha_auth h r = Inr email" "ha_list h = Some us" by blast
  then have "filter (\<lambda>u. can_sync_folders (store_get (ha_rbac h)) (folder_membership (ha_rbac h)) email u) us = []"
    using ungranted_none [OF none eu] by (simp add: filter_empty_conv)
  then show ?thesis
    by (cases "has_any_grant (store_get (ha_rbac h)) email")
      (simp_all add: handle_orphans_def verify_def Let_def eu detect_orphans_none [of "ha_scope_order h", OF permutes_scopes_Nil [OF scopes]])
qed

lemma ungranted_batch:
  assumes none: "\<And>u. known h u \<Longrightarrow> \<not> may_sync h r u"
  shows "\<exists>reply w'. rw_db w' = rw_db w \<and> rw_ext w' = rw_ext w \<and>
    (\<forall>dp notify names. handle_sync_batch (with_backend dp notify names h) r w = (reply, w'))"
proof (cases "\<exists>email us. ha_auth h r = Inr email \<and> ha_list h = Some us")
  case False
  then show ?thesis
    by (cases "ha_auth h r") (auto simp: handle_sync_batch_def verify_def split: option.split intro!: exI [of _ w])
next
  case True
  then obtain email us where eu: "ha_auth h r = Inr email" "ha_list h = Some us" by blast
  obtain cs w1 where cs: "batch_candidates h email r us w = (cs, w1)" by (metis surj_pair)
  note w1 = batch_candidates_reads [OF this]
  then have "list_all (\<lambda>u. \<not> can_sync_folders (store_get (ha_rbac h)) (folder_membership (ha_rbac h)) email u) cs"
    using ungranted_none [OF none eu] by (auto simp: list_all_iff)
  note all = batch_all_forbidden [OF this]
  have same: "batch_candidates (with_backend dp notify names h) email r us w = (cs, w1)" for dp notify names
    using cs by (simp add: batch_candidates_def Let_def)
  have "handle_sync_batch (with_backend dp notify names h) r w =
      (HttpJson (if list_ex br_deploy_failed (map (\<lambda>u. (empty_batch_result u)\<lparr>br_skipped := ''forbidden''\<rparr>) cs) then 422 else 200)
        (map (\<lambda>u. (empty_batch_result u)\<lparr>br_skipped := ''forbidden''\<rparr>) cs), w1)" for dp notify names
    by (simp add: handle_sync_batch_def verify_def eu same all)
  with w1 show ?thesis by blast
qed

text \<open>C23: a caller who may sync none of the units the server knows, authenticated or not, reaches nothing
  whatever route is requested: the reply is the same whatever the manifests, Cloud Run, the notifier and the
  live listings would do, no such call is made, and the tables are left as they are.\<close>

theorem ungranted_reach_nothing:
  assumes "\<forall>u. known h u \<longrightarrow> \<not> may_sync h r u" and "permutes_scopes h"
  shows "\<exists>reply w'. rw_db w' = rw_db w \<and> rw_ext w' = rw_ext w \<and>
     (\<forall>dp notify names. dp_managed dp = dp_managed (ha_deps h) \<longrightarrow>
        serve (with_backend dp notify names h) route r w = (reply, w'))"
proof (cases route)
  case ListUnits
  obtain a v where "handle_list_units h r w = (a, v)" by (metis surj_pair)
  then show ?thesis using ListUnits by (simp add: read_views_backend read_views_db(1)) (metis read_views_db(1))
next
  case UnitDetail
  obtain a v where "handle_unit_detail h r w = (a, v)" by (metis surj_pair)
  then show ?thesis using UnitDetail by (simp add: read_views_backend read_views_db(2)) (metis read_views_db(2))
next
  case UnitHistory
  obtain a v where "handle_unit_history h r w = (a, v)" by (metis surj_pair)
  then show ?thesis using UnitHistory by (simp add: read_views_backend read_views_db(3)) (metis read_views_db(3))
next
  case SyncBatch
  obtain reply w' where "rw_db w' = rw_db w" "rw_ext w' = rw_ext w"
    "handle_sync_batch (with_backend dp notify names h) r w = (reply, w')" for dp notify names
    using ungranted_batch [of h r w] assms by blast
  then show ?thesis using SyncBatch by auto
next
  case DryRun
  obtain reply where "handle_dry_run (with_backend dp notify names h) r w = (reply, w)" for dp notify names
    using ungranted_unit_routes(2) [of h r w] assms(1) by blast
  then show ?thesis using DryRun by auto
next
  case SyncUnit
  obtain reply where "handle_sync (with_backend dp notify names h) r w = (reply, w)" for dp notify names
    using ungranted_unit_routes(1) [of h r w] assms(1) by blast
  then show ?thesis using SyncUnit by auto
next
  case ListOrphans
  obtain reply where "handle_orphans (with_backend dp notify names h) r w = (reply, w)" for dp notify names
    using ungranted_orphans [of h r w] assms by blast
  then show ?thesis using ListOrphans by auto
qed (auto simp: read_views_backend)

section \<open>Callers with grants\<close>

lemma sync_one_unit_state:
  assumes "keeps_database (ha_notify h)" and "sync_one_for_batch h email cfg fm u w = (b, w')"
    and "k \<noteq> uid u \<or> \<not> can_sync_folders cfg fm email u"
  shows "unit_state w' k = unit_state w k"
proof (cases "can_sync_folders cfg fm email u")
  case True
  obtain r w1 where run: "manual_sync (ha_deps h) (ha_notify h) u email w = (r, w1)" by (metis surj_pair)
  have "w' = w1" using assms(2) True run by (auto simp: sync_one_for_batch_def Let_def split: prod.splits)
  with manual_sync_unit_state [OF assms(1) run] assms(3) True show ?thesis by simp
qed (use assms(2) in \<open>simp add: sync_one_for_batch_def\<close>)

lemma sync_batch_unit_state:
  assumes "keeps_database (ha_notify h)" and "sync_batch_units h email cfg fm us w = (bs, w')"
    and "\<forall>u \<in> set us. k \<noteq> uid u \<or> \<not> can_sync_folders cfg fm email u"
  shows "unit_state w' k = unit_state w k"
  using assms(2,3)
proof (induction us arbitrary: w bs)
  case (Cons u us)
  obtain b w1 where one: "sync_one_for_batch h email cfg fm u w = (b, w1)" by (metis surj_pair)
  obtain bs1 w2 where rest: "sync_batch_units h email cfg fm us w1 = (bs1, w2)" by (metis surj_pair)
  have "w' = w2" using Cons.prems(1) one rest by simp
  then show ?case
    using sync_one_unit_state [OF assms(1) one] Cons.IH [OF rest [folded \<open>w' = w2\<close>]] Cons.prems(2) by simp
qed simp

lemma dry_run_unit_state: "dry_run dp u w = (res, w') \<Longrightarrow> unit_state w' k = unit_state w k"
proof (cases rule: reconcile_from_dry_run [of dp u w, case_names quiet live])
  case (live res' lv desired fetch rt managed x)
  then show "dry_run dp u w = (res, w') \<Longrightarrow> unit_state w' k = unit_state w k"
    using live(1) [of "dp_deploy_service dp" "dp_deploy_job dp" "dry_run_options (rw_clock w)"]
    by (auto simp: dry_run_def dry_run_options_def deploy_allowed_def observe_blocks_def with_own_deploys)
next
  case (quiet res' x)
  then show "dry_run dp u w = (res, w') \<Longrightarrow> unit_state w' k = unit_state w k"
    unfolding dry_run_def by (metis prod.inject unit_state_ext with_own_deploys)
qed

lemma handle_sync_confined:
  assumes "handle_sync h r w = (a, v)" and "keeps_database (ha_notify h)"
    and "\<forall>u. known h u \<longrightarrow> uid u = k \<longrightarrow> \<not> may_sync h r u"
  shows "unit_state v k = unit_state w k"
proof -
  have "k \<noteq> uid u" if "ha_auth h r = Inr email" "known h u" "allowed h email u" for email u
    using assms(3) that by (auto simp: may_sync_def)
  with assms(1) show ?thesis
    by (auto simp: handle_sync_def verify_cases Let_def known_def
        split: sum.splits option.splits prod.splits if_splits dest!: manual_sync_unit_state [OF assms(2), of _ _ _ _ _ _ k])
qed

lemma handle_sync_batch_confined:
  assumes run: "handle_sync_batch h r w = (a, v)" and "keeps_database (ha_notify h)"
    and "\<forall>u. known h u \<longrightarrow> uid u = k \<longrightarrow> \<not> may_sync h r u"
  shows "unit_state v k = unit_state w k"
proof (cases "\<exists>email us. ha_auth h r = Inr email \<and> ha_list h = Some us")
  case True
  then obtain email us where eu: "ha_auth h r = Inr email" "ha_list h = Some us" by blast
  obtain cs w1 where cs: "batch_candidates h email r us w = (cs, w1)" by (metis surj_pair)
  obtain bs w2 where bs: "sync_batch_units h email (store_get (ha_rbac h)) (folder_membership (ha_rbac h)) cs w1 = (bs, w2)"
    by (metis surj_pair)
  have "k \<noteq> uid u \<or> \<not> allowed h email u" if "u \<in> set cs" for u
    using assms(3) that batch_candidates_reads [OF cs] eu by (auto simp: known_def may_sync_def)
  then have "unit_state w2 k = unit_state w1 k"
    using sync_batch_unit_state [OF assms(2) bs] by (simp add: allowed_def)
  then show ?thesis
    using run batch_candidates_reads [OF cs] by (simp add: handle_sync_batch_def verify_def eu cs bs unit_state_def)
qed (use run in \<open>auto simp: handle_sync_batch_def verify_def split: sum.splits option.splits\<close>)

text \<open>C24: no request changes the row or the lock of a unit its caller may not sync: whatever route is asked
  for, whatever else the caller holds grants on, and whatever the backend does, the state of such a unit is
  what it was.\<close>

theorem serve_confined:
  assumes "serve h route r w = (reply, w')" and "keeps_database (ha_notify h)"
    and "\<forall>u. known h u \<longrightarrow> uid u = k \<longrightarrow> \<not> may_sync h r u"
  shows "unit_state w' k = unit_state w k"
proof -
  have eq: "unit_state v k = unit_state w k" if "rw_db v = rw_db w" for v
    using that by (simp add: unit_state_def)
  show ?thesis
  proof (cases route)
    case SyncUnit
    obtain a v where run: "handle_sync h r w = (a, v)" by (metis surj_pair)
    have "unit_state v k = unit_state w k" by (rule handle_sync_confined [OF run assms(2,3)])
    then show ?thesis using assms(1) SyncUnit run by simp
  next
    case SyncBatch
    obtain a v where run: "handle_sync_batch h r w = (a, v)" by (metis surj_pair)
    have "unit_state v k = unit_state w k" by (rule handle_sync_batch_confined [OF run assms(2,3)])
    then show ?thesis using assms(1) SyncBatch run by simp
  next
    case DryRun
    obtain a v where run: "handle_dry_run h r w = (a, v)" by (metis surj_pair)
    have "unit_state v k = unit_state w k"
      using run by (auto simp: handle_dry_run_def verify_cases Let_def
          split: sum.splits option.splits prod.splits if_splits dest!: dry_run_unit_state [of _ _ _ _ _ k])
    then show ?thesis using assms(1) DryRun run by simp
  next
    case ListOrphans
    obtain a v where run: "handle_orphans h r w = (a, v)" by (metis surj_pair)
    then have "v = w" by (auto simp: handle_orphans_def Let_def split: sum.splits option.splits prod.splits if_splits)
    then show ?thesis using assms(1) ListOrphans run by simp
  next
    case ListUnits
    obtain a v where run: "handle_list_units h r w = (a, v)" by (metis surj_pair)
    then show ?thesis using assms(1) ListUnits read_views_db(1) [OF run] eq [of v] by simp
  next
    case UnitDetail
    obtain a v where run: "handle_unit_detail h r w = (a, v)" by (metis surj_pair)
    then show ?thesis using assms(1) UnitDetail read_views_db(2) [OF run] eq [of v] by simp
  next
    case UnitHistory
    obtain a v where run: "handle_unit_history h r w = (a, v)" by (metis surj_pair)
    then show ?thesis using assms(1) UnitHistory read_views_db(3) [OF run] eq [of v] by simp
  qed (use assms(1) in simp_all)
qed

section \<open>What replies mean\<close>

text \<open>The database part of a manual sync after the reconciliation.\<close>

lemma manual_sync_tail:
  assumes nk: "keeps_database notify" and run: "manual_sync dp notify u actor w = ((res, err), w')"
    and rec: "reconcile dp u (manual_options actor (rw_clock w)) w = (res1, w1)"
  shows "db_events (rw_db w') = db_events (rw_db w1) \<and> res_deploy_failed res = res_deploy_failed res1 \<and> res_err res = res_err res1"
proof -
  obtain err2 res2 w2 where up: "upsert res1 w1 = ((err2, res2), w2)" by (metis surj_pair)
  obtain a v where st: "run_db (upsert_stmt res1) w1 = (a, v)" by (metis surj_pair)
  have "db_events (rw_db v) = db_events (rw_db w1)"
    by (rule run_db_keeps [OF _ st]) (auto simp: upsert_stmt_def Let_def)
  moreover have "w2 = v \<and> res_deploy_failed res2 = res_deploy_failed res1 \<and> res_err res2 = res_err res1"
    using up st by (auto simp: upsert_def split: sum.splits option.splits)
  moreover have "rw_db (notify r x) = rw_db x" for r x
    using nk unfolding keeps_database_def by (metis rec_world.select_convs(1) rec_world.surjective rec_world.update_convs(4))
  ultimately show ?thesis
    using run by (auto simp: manual_sync_def rec up split: if_splits)
qed

lemma reconcile_not_deployed:
  assumes "reconcile dp u opts w = (res, w')" and "reconcile dp u (as_dry_run opts) w = (seen, w1)"
    and "\<not> deploy_allowed opts seen"
  shows "rw_db w' = rw_db w \<and> \<not> res_deploy_failed res"
proof -
  have "undeployed seen"
  proof (cases rule: reconcile_from_dry_run [of dp u w, case_names quiet live])
    case (quiet res' x)
    then show ?thesis using assms(2) by (metis prod.inject with_own_deploys)
  next
    case (live res' lv desired fetch rt managed x)
    then show ?thesis
      using live(1) [of "dp_deploy_service dp" "dp_deploy_job dp" "as_dry_run opts"] assms(2)
      by (simp add: with_own_deploys deploy_allowed_def observe_blocks_def as_dry_run_def)
  qed
  moreover have "res \<in> {seen, set_err ObserveMode seen}" "rw_db w' = rw_db w"
    using reconcile_undeployed [OF assms(2,3), of "dp_deploy_service dp" "dp_deploy_job dp"] assms(1)
    by (auto simp: with_own_deploys)
  ultimately show ?thesis by (auto simp: undeployed_def)
qed


end
