(* ===== verification/Api_Views.thy ===== *)
theory Api_Views
  imports Api_Access
begin

text \<open>
  What the replies of \<open>Api\<close> contain: the history of a unit, the batch over a fleet and the orphan scan, and
  an instance of the handler.
\<close>

section \<open>History\<close>

lemma history_limit_bounds: "history_limit q = Some n \<Longrightarrow> 1 \<le> n \<and> n \<le> 500"
  by (auto simp: history_limit_def default_history_limit_def max_history_limit_def split: if_splits option.splits)

lemma sorted_take_newest:
  fixes f :: "'a \<Rightarrow> int"
  assumes "sorted (map f xs)"
  shows "sorted_wrt (\<lambda>a b. f a \<le> f b) (take n xs)"
    and "x \<in> set xs \<Longrightarrow> x \<notin> set (take n xs) \<Longrightarrow> length (take n xs) = n \<and> list_all (\<lambda>y. f y \<le> f x) (take n xs)"
proof -
  have all: "sorted_wrt (\<lambda>a b. f a \<le> f b) (take n xs @ drop n xs)" using assms by (simp add: sorted_map)
  then show "sorted_wrt (\<lambda>a b. f a \<le> f b) (take n xs)" by (simp only: sorted_wrt_append)
  assume "x \<in> set xs" "x \<notin> set (take n xs)"
  then have "x \<in> set (drop n xs)" by (metis append_take_drop_id set_append UnE)
  moreover from this have "n < length xs" by (cases "n < length xs") auto
  ultimately show "length (take n xs) = n \<and> list_all (\<lambda>y. f y \<le> f x) (take n xs)"
    using all unfolding sorted_wrt_append by (auto simp: list_all_iff)
qed

text \<open>The audit rows of a unit, as the view shows them.\<close>

definition unit_events :: "rec_db \<Rightarrow> unit_id \<Rightarrow> sync_event set" where
  "unit_events db k = {sync_event_of (n, row) |n row. (n, row) \<in> set (db_events db) \<and> er_unit row = k}"

text \<open>A history reply is bounded and is the newest part of the unit's audit trail: for the requested
  limit, between 1 and 500 whatever the query says, it lists at most so many events, all of the requested
  unit, newest first, and an event it leaves out is no newer than any it lists and is left out only
  because the limit is reached.\<close>

theorem history_bounded:
  assumes "handle_unit_history h r w = (HttpJson status events, w')"
  shows "\<exists>limit. history_limit (get_value (rq_query r) ''limit'') = Some limit \<and> 1 \<le> limit \<and> limit \<le> 500 \<and>
     int (length events) \<le> limit \<and>
     set events \<subseteq> unit_events (rw_db w) (get_value (rq_path r) ''app'', get_value (rq_path r) ''project'') \<and>
     sorted_wrt (\<lambda>a b. se_started b \<le> se_started a) events \<and>
     (\<forall>e \<in> unit_events (rw_db w) (get_value (rq_path r) ''app'', get_value (rq_path r) ''project'') - set events.
        int (length events) = limit \<and> list_all (\<lambda>e'. se_started e \<le> se_started e') events)"
proof -
  let ?app = "get_value (rq_path r) ''app''" and ?project = "get_value (rq_path r) ''project''"
  obtain limit where limit: "history_limit (get_value (rq_query r) ''limit'') = Some limit"
    and run: "run_db (sync_history_stmt ?app ?project (nat limit)) w = (Inr events, w')"
    using assms by (auto simp: handle_unit_history_def Let_def verify_cases split: sum.splits option.splits prod.splits if_splits)
  let ?all = "map sync_event_of (filter (\<lambda>(n, row). er_unit row = (?app, ?project)) (db_events (rw_db w)))"
  let ?sorted = "sort_key (\<lambda>e. - se_started e) ?all"
  from run have ev: "events = take (nat limit) ?sorted"
    by (cases rule: run_db_cases) (auto simp: sync_history_stmt_def)
  have all: "set ?sorted = unit_events (rw_db w) (?app, ?project)" by (auto simp: unit_events_def)
  note bounds = history_limit_bounds [OF limit]
  have srt: "sorted (map (\<lambda>e. - se_started e) ?sorted)" by simp
  note newest = sorted_take_newest [OF srt, where n = "nat limit", folded ev]
  have "length events \<le> nat limit" unfolding ev by simp
  then have "int (length events) \<le> limit" using bounds by (simp add: le_nat_iff)
  moreover have "set events \<subseteq> unit_events (rw_db w) (?app, ?project)" using ev all set_take_subset by metis
  moreover have "sorted_wrt (\<lambda>a b. se_started b \<le> se_started a) events" using newest(1) by simp
  moreover have "int (length events) = limit \<and> list_all (\<lambda>e'. se_started e \<le> se_started e') events"
    if "e \<in> unit_events (rw_db w) (?app, ?project) - set events" for e
    using newest(2) [where x = e] that all bounds by simp
  ultimately show ?thesis using limit bounds by blast
qed

section \<open>Batches\<close>

lemma sync_one_for_batch_shape:
  assumes "sync_one_for_batch h email cfg fm u w = (b, w')"
  shows "(br_app b, br_project b) = uid u \<and> (br_skipped b = ''forbidden'' \<longleftrightarrow> \<not> can_sync_folders cfg fm email u)"
  using assms by (auto simp: sync_one_for_batch_def empty_batch_result_def uid_def Let_def split: prod.splits if_splits)

lemma sync_batch_units_shape:
  assumes "sync_batch_units h email cfg fm us w = (bs, w')"
  shows "map (\<lambda>b. (br_app b, br_project b)) bs = map uid us \<and>
     map (\<lambda>b. br_skipped b = ''forbidden'') bs = map (\<lambda>u. \<not> can_sync_folders cfg fm email u) us"
  using assms
proof (induction us arbitrary: w bs)
  case (Cons u us)
  obtain b w1 where one: "sync_one_for_batch h email cfg fm u w = (b, w1)" by (metis surj_pair)
  obtain bs1 w2 where rest: "sync_batch_units h email cfg fm us w1 = (bs1, w2)" by (metis surj_pair)
  have "bs = b # bs1" "w' = w2" using Cons.prems one rest by simp_all
  then show ?case using Cons.IH [of w1 bs1] rest sync_one_for_batch_shape [OF one] by simp
qed simp

lemma rows_by_key_in:
  assumes "lookup (rows_by_key rows) k = Some row"
  shows "row \<in> set rows \<and> app_key (aw_app row) (aw_project row) = k"
proof -
  have "lookup (foldl (\<lambda>m row. put (app_key (aw_app row) (aw_project row)) row m) m rows) k = Some row \<Longrightarrow>
      (row \<in> set rows \<and> app_key (aw_app row) (aw_project row) = k) \<or> lookup m k = Some row" for m
  proof (induction rows arbitrary: m)
    case (Cons a rows)
    then show ?case using Cons.IH [of "put (app_key (aw_app a) (aw_project a)) a m"] by (auto split: if_splits)
  qed simp
  from this [of "[]"] assms show ?thesis by (simp add: rows_by_key_def)
qed

text \<open>No project name contains a slash, neither in the tables nor in the configuration.\<close>

definition slash_free :: "rec_db \<Rightarrow> sync_unit list \<Rightarrow> bool" where
  "slash_free db us \<longleftrightarrow> list_all (\<lambda>(k, row). CHR ''/'' \<notin> set (snd k)) (db_apps db) \<and>
     list_all (\<lambda>u. CHR ''/'' \<notin> set (su_project u)) us"

definition known_synced :: "rec_db \<Rightarrow> sync_unit \<Rightarrow> bool" where
  "known_synced db u \<longleftrightarrow> (\<exists>row. (uid u, row) \<in> set (db_apps db) \<and> ar_status row = ''Synced'')"

lemma filter_out_of_sync_keeps:
  assumes "filter_out_of_sync us w = (cs, w')" and "slash_free (rw_db w) us"
  shows "subseq cs us \<and> (\<forall>u \<in> set us - set cs. known_synced (rw_db w) u)"
proof -
  obtain res w1 where run: "run_db list_applications_stmt w = (res, w1)" by (metis surj_pair)
  show ?thesis
  proof (cases res)
    case (Inl e)
    with assms(1) run show ?thesis by (simp add: filter_out_of_sync_def)
  next
    case (Inr rows)
    with run have rows: "rows = map application_row_of (db_apps (rw_db w))"
      by (cases rule: run_db_cases) (auto simp: list_applications_stmt_def)
    have cs: "cs = filter (\<lambda>u. case lookup (rows_by_key rows) (app_key (su_app u) (su_project u)) of
        None \<Rightarrow> True | Some row \<Rightarrow> aw_status row \<noteq> ''Synced'') us"
      using assms(1) run Inr by (simp add: filter_out_of_sync_def Let_def)
    have "known_synced (rw_db w) u"
      if u: "u \<in> set us" and row: "lookup (rows_by_key rows) (app_key (su_app u) (su_project u)) = Some row"
        and st: "aw_status row = ''Synced''" for u row
    proof -
      obtain k r where kr: "(k, r) \<in> set (db_apps (rw_db w))" "row = application_row_of (k, r)"
        using rows_by_key_in [OF row] rows by auto
      have "app_key (fst k) (snd k) = app_key (su_app u) (su_project u)"
        using rows_by_key_in [OF row] kr(2) by (simp add: application_row_of_def)
      then have "fst k = su_app u \<and> snd k = su_project u"
        using assms(2) kr(1) u unfolding app_key_def slash_free_def list_all_iff
        by (intro slash_key_inj [of _ "CHR ''/''"]) auto
      then show ?thesis using kr st by (cases k) (auto simp: known_synced_def uid_def application_row_of_def)
    qed
    then show ?thesis unfolding cs by (auto split: option.splits)
  qed
qed

text \<open>C30: a batch covers the fleet. A batch reply has one result per candidate unit, in order, marked
  forbidden exactly where the caller holds no grant, and is answered 422 exactly when some deploy failed; a
  configured unit is no candidate only because another project was asked for, or because only units out of
  sync were asked for and its row says it is in sync.\<close>

theorem batch_covers:
  assumes "handle_sync_batch h r w = (HttpJson status results, w')"
    and "ha_auth h r = Inr email" and "ha_list h = Some us" and "slash_free (rw_db w) us"
  shows "\<exists>cs. subseq cs us \<and> map (\<lambda>b. (br_app b, br_project b)) results = map uid cs \<and>
     map (\<lambda>b. br_skipped b = ''forbidden'') results = map (\<lambda>u. \<not> allowed h email u) cs \<and>
     status = (if list_ex br_deploy_failed results then 422 else 200) \<and>
     (\<forall>u \<in> set us - set cs. get_value (rq_query r) ''project'' \<notin> {[], su_project u} \<or>
        get_value (rq_query r) ''filter'' = ''outOfSync'' \<and> known_synced (rw_db w) u)"
proof -
  let ?project = "get_value (rq_query r) ''project''"
  let ?c = "filter (\<lambda>u. \<not> (?project \<noteq> [] \<and> su_project u \<noteq> ?project)) us"
  obtain cs w1 where cs: "batch_candidates h email r us w = (cs, w1)" by (metis surj_pair)
  obtain bs w2 where bs: "sync_batch_units h email (store_get (ha_rbac h)) (folder_membership (ha_rbac h)) cs w1 = (bs, w2)"
    by (metis surj_pair)
  have reply: "results = bs" "status = (if list_ex br_deploy_failed bs then 422 else 200)"
    using assms(1) by (auto simp: handle_sync_batch_def verify_def assms(2,3) cs bs)
  have sf: "slash_free (rw_db w) ?c" using assms(4) by (auto simp: slash_free_def list_all_iff)
  have "subseq cs ?c \<and> (\<forall>u \<in> set ?c - set cs. get_value (rq_query r) ''filter'' = ''outOfSync'' \<and> known_synced (rw_db w) u)"
    using cs filter_out_of_sync_keeps [OF _ sf] by (auto simp: batch_candidates_def Let_def split: if_splits)
  moreover have "subseq ?c us" by simp
  ultimately show ?thesis
    using sync_batch_units_shape [OF bs] reply
    by (intro exI [of _ cs]) (auto simp: allowed_def intro: subseq_order.trans)
qed

section \<open>Orphans\<close>


section \<open>An instance\<close>

text \<open>Two units in one project and region; the caller may sync the one called \<open>web\<close>.\<close>

definition api_unit :: sync_unit where
  "api_unit = orphan_unit ''api'' ''p'' ''eu''"

definition web_rules :: rbac_config where
  "web_rules = [\<lparr>rule_subject = ''ann@example.com'', rule_role = ''syncer'', rule_scope = [''app:web@p'']\<rparr>]"

definition api_handler :: "rbac_config \<Rightarrow> string handler" where
  "api_handler rules = \<lparr>ha_auth = (\<lambda>r. Inr ''ann@example.com''), ha_rbac = new_store (Some rules),
     ha_find = static_find [(''web/p'', store_unit), (''api/p'', api_unit)], ha_list = Some [store_unit, api_unit],
     ha_deps = example_deps, ha_notify = (\<lambda>_ w. w), ha_notifier = None,
     ha_list_names = (\<lambda>_ p r. if p = ''p'' then Inr [''api'', ''old'', ''web''] else Inl NotProvisioned),
     ha_scope_order = rev, ha_runtime = \<lparr>ri_config_repo = [], ri_config_branch = [], ri_config_path = [], ri_rbac_path = [],
       ri_interval_seconds = 30\<rparr>, ha_image_events = None, ha_is_leader = None, ha_nudge = False\<rparr>"

definition api_request :: "string \<Rightarrow> request" where
  "api_request app = \<lparr>rq_headers = [], rq_path = [(''project'', ''p''), (''app'', app)], rq_query = [(''limit'', ''900'')]\<rparr>"

lemma same_world: "\<exists>x. w = w\<lparr>rw_ext := x\<rparr>"
  by (rule exI [of _ "rw_ext w"]) simp

lemma api_handler_simps [simp]:
  "ha_auth (api_handler rules) r = Inr ''ann@example.com''" "ha_list (api_handler rules) = Some [store_unit, api_unit]"
  "ha_deps (api_handler rules) = example_deps" "permutes_scopes (api_handler rules)"
  "keeps_database (ha_notify (api_handler rules))" "store_get (ha_rbac (api_handler rules)) = Some rules"
  "folder_membership (ha_rbac (api_handler rules)) = []" "ha_scope_order (api_handler rules) = rev"
  "ha_list_names (api_handler rules) x p region = (if p = ''p'' then Inr [''api'', ''old'', ''web''] else Inl NotProvisioned)"
  "ha_find (api_handler rules) = static_find [(''web/p'', store_unit), (''api/p'', api_unit)]"
  by (auto simp: api_handler_def permutes_scopes_def keeps_database_def store_get_def new_store_def folder_membership_def
      intro: same_world)

lemma api_units [simp]:
  "su_app api_unit = ''api''" "su_project api_unit = ''p''" "unit_scope api_unit = (''p'', ''eu'')" "uid api_unit = (''api'', ''p'')"
  "su_app store_unit = ''web''" "su_project store_unit = ''p''" "unit_scope store_unit = (''p'', ''eu'')" "uid store_unit = (''web'', ''p'')"
  by (simp_all add: api_unit_def store_unit_def uid_def unit_scope_def orphan_unit_def)

lemma web_rules_grant [simp]:
  "can_sync_folders (Some web_rules) m ''ann@example.com'' store_unit"
  "\<not> can_sync_folders (Some web_rules) m ''ann@example.com'' api_unit"
  "\<not> can_sync_folders (Some []) m email u"
  by (simp_all add: can_sync_folders_def web_rules_def scope_matches_def cut_at_def)

lemma api_allowed [simp]:
  "allowed (api_handler web_rules) ''ann@example.com'' store_unit" "\<not> allowed (api_handler web_rules) ''ann@example.com'' api_unit"
  "\<not> allowed (api_handler []) email u"
  by (simp_all add: allowed_def)

lemma api_request_values [simp]:
  "get_value (rq_path (api_request app)) ''app'' = app" "get_value (rq_path (api_request app)) ''project'' = ''p''"
  "get_value (rq_query (api_request app)) ''limit'' = ''900''" "get_value (rq_query (api_request app)) ''project'' = []"
  "get_value (rq_query (api_request app)) ''filter'' = []"
  by (simp_all add: api_request_def get_value_def)

lemma api_find [simp]:
  "static_find [(''web/p'', store_unit), (''api/p'', api_unit)] ''web'' ''p'' = Some store_unit"
  "static_find [(''web/p'', store_unit), (''api/p'', api_unit)] ''api'' ''p'' = Some api_unit"
  by (simp_all add: static_find_def app_key_def)


text \<open>Without rules a sync request is refused whatever is behind the server.\<close>

theorem ungranted_reach_nothing_witness:
  "fst (serve (with_backend example_deps (\<lambda>_ w. w) (\<lambda>_ _ _. Inl NotProvisioned) (api_handler [])) SyncUnit (api_request ''web'') example_rec_world) =
     HttpError 403 ''forbidden: no role grants sync access to this app/project'' \<and>
   (\<exists>reply w'. rw_db w' = rw_db example_rec_world \<and>
     serve (with_backend example_deps (\<lambda>_ w. w) (\<lambda>_ _ _. Inl NotProvisioned) (api_handler [])) SyncBatch (api_request ''web'') example_rec_world = (reply, w'))"
proof -
  have no: "\<forall>u. known (api_handler []) u \<longrightarrow> \<not> may_sync (api_handler []) r u" for r by (simp add: may_sync_def)
  obtain reply w' where "rw_db w' = rw_db example_rec_world"
    "serve (with_backend example_deps (\<lambda>_ w. w) (\<lambda>_ _ _. Inl NotProvisioned) (api_handler [])) SyncBatch (api_request ''web'') example_rec_world = (reply, w')"
    using ungranted_reach_nothing [OF no, where route = SyncBatch and w = example_rec_world and r = "api_request ''web''"] by auto
  moreover have "fst (serve (with_backend example_deps (\<lambda>_ w. w) (\<lambda>_ _ _. Inl NotProvisioned) (api_handler [])) SyncUnit (api_request ''web'') example_rec_world) =
     HttpError 403 ''forbidden: no role grants sync access to this app/project''"
    by (simp add: handle_sync_def verify_def)
  ultimately show ?thesis by blast
qed

text \<open>A batch of the same caller leaves the row of the other unit alone.\<close>

theorem serve_confined_witness:
  "unit_state (snd (serve (api_handler web_rules) SyncBatch (api_request []) example_rec_world)) (''api'', ''p'') =
   unit_state example_rec_world (''api'', ''p'')"
proof -
  obtain reply w' where run: "serve (api_handler web_rules) SyncBatch (api_request []) example_rec_world = (reply, w')" by (metis surj_pair)
  have "\<forall>u. known (api_handler web_rules) u \<longrightarrow> uid u = (''api'', ''p'') \<longrightarrow> \<not> may_sync (api_handler web_rules) (api_request []) u"
    by (auto simp: known_def may_sync_def static_find_def split: if_splits)
  from serve_confined [OF run _ this] run show ?thesis by simp
qed

text \<open>The forced pass over the instance deploys, succeeds and reports no error.\<close>

lemma example_reconcile_succeeds:
  assumes "reconcile example_deps store_unit example_opts example_rec_world = (res, v)"
  shows "res_err res = None \<and> \<not> res_deploy_failed res"
proof -
  let ?gs = "\<lambda>_ _ _ d x. (Inr \<lparr>ls_state = \<lparr>st_digest = x, st_percent = Some 100, st_env = None, st_secrets = None\<rparr>,
        ls_has_revision = (d = [] \<or> d = x), ls_ready = True, ls_creating = False\<rparr>, x)"
  let ?ds = "\<lambda>_ _ _ d x. (None, st_digest d)"
  let ?lv = "\<lparr>st_digest = ''sha256:0'', st_percent = Some 100, st_env = None, st_secrets = None\<rparr>"
  let ?fetch = "service_fetch example_deps store_unit (im_digest (sd_image example_service)) (\<lambda>l. assess_service planned_state l True)"
  let ?managed = "[''image'', ''traffic'']"
  note plain = plain_reconcile [of ?gs "\<lambda>_ _ _ _ x. (Inl NotProvisioned, x)" ?ds "\<lambda>_ _ _ d x. (Some NotProvisioned, x)", folded example_deps_def]
  have planned: "res_status planned_result = []" "res_unit planned_result = store_unit" "\<not> res_observing planned_result"
    by (simp_all add: planned_result_def new_result_def)
  have out: "compute planned_state ?lv ?managed ''service'' = OutOfSync" by (rule planned_status) simp
  have digest: "im_digest (sd_image example_service) \<noteq> []" by (simp add: example_service_def)
  have fetch: "?fetch ''sha256:0'' = (Inr (?lv, ''Missing''), ''sha256:0'')"
    using example_fields(5) digest by (simp add: service_fetch_def example_deps_def plain_deps_def assess_service_def health_name_def)
  have opts: "so_force example_opts" "\<not> so_dry_run example_opts" by (simp_all add: example_opts_def manual_options_def)
  have ext: "rw_ext example_rec_world = ''sha256:0''" by (simp add: example_rec_world_def)
  have seen: "planned_result\<lparr>res_live_image := ''sha256:0'', res_health := ''Missing'', res_status := ''OutOfSync''\<rparr> = example_seen"
    by (simp add: example_seen_def)
  have same: "example_rec_world\<lparr>rw_ext := ''sha256:0''\<rparr> = example_rec_world" by (simp add: example_rec_world_def)
  have run: "deploy_sync_unit (\<lambda>_. ''error'') example_seen planned_state ?lv ''service'' (?ds ''p'' ''eu'' ''web'') ?fetch example_opts ?managed example_rec_world = (res, v)"
    using assms unfolding plain
    by (simp add: apply_live_state_def run_ext_eq ext fetch out planned opts seen same Let_def status_name_def status_invalid_def status_missing_def del: compute.simps)
  have "valid_row example_seen" "undeployed example_seen" "lock_free (uid (res_unit example_seen)) example_rec_world"
    using example_preconditions(3) planned(2)
    by (simp_all add: example_seen_def valid_row_def status_values_def health_values_def undeployed_def planned_result_def new_result_def)
  from deploy_sync_unit_records [OF run example_preconditions(1,2) this(1,2) example_preconditions(4) this(3)]
  have ok: "\<not> res_deploy_failed res" "confirmed example_seen planned_state ''service'' (?ds ''p'' ''eu'' ''web'') ?fetch ?managed ''sha256:0'' res"
    by (auto simp: field_managed_def ext)
  have "?fetch (st_digest planned_state) = (Inr (?lv\<lparr>st_digest := st_digest planned_state\<rparr>, ''Healthy''), st_digest planned_state)"
    by (simp add: service_fetch_def example_deps_def plain_deps_def assess_service_def health_name_def planned_state_def traffic_equal_def)
  then have "res_err res = res_err example_seen" using ok(2) by (auto simp: confirmed_def)
  then show ?thesis using ok(1) by (simp add: example_seen_def planned_result_def new_result_def)
qed


text \<open>A history of three events, newest first.\<close>

definition history_world :: "string rec_world" where
  "history_world =
     (let ev = (\<lambda>n t. (n, \<lparr>er_unit = (''web'', ''p''), er_trigger = ''auto'', er_actor = [], er_from_image = None, er_to_image = [],
         er_started = t, er_finished = None, er_result = ''in_progress'', er_error = None\<rparr>))
      in \<lparr>rw_db = empty_db\<lparr>db_events := [ev 1 10, ev 2 30, ev 3 20], db_next_event := 4\<rparr>, rw_clock = 40, rw_stmts = [], rw_ext = []\<rparr>)"

theorem history_bounded_witness:
  "\<exists>events. fst (handle_unit_history (api_handler web_rules) (api_request ''web'') history_world) = HttpJson 200 events \<and>
     map se_id events = [2, 3, 1] \<and> int (length events) \<le> 500"
proof -
  obtain events w' where run: "handle_unit_history (api_handler web_rules) (api_request ''web'') history_world = (HttpJson 200 events, w')"
    and ids: "map se_id events = [2, 3, 1]"
    by (simp add: handle_unit_history_def verify_def Let_def history_limit_def atoi_def is_digit_def digits_value_def
        max_history_limit_def run_db_def history_world_def sync_history_stmt_def sync_event_of_def exec_stmt_def less_eq_char_def empty_db_def)
  show ?thesis using history_bounded [OF run] run ids by auto
qed

theorem batch_covers_witness:
  "\<exists>status results w'. handle_sync_batch (api_handler web_rules) (api_request []) example_rec_world = (HttpJson status results, w') \<and>
     map br_app results = [''web'', ''api''] \<and> map (\<lambda>b. br_skipped b = ''forbidden'') results = [False, True]"
proof -
  let ?h = "api_handler web_rules"
  obtain bs w2 where bs: "sync_batch_units ?h ''ann@example.com'' (Some web_rules) [] [store_unit, api_unit] example_rec_world = (bs, w2)"
    by (metis surj_pair)
  have cs: "batch_candidates ?h ''ann@example.com'' (api_request []) [store_unit, api_unit] example_rec_world = ([store_unit, api_unit], example_rec_world)"
    by (simp add: batch_candidates_def)
  have run: "handle_sync_batch ?h (api_request []) example_rec_world = (HttpJson (if list_ex br_deploy_failed bs then 422 else 200) bs, w2)"
    by (simp add: handle_sync_batch_def verify_def cs bs del: sync_batch_units.simps)
  have "slash_free (rw_db example_rec_world) [store_unit, api_unit]"
    by (simp add: slash_free_def example_rec_world_def empty_db_def)
  from batch_covers [OF run _ _ this] obtain cs where cs: "subseq cs [store_unit, api_unit]" "map (\<lambda>b. (br_app b, br_project b)) bs = map uid cs"
    "map (\<lambda>b. br_skipped b = ''forbidden'') bs = map (\<lambda>u. \<not> allowed ?h ''ann@example.com'' u) cs"
    "\<forall>u \<in> set [store_unit, api_unit] - set cs. False"
    by auto
  have "su_app store_unit \<noteq> su_app api_unit" by simp
  then have "store_unit \<noteq> api_unit" by metis
  then have "card {store_unit, api_unit} \<le> length cs"
    using cs(4) card_length [of cs] card_mono [of "set cs" "{store_unit, api_unit}"] by force
  then have "cs = [store_unit, api_unit]"
    using \<open>store_unit \<noteq> api_unit\<close> list_emb_length [OF cs(1)] subseq_same_length [OF cs(1)] by simp
  moreover have "map br_app bs = map fst (map uid cs)" using arg_cong [OF cs(2), of "map fst"] by (simp add: comp_def)
  ultimately show ?thesis using run cs(3) by simp
qed

end
