(* ===== verification/Metrics.thy ===== *)
theory Metrics
  imports Api_Access Expiring_Cache
begin

text \<open>
  The metrics endpoint (\<open>internal/api/metrics.go\<close>): a snapshot of the tables, cached for fifteen seconds
  under one mutex. The cache has one entry and is an instance of the interface \<open>expiring_cache\<close>; a sequence
  of scrapes meets the tables as other writers left them, each in its own world. The callback
  turns a snapshot into observations; the instruments and their exposition are the metrics library's.
\<close>

section \<open>Model\<close>

record metrics_snapshot =
  ms_status :: "(string \<times> nat) list"
  ms_health :: "(string \<times> nat) list"
  ms_events :: "((string \<times> string) \<times> nat) list"

type_synonym metrics_cache = "(metrics_snapshot \<times> time) option"

definition metrics_cache_ttl :: int where "metrics_cache_ttl = 15 * second"

text \<open>\<open>counts[x]++\<close>.\<close>

definition tally :: "string list \<Rightarrow> (string \<times> nat) list" where
  "tally xs = foldl (\<lambda>m x. put x (1 + (case lookup m x of None \<Rightarrow> 0 | Some n \<Rightarrow> n)) m) [] xs"

datatype metrics_error = MetricsApplications string | MetricsEvents string

definition metrics_fetch :: "'w rec_world \<Rightarrow> (metrics_error + metrics_snapshot) \<times> 'w rec_world" where
  "metrics_fetch w =
     (case run_db list_applications_stmt w of
        (Inl e, w1) \<Rightarrow> (Inl (MetricsApplications e), w1)
      | (Inr rows, w1) \<Rightarrow>
         (case run_db sync_event_counts_stmt w1 of
            (Inl e, w2) \<Rightarrow> (Inl (MetricsEvents e), w2)
          | (Inr counts, w2) \<Rightarrow>
              (Inr \<lparr>ms_status = tally (map aw_status rows), ms_health = tally (map aw_health rows), ms_events = counts\<rparr>, w2)))"

definition metrics_get ::
  "metrics_cache \<Rightarrow> 'w rec_world \<Rightarrow> (metrics_error + metrics_snapshot) \<times> metrics_cache \<times> 'w rec_world" where
  "metrics_get c w =
     (case (case c of Some (snap, expires_at) \<Rightarrow> if rw_clock w < expires_at then Some snap else None | None \<Rightarrow> None) of
        Some snap \<Rightarrow> (Inr snap, c, w)
      | None \<Rightarrow>
         (case metrics_fetch w of
            (Inl e, w1) \<Rightarrow> (Inl e, c, w1)
          | (Inr snap, w1) \<Rightarrow> (Inr snap, Some (snap, rw_clock w1 + metrics_cache_ttl), w1)))"

text \<open>The callback of the instruments: name, attributes and value of each observation, or the failure of the scrape.\<close>

definition observations :: "metrics_snapshot \<Rightarrow> (string \<times> (string \<times> string) list \<times> nat) list" where
  "observations snap =
     map (\<lambda>(s, c). (''runcd_sync_status_total'', [(''status'', s)], c)) (ms_status snap) @
     map (\<lambda>(s, c). (''runcd_health_status_total'', [(''health'', s)], c)) (ms_health snap) @
     map (\<lambda>((trigger, outcome), c). (''runcd_sync_events_total'', [(''trigger'', trigger), (''result'', outcome)], c)) (ms_events snap)"

definition metrics_callback ::
  "metrics_cache \<Rightarrow> 'w rec_world \<Rightarrow>
     (metrics_error + (string \<times> (string \<times> string) list \<times> nat) list) \<times> metrics_cache \<times> 'w rec_world" where
  "metrics_callback c w = (case metrics_get c w of (r, c1, w1) \<Rightarrow> (map_sum id observations r, c1, w1))"

fun metrics_run :: "'w rec_world list \<Rightarrow> metrics_cache \<Rightarrow> (metrics_error + metrics_snapshot) list \<times> metrics_cache" where
  "metrics_run [] c = ([], c)"
| "metrics_run (w # ws) c =
     (let (r, c1, w1) = metrics_get c w; (rs, c2) = metrics_run ws c1 in (r # rs, c2))"

section \<open>The cache discipline\<close>

definition read_snapshot :: "metrics_cache \<Rightarrow> unit \<Rightarrow> time \<Rightarrow> metrics_snapshot option" where
  "read_snapshot c k t = (case c of Some (snap, expires_at) \<Rightarrow> if t < expires_at then Some snap else None | None \<Rightarrow> None)"

definition store_snapshot :: "metrics_cache \<Rightarrow> unit \<Rightarrow> metrics_snapshot \<Rightarrow> time \<Rightarrow> metrics_cache" where
  "store_snapshot c k snap t = Some (snap, t + metrics_cache_ttl)"

interpretation snapshot: expiring_cache None read_snapshot store_snapshot "within metrics_cache_ttl"
  by unfold_locales (auto simp: read_snapshot_def store_snapshot_def within_def)

definition scrape_call :: "'w rec_world \<Rightarrow> (unit, metrics_error, metrics_snapshot) call" where
  "scrape_call w = Call () (rw_clock w) (rw_clock w) (Lead (fst (metrics_fetch w))) (rw_clock (snd (metrics_fetch w)))"

lemma metrics_get_cached_get:
  "metrics_get c w = (r, c', w') \<Longrightarrow> cached_get read_snapshot store_snapshot (scrape_call w) c = (r, c')"
  by (auto simp: metrics_get_def cached_get_def scrape_call_def read_snapshot_def store_snapshot_def
      split: option.splits prod.splits sum.splits if_splits)

lemma metrics_run_run_calls:
  "metrics_run ws c = run_calls (cached_get read_snapshot store_snapshot) (map scrape_call ws) c"
proof (induction ws arbitrary: c)
  case (Cons w ws)
  obtain r c1 w1 where "metrics_get c w = (r, c1, w1)" by (metis prod_cases3)
  with metrics_get_cached_get [OF this] Cons.IH show ?case by (simp split: prod.split)
qed simp

lemma tally_count: "(case lookup (tally xs) x of None \<Rightarrow> 0 | Some n \<Rightarrow> n) = count_list xs x"
proof -
  have "(case lookup (foldl (\<lambda>m x. put x (1 + (case lookup m x of None \<Rightarrow> 0 | Some n \<Rightarrow> n)) m) m xs) x of None \<Rightarrow> 0 | Some n \<Rightarrow> n) =
      (case lookup m x of None \<Rightarrow> 0 | Some n \<Rightarrow> n) + count_list xs x" for m
    by (induction xs arbitrary: m) simp_all
  from this [of "[]"] show ?thesis by (simp add: tally_def)
qed

text \<open>The values of one gauge add up to the rows of the table.\<close>

lemma tally_total: "sum_list (map snd (tally xs)) = length xs"
proof -
  have put: "sum_list (map snd (put x (1 + (case lookup m x of None \<Rightarrow> 0 | Some n \<Rightarrow> n)) m)) = 1 + sum_list (map snd m)"
    for x and m :: "(string \<times> nat) list"
  proof (induction m)
    case (Cons p m)
    then show ?case by (cases p) auto
  qed simp
  have "sum_list (map snd (foldl (\<lambda>m x. put x (1 + (case lookup m x of None \<Rightarrow> 0 | Some n \<Rightarrow> n)) m) m xs)) =
      sum_list (map snd m) + length xs" for m :: "(string \<times> nat) list"
    by (induction xs arbitrary: m) (simp_all add: put [simplified])
  from this [of "[]"] show ?thesis by (simp add: tally_def)
qed

text \<open>What a fetch returns is what the tables it started from hold.\<close>

definition shows_tables :: "rec_db \<Rightarrow> metrics_snapshot \<Rightarrow> bool" where
  "shows_tables db snap \<longleftrightarrow>
     (\<forall>s. (case lookup (ms_status snap) s of None \<Rightarrow> 0 | Some n \<Rightarrow> n) = length (filter (\<lambda>p. ar_status (snd p) = s) (db_apps db)) \<and>
          (case lookup (ms_health snap) s of None \<Rightarrow> 0 | Some n \<Rightarrow> n) = length (filter (\<lambda>p. ar_health (snd p) = s) (db_apps db))) \<and>
     (\<forall>tr r n. ((tr, r), n) \<in> set (ms_events snap) \<longrightarrow>
        0 < n \<and> n = length (filter (\<lambda>p. er_trigger (snd p) = tr \<and> er_result (snd p) = r) (db_events db)))"

lemma count_list_map: "count_list (map f xs) y = length (filter (\<lambda>x. f x = y) xs)"
  by (induction xs) auto

lemma metrics_fetch_shows:
  assumes "metrics_fetch w = (Inr snap, w')"
  shows "shows_tables (rw_db w) snap"
proof -
  obtain rows w1 counts where rows: "run_db list_applications_stmt w = (Inr rows, w1)"
    and counts: "run_db sync_event_counts_stmt w1 = (Inr counts, w')"
    and snap: "snap = \<lparr>ms_status = tally (map aw_status rows), ms_health = tally (map aw_health rows), ms_events = counts\<rparr>"
    using assms by (auto simp: metrics_fetch_def split: prod.splits sum.splits)
  have db: "rw_db w1 = rw_db w" using run_db_read [OF rows] by simp
  have r: "rows = map application_row_of (db_apps (rw_db w))"
    using rows by (cases rule: run_db_cases) (auto simp: list_applications_stmt_def)
  define buckets where "buckets = map (\<lambda>(n, row). (er_trigger row, er_result row)) (db_events (rw_db w))"
  have c: "counts = map (\<lambda>b. (b, count_list buckets b)) (dedup [] buckets)"
    using counts unfolding buckets_def by (cases rule: run_db_cases) (auto simp: sync_event_counts_stmt_def db Let_def)
  have fields: "map aw_status rows = map (ar_status \<circ> snd) (db_apps (rw_db w))" "map aw_health rows = map (ar_health \<circ> snd) (db_apps (rw_db w))"
    by (auto simp: r application_row_of_def)
  have events: "count_list buckets (tr, res) = length (filter (\<lambda>p. er_trigger (snd p) = tr \<and> er_result (snd p) = res) (db_events (rw_db w)))" for tr res
    unfolding buckets_def count_list_map by (simp add: case_prod_beta)
  have "0 < n \<and> n = length (filter (\<lambda>p. er_trigger (snd p) = tr \<and> er_result (snd p) = res) (db_events (rw_db w)))"
    if "((tr, res), n) \<in> set counts" for tr res n
  proof -
    from that have "(tr, res) \<in> set buckets" "n = count_list buckets (tr, res)" by (auto simp: c)
    moreover from this have "count_list buckets (tr, res) \<noteq> 0" by (simp add: count_list_0_iff)
    ultimately show ?thesis using events by simp
  qed
  then show ?thesis
    unfolding shows_tables_def snap by (simp add: tally_count fields count_list_map)
qed

section \<open>Properties\<close>

text \<open>Over any sequence of scrapes, whatever other writers do to the tables between them and whichever
  reads fail, a snapshot that is served counts the units and the audit rows of the tables exactly as this
  scrape, or one that finished less than fifteen seconds ago, found them; a failed read is never served.\<close>

theorem metrics_snapshot_current:
  assumes "i < length ws" and "fst (metrics_run ws None) ! i = Inr snap"
  shows "\<exists>j \<le> i. shows_tables (rw_db (ws ! j)) snap \<and>
     (j = i \<or> rw_clock (ws ! i) - rw_clock (snd (metrics_fetch (ws ! j))) < metrics_cache_ttl)"
proof -
  obtain rs c where run: "metrics_run ws None = (rs, c)" by (metis surj_pair)
  have i: "i < length (map scrape_call ws)" "rs ! i = Inr snap" using assms run by simp_all
  have "may_serve (within metrics_cache_ttl) (fetches (take i (map scrape_call ws))) (scrape_call (ws ! i)) snap"
    using snapshot.run_calls_served [OF run [unfolded metrics_run_run_calls] i] assms(1) by simp
  then consider "fst (metrics_fetch (ws ! i)) = Inr snap"
    | t0 where "((), snap, t0) \<in> fetches (take i (map scrape_call ws))" "rw_clock (ws ! i) - t0 < metrics_cache_ttl"
    by (auto simp: may_serve_def scrape_call_def within_def)
  then show ?thesis
  proof cases
    case 1
    then show ?thesis using metrics_fetch_shows [of "ws ! i" snap "snd (metrics_fetch (ws ! i))"] by (metis le_refl prod.collapse)
  next
    case 2
    from 2(1) obtain w where w: "w \<in> set (take i ws)" "fst (metrics_fetch w) = Inr snap" "rw_clock (snd (metrics_fetch w)) = t0"
      unfolding in_fetches by (auto simp: take_map scrape_call_def)
    then obtain j where "j < i" "ws ! j = w" by (auto simp: in_set_conv_nth)
    then show ?thesis
      using w 2(2) metrics_fetch_shows [of w snap "snd (metrics_fetch w)"] by (metis less_imp_le prod.collapse)
  qed
qed

text \<open>A scrape ten seconds after another is served the first one's snapshot.\<close>

definition scrape_world :: "time \<Rightarrow> string rec_world" where
  "scrape_world t = \<lparr>rw_db = empty_db, rw_clock = t, rw_stmts = [], rw_ext = []\<rparr>"

theorem metrics_snapshot_current_witness:
  "\<exists>snap. map (\<lambda>r. r = Inr snap) (fst (metrics_run [scrape_world 0, scrape_world (10 * second)] None)) = [True, True] \<and>
     (\<exists>j \<le> Suc 0. shows_tables (rw_db ([scrape_world 0, scrape_world (10 * second)] ! j)) snap)"
proof -
  let ?ws = "[scrape_world 0, scrape_world (10 * second)]"
  let ?snap = "\<lparr>ms_status = [], ms_health = [], ms_events = []\<rparr>"
  have run: "fst (metrics_run ?ws None) = [Inr ?snap, Inr ?snap]"
    by (simp add: metrics_get_def metrics_fetch_def scrape_world_def run_db_def list_applications_stmt_def
        sync_event_counts_stmt_def empty_db_def tally_def metrics_cache_ttl_def time_units)
  have "\<exists>j \<le> Suc 0. shows_tables (rw_db (?ws ! j)) ?snap"
    using metrics_snapshot_current [of "Suc 0" ?ws ?snap] run by auto
  with run show ?thesis by (intro exI [of _ ?snap]) simp
qed

end
