(* ===== verification/Githubapp.thy ===== *)
theory Githubapp
  imports Expiring_Cache
begin

text \<open>
  The GitHub App client (\<open>internal/githubapp/githubapp.go\<close>): which repository a spelling names, the cached
  installation tokens, and the requests that read and commit a file. Sending a request is an argument, and
  so are what the standard codecs and the RSA signature make of their input (\<open>encoding/json\<close>,
  \<open>encoding/base64\<close>, \<open>crypto/rsa\<close>). A request names the path and the query its server sees: \<open>url.URL\<close>
  escapes a path as a whole, while a URL given as a string is cut and unescaped by \<open>url.Parse\<close>.
\<close>

section \<open>Repositories\<close>

definition parse_owner_repo :: "string \<Rightarrow> (string \<times> string) option" where
  "parse_owner_repo repo =
     (let repo = trim_suffix repo ''.git'';
          repo = (if has_prefix repo ''git@github.com:'' then trim_prefix repo ''git@github.com:''
                  else if has_prefix repo ''https://github.com/'' then trim_prefix repo ''https://github.com/''
                  else if has_prefix repo ''github.com/'' then trim_prefix repo ''github.com/''
                  else repo)
      in case cut_at (CHR ''/'') repo of
           None \<Rightarrow> None
         | Some (owner, name) \<Rightarrow>
             if owner = [] \<or> name = [] \<or> CHR ''/'' \<in> set name then None else Some (owner, name))"

section \<open>Requests and responses\<close>

record http_request =
  hq_method :: string
  hq_path :: string
  hq_query :: string
  hq_auth :: string
  hq_accept :: string
  hq_body :: string

text \<open>A body is the bytes it delivers and the error, if any, that ends it.\<close>

type_synonym http_body = "string \<times> string option"

record http_response =
  hp_status :: nat
  hp_body :: http_body

type_synonym 'w transport = "http_request \<Rightarrow> 'w \<Rightarrow> (string + http_response) \<times> 'w"

datatype gh_error =
    BadRepo string
  | SignError string
  | FindInstallation string
  | InstallationStatus nat
  | InstallationDecode string
  | BuildRequest
  | MintRequest string
  | MintStatus nat
  | MintDecode string
  | FetchRequest string
  | FetchStatus nat
  | ReadBody string
  | BodyTooLong
  | DecodeContents string
  | UnexpectedEncoding string
  | DecodeBase64 string
  | PutRequest string
  | PutStatus nat

definition max_response_bytes :: nat where "max_response_bytes = 10 * 1024 * 1024"

text \<open>\<open>io.LimitReader\<close> with one byte more than the limit: what a reader behind it sees.\<close>

definition limited :: "http_body \<Rightarrow> http_body" where
  "limited b = (if length (fst b) > max_response_bytes then (take (max_response_bytes + 1) (fst b), None) else b)"

definition read_limited :: "http_body \<Rightarrow> gh_error + string" where
  "read_limited b =
     (case limited b of
        (bytes, Some e) \<Rightarrow> Inl (ReadBody e)
      | (bytes, None) \<Rightarrow> if length bytes > max_response_bytes then Inl BodyTooLong else Inr bytes)"

text \<open>\<open>url.Parse\<close> on \<open>https://api.github.com\<close> followed by \<open>raw\<close>: the unescaped path and the query, unless
  a control character or a malformed escape makes it fail.\<close>

definition hex_value :: "char \<Rightarrow> nat option" where
  "hex_value c =
     (if is_digit c then Some (of_char c - 48)
      else if CHR ''a'' \<le> c \<and> c \<le> CHR ''f'' then Some (of_char c - 87)
      else if CHR ''A'' \<le> c \<and> c \<le> CHR ''F'' then Some (of_char c - 55) else None)"

fun unescape :: "string \<Rightarrow> string option" where
  "unescape [] = Some []"
| "unescape (c # cs) =
     (if c \<noteq> CHR ''%'' then map_option ((#) c) (unescape cs)
      else case cs of
        h # l # rest \<Rightarrow>
          (case (hex_value h, hex_value l) of
             (Some a, Some b) \<Rightarrow> map_option ((#) (char_of (16 * a + b))) (unescape rest)
           | _ \<Rightarrow> None)
      | _ \<Rightarrow> None)"

text \<open>\<open>url.QueryEscape\<close>.\<close>

definition upper_hex :: "nat \<Rightarrow> char" where
  "upper_hex d = (if d < 10 then char_of (48 + d) else char_of (55 + d))"

definition query_escape :: "string \<Rightarrow> string" where
  "query_escape s = concat (map (\<lambda>c.
     if is_word_char c \<or> c = CHR ''.'' \<or> c = CHR ''~'' then [c]
     else if c = CHR '' '' then ''+''
     else [CHR ''%'', upper_hex (of_char c div 16), upper_hex (of_char c mod 16)]) s)"

definition before :: "char \<Rightarrow> string \<Rightarrow> string \<times> string" where
  "before c s = (case cut_at c s of None \<Rightarrow> (s, []) | Some (a, b) \<Rightarrow> (a, b))"

definition is_control :: "char \<Rightarrow> bool" where
  "is_control c \<longleftrightarrow> of_char c < (32 :: nat) \<or> of_char c = (127 :: nat)"

definition parse_url :: "string \<Rightarrow> (string \<times> string) option" where
  "parse_url raw =
     (let (u, frag) = before (CHR ''#'') raw; (path, query) = before (CHR ''?'') u in
      if list_ex is_control u \<or> unescape frag = None then None
      else map_option (\<lambda>p. (p, query)) (unescape path))"

section \<open>Tokens\<close>

record jwt_claims =
  jc_iat :: int
  jc_exp :: int
  jc_iss :: string

record contents_response =
  ct_sha :: string
  ct_content :: string
  ct_encoding :: string

record put_request =
  pr_message :: string
  pr_content :: string
  pr_sha :: string
  pr_branch :: string

record 'w gh_env =
  ge_app_id :: string
  ge_sign :: "jwt_claims \<Rightarrow> string + string"
  ge_http :: "'w transport"
  ge_dec_installation :: "http_body \<Rightarrow> string + int"
  ge_dec_token :: "http_body \<Rightarrow> string + string \<times> time"
  ge_dec_contents :: "http_body \<Rightarrow> string + contents_response"
  ge_b64_decode :: "string \<Rightarrow> string + string"
  ge_b64_encode :: "string \<Rightarrow> string"
  ge_enc_put :: "put_request \<Rightarrow> string"

record gh_client =
  gh_tokens :: "(string \<times> (string \<times> time)) list"
  gh_ids :: "(string \<times> int) list"

definition new_client :: gh_client where
  "new_client = \<lparr>gh_tokens = [], gh_ids = []\<rparr>"

definition app_claims :: "string \<Rightarrow> time \<Rightarrow> jwt_claims" where
  "app_claims app_id now = \<lparr>jc_iat = (now - 30 * second) div second, jc_exp = (now + 9 * minute) div second, jc_iss = app_id\<rparr>"

definition app_jwt :: "'w gh_env \<Rightarrow> time \<Rightarrow> gh_error + string" where
  "app_jwt env now = (case ge_sign env (app_claims (ge_app_id env) now) of Inl e \<Rightarrow> Inl (SignError e) | Inr s \<Rightarrow> Inr s)"

definition owner_repo :: "string \<Rightarrow> string \<Rightarrow> string" where
  "owner_repo owner repo = owner @ CHR ''/'' # repo"

definition github_json :: string where "github_json = ''application/vnd.github+json''"
definition github_raw :: string where "github_raw = ''application/vnd.github.raw''"

definition app_request :: "string \<Rightarrow> string \<Rightarrow> string \<Rightarrow> http_request option" where
  "app_request meth raw jwt =
     map_option (\<lambda>(p, q). \<lparr>hq_method = meth, hq_path = p, hq_query = q,
       hq_auth = ''Bearer '' @ jwt, hq_accept = github_json, hq_body = []\<rparr>) (parse_url raw)"

definition installation_id :: "'w gh_env \<Rightarrow> string \<Rightarrow> string \<Rightarrow> string \<Rightarrow> 'w \<Rightarrow> (gh_error + int) \<times> 'w" where
  "installation_id env jwt owner repo w =
     (case app_request ''GET'' (''/repos/'' @ owner_repo owner repo @ ''/installation'') jwt of
        None \<Rightarrow> (Inl BuildRequest, w)
      | Some req \<Rightarrow>
         (case ge_http env req w of
            (Inl e, w1) \<Rightarrow> (Inl (FindInstallation e), w1)
          | (Inr resp, w1) \<Rightarrow>
              if hp_status resp \<noteq> 200 then (Inl (InstallationStatus (hp_status resp)), w1)
              else (case ge_dec_installation env (limited (hp_body resp)) of
                      Inl e \<Rightarrow> (Inl (InstallationDecode e), w1) | Inr i \<Rightarrow> (Inr i, w1))))"

definition cached_installation_id ::
  "'w gh_env \<Rightarrow> string \<Rightarrow> string \<Rightarrow> string \<Rightarrow> gh_client \<Rightarrow> 'w \<Rightarrow> (gh_error + int) \<times> gh_client \<times> 'w" where
  "cached_installation_id env jwt owner repo c w =
     (let key = owner_repo owner repo in
      case lookup (gh_ids c) key of
        Some i \<Rightarrow> (Inr i, c, w)
      | None \<Rightarrow>
         (case installation_id env jwt owner repo w of
            (Inl e, w1) \<Rightarrow> (Inl e, c, w1)
          | (Inr i, w1) \<Rightarrow> (Inr i, c\<lparr>gh_ids := put key i (gh_ids c)\<rparr>, w1)))"

definition mint_token :: "'w gh_env \<Rightarrow> string \<Rightarrow> int \<Rightarrow> 'w \<Rightarrow> (gh_error + string \<times> time) \<times> 'w" where
  "mint_token env jwt i w =
     (case app_request ''POST'' (''/app/installations/'' @ show_int i @ ''/access_tokens'') jwt of
        None \<Rightarrow> (Inl BuildRequest, w)
      | Some req \<Rightarrow>
         (case ge_http env req w of
            (Inl e, w1) \<Rightarrow> (Inl (MintRequest e), w1)
          | (Inr resp, w1) \<Rightarrow>
              if hp_status resp \<noteq> 201 then (Inl (MintStatus (hp_status resp)), w1)
              else (case ge_dec_token env (limited (hp_body resp)) of
                      Inl e \<Rightarrow> (Inl (MintDecode e), w1) | Inr t \<Rightarrow> (Inr t, w1))))"

text \<open>What the leader of a flight does: the token and its expiry.\<close>

definition mint_for ::
  "'w gh_env \<Rightarrow> string \<Rightarrow> string \<Rightarrow> time \<Rightarrow> gh_client \<Rightarrow> 'w \<Rightarrow> (gh_error + string \<times> time) \<times> gh_client \<times> 'w" where
  "mint_for env owner repo now c w =
     (case app_jwt env now of
        Inl e \<Rightarrow> (Inl e, c, w)
      | Inr jwt \<Rightarrow>
         (case cached_installation_id env jwt owner repo c w of
            (Inl e, c1, w1) \<Rightarrow> (Inl e, c1, w1)
          | (Inr i, c1, w1) \<Rightarrow> let (r, w2) = mint_token env jwt i w1 in (r, c1, w2)))"

definition early_refresh :: int where "early_refresh = 2 * minute"

definition usable_token :: "(string \<times> (string \<times> time)) list \<Rightarrow> string \<Rightarrow> time \<Rightarrow> string option" where
  "usable_token tokens key now =
     (case lookup tokens key of None \<Rightarrow> None | Some (tok, expires_at) \<Rightarrow> if now < expires_at then Some tok else None)"

text \<open>A call looks at \<open>t1\<close>; on a miss it shares the result of a flight in progress, or leads one and looks
  again at \<open>t2\<close>.\<close>

record token_call =
  tc_owner :: string
  tc_repo :: string
  tc_t1 :: time
  tc_t2 :: time
  tc_joined :: "(gh_error + string) option"

definition installation_token ::
  "'w gh_env \<Rightarrow> token_call \<Rightarrow> gh_client \<Rightarrow> 'w \<Rightarrow> (gh_error + string) \<times> gh_client \<times> 'w" where
  "installation_token env tc c w =
     (let key = owner_repo (tc_owner tc) (tc_repo tc) in
      case usable_token (gh_tokens c) key (tc_t1 tc) of
        Some tok \<Rightarrow> (Inr tok, c, w)
      | None \<Rightarrow>
         (case tc_joined tc of
            Some r \<Rightarrow> (r, c, w)
          | None \<Rightarrow>
             (case usable_token (gh_tokens c) key (tc_t2 tc) of
                Some tok \<Rightarrow> (Inr tok, c, w)
              | None \<Rightarrow>
                 (case mint_for env (tc_owner tc) (tc_repo tc) (tc_t2 tc) c w of
                    (Inl e, c1, w1) \<Rightarrow> (Inl e, c1, w1)
                  | (Inr (tok, expires_at), c1, w1) \<Rightarrow>
                      (Inr tok, c1\<lparr>gh_tokens := put key (tok, expires_at - early_refresh) (gh_tokens c1)\<rparr>, w1)))))"

section \<open>Files\<close>

definition contents_path :: "string \<Rightarrow> string \<Rightarrow> string \<Rightarrow> string" where
  "contents_path owner name path = ''/repos/'' @ owner @ CHR ''/'' # name @ ''/contents/'' @ trim_prefix path ''/''"

definition get_request :: "string \<Rightarrow> string \<Rightarrow> string \<Rightarrow> string \<Rightarrow> string \<Rightarrow> string \<Rightarrow> http_request" where
  "get_request owner name ref path tok accept =
     \<lparr>hq_method = ''GET'', hq_path = contents_path owner name path, hq_query = (if ref = [] then [] else ''ref='' @ query_escape ref),
      hq_auth = ''token '' @ tok, hq_accept = accept, hq_body = []\<rparr>"

text \<open>The token for a repository, as the operations on files ask for it.\<close>

definition repo_call :: "string \<Rightarrow> string \<Rightarrow> token_call \<Rightarrow> token_call" where
  "repo_call owner name tc = tc\<lparr>tc_owner := owner, tc_repo := name\<rparr>"

definition get_file ::
  "'w gh_env \<Rightarrow> token_call \<Rightarrow> string \<Rightarrow> string \<Rightarrow> string \<Rightarrow> gh_client \<Rightarrow> 'w \<Rightarrow> (gh_error + string) \<times> gh_client \<times> 'w" where
  "get_file env tc repo ref path c w =
     (case parse_owner_repo repo of
        None \<Rightarrow> (Inl (BadRepo repo), c, w)
      | Some (owner, name) \<Rightarrow>
         (case installation_token env (repo_call owner name tc) c w of
            (Inl e, c1, w1) \<Rightarrow> (Inl e, c1, w1)
          | (Inr tok, c1, w1) \<Rightarrow>
             (case ge_http env (get_request owner name ref path tok github_raw) w1 of
                (Inl e, w2) \<Rightarrow> (Inl (FetchRequest e), c1, w2)
              | (Inr resp, w2) \<Rightarrow>
                  if hp_status resp \<noteq> 200 then (Inl (FetchStatus (hp_status resp)), c1, w2)
                  else (read_limited (hp_body resp), c1, w2))))"

definition get_file_with_sha ::
  "'w gh_env \<Rightarrow> token_call \<Rightarrow> string \<Rightarrow> string \<Rightarrow> string \<Rightarrow> gh_client \<Rightarrow> 'w \<Rightarrow>
     (gh_error + string \<times> string) \<times> gh_client \<times> 'w" where
  "get_file_with_sha env tc repo ref path c w =
     (case parse_owner_repo repo of
        None \<Rightarrow> (Inl (BadRepo repo), c, w)
      | Some (owner, name) \<Rightarrow>
         (case installation_token env (repo_call owner name tc) c w of
            (Inl e, c1, w1) \<Rightarrow> (Inl e, c1, w1)
          | (Inr tok, c1, w1) \<Rightarrow>
             (case ge_http env (get_request owner name ref path tok github_json) w1 of
                (Inl e, w2) \<Rightarrow> (Inl (FetchRequest e), c1, w2)
              | (Inr resp, w2) \<Rightarrow>
                  if hp_status resp \<noteq> 200 then (Inl (FetchStatus (hp_status resp)), c1, w2)
                  else case ge_dec_contents env (limited (hp_body resp)) of
                    Inl e \<Rightarrow> (Inl (DecodeContents e), c1, w2)
                  | Inr out \<Rightarrow>
                      if ct_encoding out \<noteq> ''base64'' then (Inl (UnexpectedEncoding (ct_encoding out)), c1, w2)
                      else case ge_b64_decode env (filter (\<lambda>x. x \<noteq> CHR 0x0A) (ct_content out)) of
                        Inl e \<Rightarrow> (Inl (DecodeBase64 e), c1, w2)
                      | Inr content \<Rightarrow> (Inr (content, ct_sha out), c1, w2))))"

definition file_put_request ::
  "'w gh_env \<Rightarrow> string \<Rightarrow> string \<Rightarrow> string \<Rightarrow> string \<Rightarrow> put_request \<Rightarrow> http_request option" where
  "file_put_request env owner name path tok body =
     map_option (\<lambda>(p, q). \<lparr>hq_method = ''PUT'', hq_path = p, hq_query = q,
       hq_auth = ''token '' @ tok, hq_accept = github_json, hq_body = ge_enc_put env body\<rparr>)
       (parse_url (contents_path owner name path))"

definition put_file ::
  "'w gh_env \<Rightarrow> token_call \<Rightarrow> string \<Rightarrow> string \<Rightarrow> string \<Rightarrow> string \<Rightarrow> string \<Rightarrow> string \<Rightarrow> gh_client \<Rightarrow> 'w \<Rightarrow>
     gh_error option \<times> gh_client \<times> 'w" where
  "put_file env tc repo branch path message content sha c w =
     (case parse_owner_repo repo of
        None \<Rightarrow> (Some (BadRepo repo), c, w)
      | Some (owner, name) \<Rightarrow>
         (case installation_token env (repo_call owner name tc) c w of
            (Inl e, c1, w1) \<Rightarrow> (Some e, c1, w1)
          | (Inr tok, c1, w1) \<Rightarrow>
              let body = \<lparr>pr_message = message, pr_content = ge_b64_encode env content, pr_sha = sha, pr_branch = branch\<rparr> in
              case file_put_request env owner name path tok body of
                None \<Rightarrow> (Some BuildRequest, c1, w1)
              | Some req \<Rightarrow>
                 (case ge_http env req w1 of
                    (Inl e, w2) \<Rightarrow> (Some (PutRequest e), c1, w2)
                  | (Inr resp, w2) \<Rightarrow>
                      if hp_status resp \<noteq> 200 \<and> hp_status resp \<noteq> 201 then (Some (PutStatus (hp_status resp)), c1, w2)
                      else (None, c1, w2))))"

section \<open>Lemmas\<close>

definition spelling_prefixes :: "string list" where
  "spelling_prefixes = [[], ''github.com/'', ''https://github.com/'', ''git@github.com:'']"

definition repo_spellings :: "string \<Rightarrow> string list" where
  "repo_spellings s = map (\<lambda>p. p @ s) spelling_prefixes @ map (\<lambda>p. p @ s @ ''.git'') spelling_prefixes"

text \<open>The client's tokens as a cache of the interface: an entry is a token and its expiry.\<close>

definition read_token :: "(string \<times> (string \<times> time)) list \<Rightarrow> string \<Rightarrow> time \<Rightarrow> (string \<times> time) option" where
  "read_token tokens key now =
     (case lookup tokens key of None \<Rightarrow> None
      | Some (tok, expires_at) \<Rightarrow> if now < expires_at then Some (tok, expires_at + early_refresh) else None)"

definition store_token :: "(string \<times> (string \<times> time)) list \<Rightarrow> string \<Rightarrow> string \<times> time \<Rightarrow> time \<Rightarrow> (string \<times> (string \<times> time)) list" where
  "store_token tokens key v t = put key (fst v, snd v - early_refresh) tokens"

definition token_live :: "string \<times> time \<Rightarrow> time \<Rightarrow> time \<Rightarrow> bool" where
  "token_live v t0 t \<longleftrightarrow> t + early_refresh < snd v"

interpretation tokens: expiring_cache "[]" read_token store_token token_live
  by unfold_locales (auto simp: read_token_def store_token_def token_live_def)

lemma usable_read: "usable_token tokens key now = map_option fst (read_token tokens key now)"
  by (simp add: usable_token_def read_token_def split: option.split)

lemma mint_for_tokens:
  "mint_for env owner repo now c w = (r, c', w') \<Longrightarrow> gh_tokens c' = gh_tokens c"
  by (auto simp: mint_for_def cached_installation_id_def Let_def split: sum.splits prod.splits option.splits)

text \<open>A call of the client as a call of the cache; the expiry of a shared token is not known.\<close>

definition cache_call ::
  "'w gh_env \<Rightarrow> token_call \<Rightarrow> gh_client \<Rightarrow> 'w \<Rightarrow> (string, gh_error, string \<times> time) call" where
  "cache_call env tc c w =
     Call (owner_repo (tc_owner tc) (tc_repo tc)) (tc_t1 tc) (tc_t2 tc)
       (case tc_joined tc of
          Some r \<Rightarrow> Join (map_sum id (\<lambda>tok. (tok, 0)) r)
        | None \<Rightarrow> Lead (fst (mint_for env (tc_owner tc) (tc_repo tc) (tc_t2 tc) c w)))
       (tc_t2 tc)"

lemma fst_shared [simp]: "map_sum id fst (map_sum id (\<lambda>tok. (tok, 0)) r) = r"
  by (cases r) simp_all

lemma installation_token_cached:
  assumes "installation_token env tc c w = (r, c', w')"
  obtains r' where "cached_get read_token store_token (cache_call env tc c w) (gh_tokens c) = (r', gh_tokens c')"
    "r = map_sum id fst r'"
proof -
  obtain m c1 w1 where m: "mint_for env (tc_owner tc) (tc_repo tc) (tc_t2 tc) c w = (m, c1, w1)" by (metis prod_cases3)
  note keep = mint_for_tokens [OF m]
  have "\<exists>r'. cached_get read_token store_token (cache_call env tc c w) (gh_tokens c) = (r', gh_tokens c') \<and> r = map_sum id fst r'"
    using assms keep
    by (auto simp: installation_token_def cached_get_def cache_call_def usable_read m store_token_def Let_def
        split: option.splits sum.splits if_splits)
  then show ?thesis using that by blast
qed

text \<open>Any sequence of calls, each in whatever world it finds.\<close>

fun token_run :: "'w gh_env \<Rightarrow> (token_call \<times> 'w) list \<Rightarrow> gh_client \<Rightarrow> (gh_error + string) list \<times> gh_client" where
  "token_run env [] c = ([], c)"
| "token_run env ((tc, w) # tcs) c =
     (let (r, c1, w1) = installation_token env tc c w; (rs, c2) = token_run env tcs c1 in (r # rs, c2))"

text \<open>The fetches of such a sequence.\<close>

fun minted :: "'w gh_env \<Rightarrow> (token_call \<times> 'w) list \<Rightarrow> gh_client \<Rightarrow> (gh_error + string \<times> time) option list" where
  "minted env [] c = []"
| "minted env ((tc, w) # tcs) c =
     (if tc_joined tc = None then Some (fst (mint_for env (tc_owner tc) (tc_repo tc) (tc_t2 tc) c w)) else None) #
     minted env tcs (fst (snd (installation_token env tc c w)))"

fun cache_calls :: "'w gh_env \<Rightarrow> (token_call \<times> 'w) list \<Rightarrow> gh_client \<Rightarrow> (string, gh_error, string \<times> time) call list" where
  "cache_calls env [] c = []"
| "cache_calls env ((tc, w) # tcs) c = cache_call env tc c w # cache_calls env tcs (fst (snd (installation_token env tc c w)))"

lemma token_run_run_calls:
  assumes "token_run env calls c = (rs, c')"
  obtains rs' where "run_calls (cached_get read_token store_token) (cache_calls env calls c) (gh_tokens c) = (rs', gh_tokens c')"
    "rs = map (map_sum id fst) rs'"
proof -
  have "\<exists>rs'. run_calls (cached_get read_token store_token) (cache_calls env calls c) (gh_tokens c) = (rs', gh_tokens c') \<and>
      rs = map (map_sum id fst) rs'"
    using assms
  proof (induction calls arbitrary: c rs)
    case (Cons call calls)
    obtain tc w where call: "call = (tc, w)" by (cases call)
    obtain r c1 w1 where one: "installation_token env tc c w = (r, c1, w1)" by (metis prod_cases3)
    obtain rs1 c2 where rest: "token_run env calls c1 = (rs1, c2)" by (metis surj_pair)
    have rs: "rs = r # rs1" "c' = c2" using Cons.prems by (simp_all add: call one rest)
    obtain r' where r': "cached_get read_token store_token (cache_call env tc c w) (gh_tokens c) = (r', gh_tokens c1)" "r = map_sum id fst r'"
      by (rule installation_token_cached [OF one])
    from Cons.IH [OF rest [folded rs(2)]] r' rs show ?case by (auto simp: call one id_def)
  qed simp
  then show ?thesis using that by blast
qed

lemma cache_calls_nth:
  "length (cache_calls env calls c) = length calls \<and> length (minted env calls c) = length calls \<and>
   (\<forall>j < length calls. call_key (cache_calls env calls c ! j) = owner_repo (tc_owner (fst (calls ! j))) (tc_repo (fst (calls ! j))) \<and>
      call_t1 (cache_calls env calls c ! j) = tc_t1 (fst (calls ! j)) \<and> call_t2 (cache_calls env calls c ! j) = tc_t2 (fst (calls ! j)) \<and>
      (case tc_joined (fst (calls ! j)) of
         Some r \<Rightarrow> call_flight (cache_calls env calls c ! j) = Join (map_sum id (\<lambda>tok. (tok, 0)) r)
       | None \<Rightarrow> (\<exists>m. minted env calls c ! j = Some m \<and> call_flight (cache_calls env calls c ! j) = Lead m)))"
proof (induction calls arbitrary: c)
  case (Cons call calls)
  obtain tc w where call: "call = (tc, w)" by (cases call)
  show ?case
    using Cons.IH [of "fst (snd (installation_token env tc c w))"]
    by (auto simp: call cache_call_def All_less_Suc2 split: option.split)
qed simp

lemma unescape_plain: "CHR ''%'' \<notin> set s \<Longrightarrow> unescape s = Some s"
  by (induction s rule: unescape.induct) auto

text \<open>A URL path that \<open>url.Parse\<close> reads as it stands.\<close>

definition url_plain :: "string \<Rightarrow> bool" where
  "url_plain s \<longleftrightarrow> list_all (\<lambda>x. x \<notin> {CHR ''#'', CHR ''?'', CHR ''%''} \<and> \<not> is_control x) s"

lemma url_plain_append [simp]: "url_plain (a @ b) \<longleftrightarrow> url_plain a \<and> url_plain b"
  by (simp add: url_plain_def)

lemma parse_url_plain: "url_plain s \<Longrightarrow> parse_url s = Some (s, [])"
proof -
  assume "url_plain s"
  then have "CHR ''#'' \<notin> set s" "CHR ''?'' \<notin> set s" "CHR ''%'' \<notin> set s" "\<not> list_ex is_control s"
    by (auto simp: url_plain_def list_all_iff list_ex_iff)
  then show ?thesis by (simp add: parse_url_def before_def cut_at_def unescape_plain)
qed

lemma has_suffix_last_part:
  assumes "has_suffix (q @ c # name) suf" and "c \<notin> set suf"
  shows "has_suffix name suf"
proof -
  obtain t where "(q @ [c]) @ name = t @ suf" using assms(1) by (auto simp: has_suffix_iff)
  then obtain us where "name = us @ suf \<or> q @ [c] = t @ us \<and> us @ name = suf"
    unfolding append_eq_append_conv2 by blast
  then show ?thesis
  proof
    assume *: "q @ [c] = t @ us \<and> us @ name = suf"
    then have "us = []" using assms(2) by (cases us rule: rev_cases) auto
    with * show ?thesis by (auto simp: has_suffix_iff)
  qed (auto simp: has_suffix_iff)
qed

section \<open>Properties\<close>

text \<open>Every spelling of a repository the documentation allows names that repository: the bare name, a
  \<open>github.com/\<close> path, an https URL and an ssh URL, each with and without \<open>.git\<close>, are read back as the owner
  and the name they were written from.\<close>

theorem parse_owner_repo_spellings:
  assumes "list_all is_word_char owner" and "owner \<noteq> []" and "name \<noteq> []" and "CHR ''/'' \<notin> set name"
    and "\<not> has_suffix name ''.git''" and "spelling \<in> set (repo_spellings (owner_repo owner name))"
  shows "parse_owner_repo spelling = Some (owner, name)"
proof -
  let ?s = "owner_repo owner name"
  have owner: "CHR ''/'' \<notin> set owner" "CHR '':'' \<notin> set owner" "CHR ''.'' \<notin> set owner"
    using assms(1) by (auto simp: list_all_iff is_word_char_def is_digit_def less_eq_char_def)
  have suffix: "\<not> has_suffix (p @ ?s) ''.git''" for p
    using assms(5) has_suffix_last_part [of "p @ owner" "CHR ''/''" name "''.git''"] by (auto simp: owner_repo_def)
  have trim: "trim_suffix (p @ ?s) ''.git'' = p @ ?s" "trim_suffix (p @ ?s @ ''.git'') ''.git'' = p @ ?s" for p
    using suffix [of p] trim_suffix_append [of "p @ ?s" "''.git''"] by (simp_all add: trim_suffix_def)
  have cut: "cut_at (CHR ''/'') ?s = Some (owner, name)" using owner(1) by (simp add: owner_repo_def)
  have plain: "\<not> has_prefix ?s ''git@github.com:''" "\<not> has_prefix ?s ''https://github.com/''" "\<not> has_prefix ?s ''github.com/''"
  proof -
    have "cut_at (CHR ''/'') (''https://github.com/'' @ t) = Some (''https:'', ''/github.com/'' @ t)" for t by (simp add: cut_at_def)
    then show "\<not> has_prefix ?s ''https://github.com/''" using cut owner(2) by (auto simp: has_prefix_iff)
    have "cut_at (CHR ''/'') (''github.com/'' @ t) = Some (''github.com'', t)" for t by (simp add: cut_at_def)
    then show "\<not> has_prefix ?s ''github.com/''" using cut owner(3) by (auto simp: has_prefix_iff)
    have "fst (the (cut_at (CHR ''/'') (''git@github.com:'' @ t))) = ''git@github.com:'' @ takeWhile (\<lambda>x. x \<noteq> CHR ''/'') t" if "CHR ''/'' \<in> set t" for t
      using that by (simp add: cut_at_def)
    moreover have "cut_at (CHR ''/'') (''git@github.com:'' @ t) = None" if "CHR ''/'' \<notin> set t" for t
      using that by (simp add: cut_at_def)
    ultimately show "\<not> has_prefix ?s ''git@github.com:''"
      using cut owner(2) unfolding has_prefix_iff by (metis (no_types, lifting) Un_iff fst_conv list.set_intros(1) list.set_intros(2) option.distinct(1) option.sel set_append)
  qed
  obtain p where p: "p \<in> set spelling_prefixes" "spelling = p @ ?s \<or> spelling = p @ ?s @ ''.git''"
    using assms(6) by (auto simp: repo_spellings_def)
  then have "trim_suffix spelling ''.git'' = p @ ?s" using trim by metis
  with p(1) show ?thesis
    using plain cut assms(2-4)
    by (auto simp: spelling_prefixes_def parse_owner_repo_def Let_def trim_prefix_def) (simp_all add: has_prefix_def)
qed

theorem parse_owner_repo_spellings_witness:
  "list_all (\<lambda>x. parse_owner_repo x = Some (''acme'', ''deploy'')) (repo_spellings (owner_repo ''acme'' ''deploy''))"
proof -
  have "list_all is_word_char ''acme''" by (simp add: is_word_char_def is_digit_def less_eq_char_def)
  then have "parse_owner_repo x = Some (''acme'', ''deploy'')" if "x \<in> set (repo_spellings (owner_repo ''acme'' ''deploy''))" for x
    using parse_owner_repo_spellings [of "''acme''" "''deploy''" x] that by (simp add: has_suffix_def)
  then show ?thesis by (simp only: list_all_iff) simp
qed

text \<open>C28: over any sequence of token requests of concurrent callers, a token that is handed out was shared by a
  flight in progress, was minted by this very call, or was minted by an earlier call for the same repository
  and still has more than two minutes to live at the moment the cache was looked at.\<close>

theorem token_served_early:
  assumes "token_run env calls new_client = (rs, c)" and "i < length calls" and "calls ! i = (tc, w)" and "rs ! i = Inr tok"
  shows "tc_joined tc = Some (Inr tok) \<or>
     (\<exists>j expires_at. j \<le> i \<and> minted env calls new_client ! j = Some (Inr (tok, expires_at)) \<and>
        owner_repo (tc_owner (fst (calls ! j))) (tc_repo (fst (calls ! j))) = owner_repo (tc_owner tc) (tc_repo tc) \<and>
        (j = i \<or> tc_t1 tc + early_refresh < expires_at \<or> tc_t2 tc + early_refresh < expires_at))"
proof -
  let ?cs = "cache_calls env calls new_client"
  obtain rs' where rs': "run_calls (cached_get read_token store_token) ?cs [] = (rs', gh_tokens c)" "rs = map (map_sum id fst) rs'"
    using token_run_run_calls [OF assms(1)] by (metis gh_client.select_convs(1) new_client_def)
  have len: "length ?cs = length calls" and nth: "j < length calls \<Longrightarrow>
      call_key (?cs ! j) = owner_repo (tc_owner (fst (calls ! j))) (tc_repo (fst (calls ! j))) \<and>
      call_t1 (?cs ! j) = tc_t1 (fst (calls ! j)) \<and> call_t2 (?cs ! j) = tc_t2 (fst (calls ! j)) \<and>
      (case tc_joined (fst (calls ! j)) of
         Some r \<Rightarrow> call_flight (?cs ! j) = Join (map_sum id (\<lambda>tok. (tok, 0)) r)
       | None \<Rightarrow> (\<exists>m. minted env calls new_client ! j = Some m \<and> call_flight (?cs ! j) = Lead m))" for j
    using cache_calls_nth [of env calls new_client] by blast+
  have "length rs' = length ?cs" by (rule run_calls_length [OF rs'(1)])
  then obtain v where v: "rs' ! i = Inr v" "fst v = tok"
    using assms(2,4) rs'(2) len by (cases "rs' ! i") auto
  have serve: "may_serve token_live (fetches (take i ?cs)) (?cs ! i) v"
    using tokens.run_calls_served [OF rs'(1) _ v(1)] assms(2) len by simp
  have own: ?thesis if "call_flight (?cs ! i) = Lead (Inr v)"
    using that nth [OF assms(2)] assms(3) v(2) by (intro disjI2 exI [of _ i] exI [of _ "snd v"]) (auto split: option.splits)
  have shared: ?thesis if joined: "call_flight (?cs ! i) = Join (Inr v)"
  proof (cases "tc_joined tc")
    case None
    then show ?thesis using joined nth [OF assms(2)] assms(3) by auto
  next
    case (Some r)
    then have "map_sum id (\<lambda>tok. (tok, 0 :: time)) r = Inr v" using joined nth [OF assms(2)] assms(3) by simp
    with Some v(2) show ?thesis by (cases r) auto
  qed
  have cached: ?thesis if hit: "(call_key (?cs ! i), v, t0) \<in> fetches (take i ?cs)" "token_live v t0 (tc_t1 tc) \<or> token_live v t0 (tc_t2 tc)" for t0
  proof -
    obtain cl where cl: "cl \<in> set (take i ?cs)" "call_key cl = call_key (?cs ! i)" "call_flight cl = Lead (Inr v)"
      using hit(1) by (auto simp: in_fetches)
    then obtain j where j: "j < i" "cl = ?cs ! j" by (auto simp: in_set_conv_nth)
    have "j < length calls" using j(1) assms(2) by simp
    from nth [OF this] nth [OF assms(2)] cl(2,3) j hit(2) v(2) assms(3)
    show ?thesis
      by (intro disjI2 exI [of _ j] exI [of _ "snd v"]) (auto simp: token_live_def split: option.splits)
  qed
  show ?thesis using serve own shared cached nth [OF assms(2)] assms(3) unfolding may_serve_def by auto
qed

text \<open>A second call half an hour later is served the token the first one minted, for another owner's call not.\<close>

definition token_env :: "unit gh_env" where
  "token_env = \<lparr>ge_app_id = ''1'', ge_sign = (\<lambda>_. Inr ''jwt''),
     ge_http = (\<lambda>req w. (Inr \<lparr>hp_status = (if hq_method req = ''POST'' then 201 else 200), hp_body = ([], None)\<rparr>, w)),
     ge_dec_installation = (\<lambda>_. Inr 7), ge_dec_token = (\<lambda>_. Inr (''t'', 60 * minute)),
     ge_dec_contents = (\<lambda>_. Inr \<lparr>ct_sha = ''s'', ct_content = [], ct_encoding = ''base64''\<rparr>),
     ge_b64_decode = (\<lambda>x. Inr x), ge_b64_encode = (\<lambda>x. x), ge_enc_put = pr_content\<rparr>"

definition token_at :: "time \<Rightarrow> token_call" where
  "token_at t = \<lparr>tc_owner = ''o'', tc_repo = ''r'', tc_t1 = t, tc_t2 = t, tc_joined = None\<rparr>"

theorem token_served_early_witness:
  "\<exists>c. token_run token_env [(token_at 0, ()), (token_at (30 * minute), ())] new_client = ([Inr ''t'', Inr ''t''], c) \<and>
     (\<exists>j expires_at. j \<le> Suc 0 \<and> minted token_env [(token_at 0, ()), (token_at (30 * minute), ())] new_client ! j = Some (Inr (''t'', expires_at)))"
proof -
  let ?calls = "[(token_at 0, ()), (token_at (30 * minute), ())]"
  have u: "parse_url (''/repos/'' @ owner_repo ''o'' ''r'' @ ''/installation'') = Some (''/repos/'' @ owner_repo ''o'' ''r'' @ ''/installation'', [])"
    "parse_url (''/app/installations/'' @ show_int 7 @ ''/access_tokens'') = Some (''/app/installations/'' @ show_int 7 @ ''/access_tokens'', [])"
    by (rule parse_url_plain, simp add: url_plain_def owner_repo_def is_control_def show_int_def show_nat.simps [of 7] digit_char_def char_of_def bit_0)+
  have mint: "mint_for token_env ''o'' ''r'' 0 new_client () = (Inr (''t'', 60 * minute), \<lparr>gh_tokens = [], gh_ids = [(''o/r'', 7)]\<rparr>, ())"
    using u by (simp add: mint_for_def app_jwt_def token_env_def cached_installation_id_def new_client_def installation_id_def
        app_request_def mint_token_def owner_repo_def)
  have run: "\<exists>c. token_run token_env ?calls new_client = ([Inr ''t'', Inr ''t''], c)"
    using mint by (simp add: installation_token_def token_at_def usable_token_def new_client_def owner_repo_def early_refresh_def time_units Let_def)
  then obtain c where c: "token_run token_env ?calls new_client = ([Inr ''t'', Inr ''t''], c)" ..
  from token_served_early [OF c, of "Suc 0" "token_at (30 * minute)" "()" "''t''"] have
    "\<exists>j expires_at. j \<le> Suc 0 \<and> minted token_env ?calls new_client ! j = Some (Inr (''t'', expires_at))"
    by (simp add: token_at_def) blast
  with c show ?thesis by blast
qed

lemma read_limited_Inr: "read_limited b = Inr data \<longleftrightarrow> b = (data, None) \<and> length data \<le> max_response_bytes"
  by (cases b) (auto simp: read_limited_def limited_def split: option.splits if_splits)

text \<open>What a file read returns. \<open>GetFile\<close> answers with content only when the spelling names a repository, a
  token for that very repository was obtained, the request for that path and ref carried it and was
  answered 200, and then it answers with the whole body, which is at most ten megabytes; nothing truncated
  is ever returned.\<close>

theorem get_file_bounded:
  assumes "get_file env tc repo ref path c w = (Inr data, c', w')"
  shows "length data \<le> 10485760 \<and>
     (\<exists>owner name tok w1 resp. parse_owner_repo repo = Some (owner, name) \<and>
        installation_token env (repo_call owner name tc) c w = (Inr tok, c', w1) \<and>
        ge_http env (get_request owner name ref path tok github_raw) w1 = (Inr resp, w') \<and>
        hp_status resp = 200 \<and> hp_body resp = (data, None))"
  using assms
  by (auto simp: get_file_def read_limited_Inr max_response_bytes_def split: option.splits prod.splits sum.splits if_splits)

theorem get_file_bounded_witness:
  "\<exists>data c'. get_file (token_env\<lparr>ge_http := (\<lambda>req w. (Inr \<lparr>hp_status = 200, hp_body = (hq_path req, None)\<rparr>, w))\<rparr>)
      (token_at 0\<lparr>tc_joined := Some (Inr ''t'')\<rparr>) ''github.com/o/r'' [] ''/a.yaml'' new_client () = (Inr data, c', ()) \<and>
     data = ''/repos/o/r/contents/a.yaml'' \<and> length data \<le> 10485760"
proof -
  let ?env = "token_env\<lparr>ge_http := (\<lambda>req w. (Inr \<lparr>hp_status = 200, hp_body = (hq_path req, None)\<rparr>, w))\<rparr>"
  have run: "get_file ?env (token_at 0\<lparr>tc_joined := Some (Inr ''t'')\<rparr>) ''github.com/o/r'' [] ''/a.yaml'' new_client () =
      (Inr ''/repos/o/r/contents/a.yaml'', new_client, ())"
    by (simp add: get_file_def parse_owner_repo_def trim_suffix_def has_suffix_def trim_prefix_def has_prefix_def cut_at_def
        installation_token_def repo_call_def token_at_def usable_token_def new_client_def get_request_def contents_path_def
        token_env_def read_limited_def limited_def max_response_bytes_def Let_def)
  from run get_file_bounded [OF run] show ?thesis by blast
qed

text \<open>A commit goes to the file that was read: for a path without \<open>#\<close>, \<open>?\<close>, \<open>%\<close> and control characters
  (likewise owner and name) the request \<open>PutFile\<close> sends names the path of the request \<open>GetFileWithSHA\<close> sent,
  without a query.\<close>

theorem put_where_read:
  assumes "url_plain (owner @ name @ path)"
  shows "\<exists>req. file_put_request env owner name path tok body = Some req \<and>
     hq_path req = hq_path (get_request owner name ref path tok accept) \<and> hq_query req = [] \<and> hq_auth req = ''token '' @ tok"
proof -
  have "url_plain (trim_prefix path ''/'')"
    using assms by (auto simp: trim_prefix_def url_plain_def list_all_iff dest: in_set_dropD)
  then have "url_plain (contents_path owner name path)"
    using assms by (simp add: contents_path_def) (simp add: url_plain_def is_control_def)
  from parse_url_plain [OF this] show ?thesis by (simp add: file_put_request_def get_request_def)
qed

theorem put_where_read_witness:
  "\<exists>req. file_put_request token_env ''o'' ''r'' ''apps/web.yaml'' ''t'' \<lparr>pr_message = [], pr_content = [], pr_sha = [], pr_branch = []\<rparr> = Some req \<and>
     hq_path req = ''/repos/o/r/contents/apps/web.yaml''"
  using put_where_read [of "''o''" "''r''" "''apps/web.yaml''" token_env "''t''" "\<lparr>pr_message = [], pr_content = [], pr_sha = [], pr_branch = []\<rparr>" "[]" "[]"]
  by (simp add: url_plain_def is_control_def get_request_def contents_path_def trim_prefix_def has_prefix_def) blast

text \<open>With such a character in the path, the file that is written is another one than was read.\<close>

theorem put_elsewhere:
  "\<exists>req. file_put_request env ''o'' ''r'' ''a#b.yaml'' tok body = Some req \<and>
     hq_path req = hq_path (get_request ''o'' ''r'' ref ''a'' tok accept) \<and>
     hq_path req \<noteq> hq_path (get_request ''o'' ''r'' ref ''a#b.yaml'' tok accept)"
  by (simp add: file_put_request_def parse_url_def before_def get_request_def contents_path_def trim_prefix_def has_prefix_def
      cut_at_def is_control_def)

end
