(* ===== verification/Imageupdater.thy ===== *)
theory Imageupdater
  imports Manifest Registry Githubapp
begin

text \<open>
  The image updater (\<open>internal/imageupdater\<close>): the digest line of a manifest is found by a regular expression
  and rewritten in place, and the result is committed when the digest the track or version resolves to has
  moved. The expression is the matcher \<open>match_here\<close> at a line start, with the leftmost-first choices the
  pattern has; its replacement template is expanded as \<open>Regexp.Expand\<close> does.
\<close>

section \<open>The digest line\<close>

text \<open>The class \<open>\s\<close>.\<close>

definition is_space :: "char \<Rightarrow> bool" where
  "is_space c \<longleftrightarrow> c \<in> {CHR 0x09, CHR 0x0A, CHR 0x0C, CHR 0x0D, CHR '' ''}"

text \<open>\<open>["']?\<close>, greedily.\<close>

definition opt_quote :: "string \<Rightarrow> string \<times> string" where
  "opt_quote s = (case s of c # cs \<Rightarrow> if c = CHR 0x22 \<or> c = CHR 0x27 then ([c], cs) else ([], s) | [] \<Rightarrow> ([], []))"

text \<open>
  \<open>["']?\s*(?:#.*)?$\<close>: the whole run of spaces if the text or a comment follows it to the end of a line, else
  the run up to its last line break.
\<close>

definition match_tail :: "string \<Rightarrow> (string \<times> string) option" where
  "match_tail s =
     (let (q, r) = opt_quote s; ws = takeWhile is_space r; r1 = dropWhile is_space r in
      case r1 of
        [] \<Rightarrow> Some (q @ ws, [])
      | c # _ \<Rightarrow>
          if c = CHR ''#'' then Some (q @ ws @ takeWhile (\<lambda>x. x \<noteq> CHR 0x0A) r1, dropWhile (\<lambda>x. x \<noteq> CHR 0x0A) r1)
          else if CHR 0x0A \<in> set ws
          then (let after = rev (takeWhile (\<lambda>x. x \<noteq> CHR 0x0A) (rev ws)); n = length ws - length after - 1
                in Some (q @ take n ws, drop n ws @ r1))
          else None)"

record digest_match =
  dm_before :: string
  dm_digest :: string
  dm_after :: string

text \<open>A match that begins here, where a line begins, and what follows it.\<close>

definition match_here :: "string \<Rightarrow> (digest_match \<times> string) option" where
  "match_here s =
     (let ws1 = takeWhile is_space s; r1 = dropWhile is_space s in
      case cut_prefix r1 ''digest:'' of
        None \<Rightarrow> None
      | Some r2 \<Rightarrow>
          let ws2 = takeWhile is_space r2; (q, r3) = opt_quote (dropWhile is_space r2) in
          case cut_prefix r3 ''sha256:'' of
            None \<Rightarrow> None
          | Some r4 \<Rightarrow>
              let hex = take 64 r4 in
              if length hex = 64 \<and> list_all is_hex hex
              then map_option (\<lambda>(a, rest).
                     (\<lparr>dm_before = ws1 @ ''digest:'' @ ws2 @ q, dm_digest = ''sha256:'' @ hex, dm_after = a\<rparr>, rest))
                     (match_tail (drop 64 r4))
              else None)"

definition matched_text :: "digest_match \<Rightarrow> string" where
  "matched_text m = dm_before m @ dm_digest m @ dm_after m"

lemma opt_quote_split: "opt_quote s = (q, r) \<Longrightarrow> s = q @ r"
  by (auto simp: opt_quote_def split: list.splits if_splits)

lemma match_tail_split:
  assumes "match_tail s = Some (a, rest)"
  shows "s = a @ rest"
proof -
  obtain q r where q: "opt_quote s = (q, r)" by (metis surj_pair)
  have "a @ rest = q @ takeWhile is_space r @ dropWhile is_space r"
    using assms by (cases "dropWhile is_space r") (auto simp: match_tail_def q Let_def split: if_splits)
  with opt_quote_split [OF q] show ?thesis by simp
qed

lemma match_here_split:
  assumes "match_here s = Some (m, rest)"
  shows "s = matched_text m @ rest \<and> wf_digest (dm_digest m) \<and> (\<exists>ws1 ws2 q. dm_before m = ws1 @ ''digest:'' @ ws2 @ q)"
proof -
  define ws1 r1 where "ws1 = takeWhile is_space s" and "r1 = dropWhile is_space s"
  then have s: "s = ws1 @ r1" by simp
  obtain r2 where r2: "cut_prefix r1 ''digest:'' = Some r2"
    using assms by (auto simp: match_here_def r1_def Let_def split: option.splits)
  define ws2 where "ws2 = takeWhile is_space r2"
  obtain q r3 where q: "opt_quote (dropWhile is_space r2) = (q, r3)" by (metis surj_pair)
  have r2_split: "r2 = ws2 @ q @ r3" using opt_quote_split [OF q] by (metis takeWhile_dropWhile_id ws2_def)
  obtain r4 where r4: "cut_prefix r3 ''sha256:'' = Some r4"
    using assms r2 q by (auto simp: match_here_def r1_def Let_def split: option.splits)
  have hex: "length (take 64 r4) = 64" "list_all is_hex (take 64 r4)"
    and tail: "\<exists>a. match_tail (drop 64 r4) = Some (a, rest) \<and>
      m = \<lparr>dm_before = ws1 @ ''digest:'' @ ws2 @ q, dm_digest = ''sha256:'' @ take 64 r4, dm_after = a\<rparr>"
    using assms r2 q r4 by (auto simp: match_here_def r1_def ws1_def ws2_def Let_def split: if_splits)
  then obtain a where a: "match_tail (drop 64 r4) = Some (a, rest)"
      "m = \<lparr>dm_before = ws1 @ ''digest:'' @ ws2 @ q, dm_digest = ''sha256:'' @ take 64 r4, dm_after = a\<rparr>" by blast
  have "r4 = take 64 r4 @ a @ rest" using match_tail_split [OF a(1)] by (metis append_take_drop_id)
  then have "s = matched_text m @ rest"
    using s r2 r2_split r4 by (simp add: a(2) matched_text_def cut_prefix_Some)
  moreover have "wf_digest (dm_digest m)" using hex by (auto simp: a(2) wf_digest_def)
  ultimately show ?thesis by (auto simp: a(2))
qed

lemma match_here_shorter: "match_here s = Some (m, rest) \<Longrightarrow> length rest < length s"
  using match_here_split [of s m rest] by (auto simp: matched_text_def)

text \<open>
  All matches from left to right, each with the text since the one before, and the text after the last. The
  flag says whether a line begins here.
\<close>

function digest_matches :: "bool \<Rightarrow> string \<Rightarrow> (string \<times> digest_match) list \<times> string" where
  "digest_matches line_start s =
     (case (if line_start then match_here s else None) of
        Some (m, rest) \<Rightarrow>
          let (ms, end_text) = digest_matches (last (matched_text m) = CHR 0x0A) rest in (([], m) # ms, end_text)
      | None \<Rightarrow>
         (case s of
            [] \<Rightarrow> ([], [])
          | c # cs \<Rightarrow>
             (case digest_matches (c = CHR 0x0A) cs of
                ([], end_text) \<Rightarrow> ([], c # end_text)
              | ((pre, m) # ms, end_text) \<Rightarrow> ((c # pre, m) # ms, end_text))))"
  by pat_completeness auto
termination
  by (relation "measure (\<lambda>(line_start, s). length s)") (auto split: if_splits dest: match_here_shorter)

declare digest_matches.simps [simp del]

text \<open>\<open>Regexp.Expand\<close>: \<open>extract\<close> reads the name after a dollar sign, \<open>expand_template\<close> replaces it.\<close>

definition is_name_char :: "char \<Rightarrow> bool" where
  "is_name_char c \<longleftrightarrow> is_word_char c \<and> c \<noteq> CHR ''-''"

definition extract_name :: "string \<Rightarrow> (string \<times> string) option" where
  "extract_name s =
     (let (brace, t) = (case s of c # cs \<Rightarrow> if c = CHR ''{'' then (True, cs) else (False, s) | [] \<Rightarrow> (False, []));
          name = takeWhile is_name_char t; rest = dropWhile is_name_char t
      in if name = [] then None
         else if brace then (case rest of c # cs \<Rightarrow> if c = CHR ''}'' then Some (name, cs) else None | [] \<Rightarrow> None)
         else Some (name, rest))"

definition group_text :: "digest_match \<Rightarrow> string \<Rightarrow> string" where
  "group_text m name =
     (if name = ''0'' then matched_text m else if name = ''1'' then dm_before m else if name = ''2'' then dm_after m else [])"

lemma extract_name_shorter: "extract_name s = Some (name, rest) \<Longrightarrow> length rest < length s"
proof -
  have drop: "length (dropWhile p t) < length t" if "takeWhile p t \<noteq> []" for p and t :: string
    using that by (cases t) (auto simp: le_imp_less_Suc length_dropWhile_le split: if_splits)
  assume "extract_name s = Some (name, rest)"
  then show ?thesis
    using drop [of is_name_char s] drop [of is_name_char "tl s"]
    by (auto simp: extract_name_def Let_def less_Suc_eq_le length_dropWhile_le split: list.splits if_splits)
qed

function expand_template :: "digest_match \<Rightarrow> string \<Rightarrow> string" where
  "expand_template m [] = []"
| "expand_template m (c # cs) =
     (if c \<noteq> CHR ''$'' then c # expand_template m cs
      else case cs of
        [] \<Rightarrow> [c]
      | d # ds \<Rightarrow>
          if d = CHR ''$'' then c # expand_template m ds
          else (case extract_name cs of
                  None \<Rightarrow> c # expand_template m cs
                | Some (name, rest) \<Rightarrow> group_text m name @ expand_template m rest))"
  by pat_completeness auto
termination
  by (relation "measure (\<lambda>(m, s). length s)") (auto dest!: extract_name_shorter)

declare expand_template.simps [simp del]

section \<open>Rewriting and committing\<close>

datatype rewrite_error = DigestLines nat | RewrittenInvalid manifest_error | RewrittenDigest string

definition rewrite_digest :: "(string \<Rightarrow> string + service_def) \<Rightarrow> string \<Rightarrow> string \<Rightarrow> rewrite_error + string" where
  "rewrite_digest unmarshal data new_digest =
     (let (ms, end_text) = digest_matches True data in
      if length ms \<noteq> 1 then Inl (DigestLines (length ms))
      else
        let template = ''${1}'' @ new_digest @ ''${2}'';
            rewritten = concat (map (\<lambda>(pre, m). pre @ expand_template m template) ms) @ end_text
        in case manifest_parse unmarshal rewritten of
             Inl e \<Rightarrow> Inl (RewrittenInvalid e)
           | Inr sd \<Rightarrow>
               if im_digest (sd_image sd) \<noteq> new_digest then Inl (RewrittenDigest (im_digest (sd_image sd)))
               else Inr rewritten)"

record ('w, 'e) github =
  gi_get :: "string \<Rightarrow> string \<Rightarrow> string \<Rightarrow> 'w \<Rightarrow> ('e + string \<times> string) \<times> 'w"
  gi_put :: "string \<Rightarrow> string \<Rightarrow> string \<Rightarrow> string \<Rightarrow> string \<Rightarrow> string \<Rightarrow> 'w \<Rightarrow> 'e option \<times> 'w"

text \<open>The GitHub App client in that role; every call looks at its tokens when it is made.\<close>

definition github_client :: "'w gh_env \<Rightarrow> token_call \<Rightarrow> (gh_client \<times> 'w, gh_error) github" where
  "github_client env tc =
     \<lparr>gi_get = (\<lambda>repo ref path (c, w). let (r, c1, w1) = get_file_with_sha env tc repo ref path c w in (r, c1, w1)),
      gi_put = (\<lambda>repo branch path msg content sha (c, w).
        let (r, c1, w1) = put_file env tc repo branch path msg content sha c w in (r, c1, w1))\<rparr>"

record manifest_ref =
  mr_repo :: string
  mr_path :: string
  mr_branch :: string

datatype 'e update_error =
    UpdateFetch manifest_ref 'e
  | UpdateParse manifest_ref manifest_error
  | UpdateTags string string
  | UpdateResolve manifest_ref registry_error
  | UpdateRewrite manifest_ref rewrite_error
  | UpdateCommit manifest_ref 'e

definition update_message :: "manifest_ref \<Rightarrow> string \<Rightarrow> string" where
  "update_message mr digest = ''imageupdater: '' @ mr_path mr @ '' -> '' @ digest"

definition image_update ::
  "(string \<Rightarrow> string + service_def) \<Rightarrow> semver_lib \<Rightarrow> ('w, 'e) github \<Rightarrow>
   (string \<Rightarrow> 'w \<Rightarrow> (string + tag list) \<times> 'w) \<Rightarrow> manifest_ref \<Rightarrow> 'w \<Rightarrow> ('e update_error + string) \<times> 'w" where
  "image_update unmarshal sv gh list_tags_of mr w =
     (case gi_get gh (mr_repo mr) (mr_branch mr) (mr_path mr) w of
        (Inl e, w1) \<Rightarrow> (Inl (UpdateFetch mr e), w1)
      | (Inr (data, sha), w1) \<Rightarrow>
         (case manifest_parse unmarshal data of
            Inl e \<Rightarrow> (Inl (UpdateParse mr e), w1)
          | Inr sd \<Rightarrow>
              let img = sd_image sd in
              if im_track img = [] \<and> im_version img = [] then (Inr [], w1)
              else case list_tags_of (im_repository img) w1 of
                (Inl e, w2) \<Rightarrow> (Inl (UpdateTags (im_repository img) e), w2)
              | (Inr tags, w2) \<Rightarrow>
                 (case resolve sv tags (im_track img) (im_version img) (path_base (im_repository img)) of
                    Inl e \<Rightarrow> (Inl (UpdateResolve mr e), w2)
                  | Inr resolved \<Rightarrow>
                      if resolved = im_digest img then (Inr [], w2)
                      else case rewrite_digest unmarshal data resolved of
                        Inl e \<Rightarrow> (Inl (UpdateRewrite mr e), w2)
                      | Inr rewritten \<Rightarrow>
                         (case gi_put gh (mr_repo mr) (mr_branch mr) (mr_path mr) (update_message mr resolved) rewritten sha w2 of
                            (Some e, w3) \<Rightarrow> (Inl (UpdateCommit mr e), w3)
                          | (None, w3) \<Rightarrow> (Inr resolved, w3)))))"

section \<open>Lemmas\<close>

lemma digest_matches_split:
  "digest_matches line_start s = (ms, end_text) \<Longrightarrow>
     s = concat (map (\<lambda>(pre, m). pre @ matched_text m) ms) @ end_text \<and>
     (\<forall>(pre, m) \<in> set ms. wf_digest (dm_digest m) \<and> (\<exists>a b q. dm_before m = a @ ''digest:'' @ b @ q))"
proof (induction line_start s arbitrary: ms end_text rule: digest_matches.induct)
  case (1 line_start s)
  show ?case
  proof (cases "if line_start then match_here s else None")
    case (Some mr)
    obtain m rest where mr: "mr = (m, rest)" by (cases mr)
    obtain ms1 e1 where found: "digest_matches (last (matched_text m) = CHR 0x0A) rest = (ms1, e1)" by (metis surj_pair)
    have "match_here s = Some (m, rest)" using Some mr by (auto split: if_splits)
    note split = match_here_split [OF this]
    have "ms = ([], m) # ms1" "end_text = e1" using 1(3) Some mr found by (simp_all add: digest_matches.simps [of line_start s])
    then show ?thesis using 1(2) [OF Some mr [symmetric] found] split by auto
  next
    case None
    show ?thesis
    proof (cases s)
      case Nil
      have "digest_matches line_start s = ([], [])"
        unfolding digest_matches.simps [of line_start s] None using Nil by simp
      with 1(3) Nil show ?thesis by simp
    next
      case (Cons c cs)
      obtain ms1 e1 where found: "digest_matches (c = CHR 0x0A) cs = (ms1, e1)" by (metis surj_pair)
      note IH = 1(1) [OF None Cons found]
      have eq: "digest_matches line_start s =
          (case ms1 of [] \<Rightarrow> ([], c # e1) | p # ms' \<Rightarrow> ((c # fst p, snd p) # ms', e1))"
        unfolding digest_matches.simps [of line_start s] None using Cons found by (simp split: list.split prod.split)
      show ?thesis using 1(3) eq IH Cons
        by (cases ms1) (simp_all add: case_prod_beta)
    qed
  qed
qed

lemma expand_plain:
  "CHR ''$'' \<notin> set nd \<Longrightarrow> expand_template m (nd @ t) = nd @ expand_template m t"
  by (induction nd) (auto simp: expand_template.simps(2))

lemma expand_replacement:
  assumes "CHR ''$'' \<notin> set nd"
  shows "expand_template m (''${1}'' @ nd @ ''${2}'') = dm_before m @ nd @ dm_after m"
proof -
  have name: "is_name_char (CHR ''1'')" "is_name_char (CHR ''2'')" "\<not> is_name_char (CHR ''}'')"
    by (simp_all add: is_name_char_def is_word_char_def is_digit_def less_eq_char_def)
  have "expand_template m ''${2}'' = dm_after m"
    by (simp add: expand_template.simps extract_name_def name group_text_def)
  moreover have "expand_template m (''${1}'' @ t) = dm_before m @ expand_template m t" for t
    by (simp add: expand_template.simps(2) [of m "CHR ''$''"] extract_name_def name group_text_def)
  ultimately show ?thesis using expand_plain [OF assms, of m "''${2}''"] by simp
qed

text \<open>Nothing but the digest of one digest line differs.\<close>

definition digest_replaced :: "string \<Rightarrow> string \<Rightarrow> string \<Rightarrow> bool" where
  "digest_replaced data new_digest out \<longleftrightarrow>
     (\<exists>a b old post. data = a @ ''digest:'' @ b @ old @ post \<and> out = a @ ''digest:'' @ b @ new_digest @ post \<and>
        wf_digest old \<and> wf_digest new_digest)"

lemma manifest_parse_wf_digest:
  "manifest_parse unmarshal data = Inr sd \<Longrightarrow> wf_digest (im_digest (sd_image sd))"
  by (auto simp: manifest_parse_def first_some_Cons Let_def validate_image_None wf_image_def split: sum.splits if_splits option.splits)

lemma wf_digest_no_dollar: "wf_digest d \<Longrightarrow> CHR ''$'' \<notin> set d"
proof
  assume "wf_digest d" "CHR ''$'' \<in> set d"
  then have "is_hex (CHR ''$'')" by (auto simp: wf_digest_def list_all_iff)
  then show False by (simp add: is_hex_def is_digit_def less_eq_char_def)
qed

lemma rewrite_digest_Inr:
  assumes "rewrite_digest unmarshal data nd = Inr out"
  shows "digest_replaced data nd out \<and> (\<exists>sd. manifest_parse unmarshal out = Inr sd \<and> im_digest (sd_image sd) = nd)"
proof -
  obtain ms e where ms: "digest_matches True data = (ms, e)" by (metis surj_pair)
  have len: "length ms = 1" using assms ms by (auto simp: rewrite_digest_def split: if_splits)
  then obtain pre m where m: "ms = [(pre, m)]" by (cases ms) (auto simp: length_Suc_conv)
  obtain sd where sd: "manifest_parse unmarshal out = Inr sd" "im_digest (sd_image sd) = nd"
    and out: "out = pre @ expand_template m (''${1}'' @ nd @ ''${2}'') @ e"
    using assms ms m by (auto simp: rewrite_digest_def Let_def split: sum.splits if_splits)
  have nd: "wf_digest nd" using manifest_parse_wf_digest [OF sd(1)] sd(2) by simp
  obtain a b q where split: "data = pre @ matched_text m @ e" "wf_digest (dm_digest m)" "dm_before m = a @ ''digest:'' @ b @ q"
    using digest_matches_split [OF ms] m by auto
  have "out = (pre @ a) @ ''digest:'' @ (b @ q) @ nd @ (dm_after m @ e)"
    using out expand_replacement [OF wf_digest_no_dollar [OF nd]] split(3) by simp
  moreover have "data = (pre @ a) @ ''digest:'' @ (b @ q) @ dm_digest m @ (dm_after m @ e)"
    using split(1,3) by (simp add: matched_text_def)
  ultimately show ?thesis using split(2) nd sd unfolding digest_replaced_def by blast
qed

lemma image_update_commit:
  assumes "image_update unmarshal sv gh list_tags_of mr w = (Inr nd, w')" and "nd \<noteq> []"
  obtains data sha w1 sd tags w2 out where
    "gi_get gh (mr_repo mr) (mr_branch mr) (mr_path mr) w = (Inr (data, sha), w1)"
    "manifest_parse unmarshal data = Inr sd" "im_track (sd_image sd) \<noteq> [] \<or> im_version (sd_image sd) \<noteq> []"
    "list_tags_of (im_repository (sd_image sd)) w1 = (Inr tags, w2)"
    "resolve sv tags (im_track (sd_image sd)) (im_version (sd_image sd)) (path_base (im_repository (sd_image sd))) = Inr nd"
    "nd \<noteq> im_digest (sd_image sd)" "rewrite_digest unmarshal data nd = Inr out"
    "gi_put gh (mr_repo mr) (mr_branch mr) (mr_path mr) (update_message mr nd) out sha w2 = (None, w')"
  using assms that by (auto simp: image_update_def Let_def split: prod.splits sum.splits if_splits option.splits)

section \<open>Properties\<close>

text \<open>C26: a rewritten manifest differs from the original in the digest of one digest line and in nothing else,
  quotes, comments, blank lines and line breaks included, whatever the digest is made of; and parsing it
  yields the new digest.\<close>

theorem rewrite_digest_exact:
  assumes "rewrite_digest unmarshal data nd = Inr out"
  shows "(\<exists>a b old post. data = a @ ''digest:'' @ b @ old @ post \<and> out = a @ ''digest:'' @ b @ nd @ post \<and>
       wf_digest old \<and> wf_digest nd) \<and>
     (\<exists>sd. manifest_parse unmarshal out = Inr sd \<and> im_digest (sd_image sd) = nd)"
  using rewrite_digest_Inr [OF assms] by (simp add: digest_replaced_def)


text \<open>The updater settles. After a commit, as long as GitHub serves what was committed, the track, version
  and repository of the manifest still parse as before and the tags are the same, the next update finds
  nothing to do and commits nothing.\<close>

theorem image_update_settles:
  assumes "image_update unmarshal sv gh list_tags_of mr w = (Inr nd, w')" and "nd \<noteq> []"
    and "gi_get gh (mr_repo mr) (mr_branch mr) (mr_path mr) w = (Inr (data, sha), w1)"
    and "\<And>out msg w2. gi_put gh (mr_repo mr) (mr_branch mr) (mr_path mr) msg out sha w2 = (None, w') \<Longrightarrow>
        \<exists>sha'. gi_get gh (mr_repo mr) (mr_branch mr) (mr_path mr) w' = (Inr (out, sha'), w3)"
    and "\<And>out sd sd'. digest_replaced data nd out \<Longrightarrow> manifest_parse unmarshal data = Inr sd \<Longrightarrow>
        manifest_parse unmarshal out = Inr sd' \<Longrightarrow> sd_image sd' = (sd_image sd)\<lparr>im_digest := im_digest (sd_image sd')\<rparr>"
    and "\<And>repo. fst (list_tags_of repo w3) = fst (list_tags_of repo w1)"
  shows "fst (image_update unmarshal sv gh list_tags_of mr w') = Inr []"
proof -
  obtain data' sha' u sd tags u2 out where c:
    "gi_get gh (mr_repo mr) (mr_branch mr) (mr_path mr) w = (Inr (data', sha'), u)"
    "manifest_parse unmarshal data' = Inr sd" "im_track (sd_image sd) \<noteq> [] \<or> im_version (sd_image sd) \<noteq> []"
    "list_tags_of (im_repository (sd_image sd)) u = (Inr tags, u2)"
    "resolve sv tags (im_track (sd_image sd)) (im_version (sd_image sd)) (path_base (im_repository (sd_image sd))) = Inr nd"
    "rewrite_digest unmarshal data' nd = Inr out"
    "gi_put gh (mr_repo mr) (mr_branch mr) (mr_path mr) (update_message mr nd) out sha' u2 = (None, w')"
    by (rule image_update_commit [OF assms(1,2)])
  have same: "data' = data" "sha' = sha" "u = w1" using assms(3) c(1) by simp_all
  obtain sha2 where get: "gi_get gh (mr_repo mr) (mr_branch mr) (mr_path mr) w' = (Inr (out, sha2), w3)"
    using assms(4) c(7) same by blast
  obtain sd' where sd': "manifest_parse unmarshal out = Inr sd'" "im_digest (sd_image sd') = nd"
    and rep: "digest_replaced data nd out" using rewrite_digest_Inr [OF c(6)] same by blast
  have img: "sd_image sd' = (sd_image sd)\<lparr>im_digest := nd\<rparr>" using assms(5) [OF rep c(2) [unfolded same] sd'(1)] sd'(2) by simp
  obtain v2 where "list_tags_of (im_repository (sd_image sd)) w3 = (Inr tags, v2)"
    using assms(6) [of "im_repository (sd_image sd)"] c(4) same by (metis fst_conv prod.collapse)
  then show ?thesis
    using get sd'(1) img c(3,5) by (simp add: image_update_def Let_def)
qed

section \<open>An instance\<close>

text \<open>
  One file in a repository whose world is its content; reading it leaves it, committing replaces it. The
  decoder reads the digest after the first \<open>sha256:\<close>.
\<close>

definition one_file :: "(string, string) github" where
  "one_file = \<lparr>gi_get = (\<lambda>_ _ _ w. (Inr (w, ''blob''), w)), gi_put = (\<lambda>_ _ _ _ content _ w. (None, content))\<rparr>"

fun digest_in :: "string \<Rightarrow> string" where
  "digest_in [] = []"
| "digest_in (c # cs) = (if has_prefix (c # cs) ''sha256:'' then take 71 (c # cs) else digest_in cs)"

definition decode_image :: "string \<Rightarrow> string + service_def" where
  "decode_image data = Inr (example_service\<lparr>sd_image := \<lparr>im_digest = digest_in data, im_track = ''stable'', im_version = [],
      im_repository = ''eu-docker.pkg.dev/p/r/i''\<rparr>\<rparr>)"

definition digest_of :: "char \<Rightarrow> string" where
  "digest_of c = ''sha256:'' @ replicate 64 c"

definition file_with :: "string \<Rightarrow> string" where
  "file_with d = ''image: # pinned'' @ CHR 0x0A # ''  digest: '' @ d @ '' # by ci'' @ [CHR 0x0A]"

definition stable_tags :: "string \<Rightarrow> string \<Rightarrow> (string + tag list) \<times> string" where
  "stable_tags repo w = (Inr [\<lparr>tag_name = ''stable'', tag_digest = digest_of (CHR ''b'')\<rparr>], w)"

lemma digest_of_wf: "is_hex c \<Longrightarrow> wf_digest (digest_of c)"
  by (simp add: wf_digest_def digest_of_def list_all_iff)

lemma file_decoded:
  assumes "is_hex c"
  shows "manifest_parse decode_image (file_with (digest_of c)) =
     Inr (default_resource_type (example_service\<lparr>sd_image := \<lparr>im_digest = digest_of c, im_track = ''stable'', im_version = [],
      im_repository = ''eu-docker.pkg.dev/p/r/i''\<rparr>\<rparr>))"
proof -
  have "digest_in (file_with (digest_of c)) = digest_of c"
    by (simp add: file_with_def has_prefix_def digest_of_def)
  then have dec: "decode_image (file_with (digest_of c)) = Inr (example_service\<lparr>sd_image := \<lparr>im_digest = digest_of c, im_track = ''stable'', im_version = [],
      im_repository = ''eu-docker.pkg.dev/p/r/i''\<rparr>\<rparr>)" by (simp add: decode_image_def)
  have "wf_service (default_resource_type (example_service\<lparr>sd_image := \<lparr>im_digest = digest_of c, im_track = ''stable'', im_version = [],
      im_repository = ''eu-docker.pkg.dev/p/r/i''\<rparr>\<rparr>))"
    using example_service_wf digest_of_wf [OF assms]
    by (auto simp: wf_service_def default_resource_type_def env_names_def wf_image_def split: if_splits)
  moreover have "distinct (keys (sd_env example_service))" by (simp add: example_service_def keys_def)
  ultimately show ?thesis
    using dec by (subst manifest_parse_Inr) auto
qed

lemma file_matches:
  "digest_matches True (file_with (digest_of (CHR ''a''))) =
     ([(''image: # pinned'' @ [CHR 0x0A], \<lparr>dm_before = ''  digest: '', dm_digest = digest_of (CHR ''a''), dm_after = '' # by ci''\<rparr>)], [CHR 0x0A])"
  by code_simp

lemma rewrite_digest_one:
  assumes "digest_matches True data = ([(pre, m)], e)" and "pre @ expand_template m (''${1}'' @ nd @ ''${2}'') @ e = out"
    and "manifest_parse unmarshal out = Inr sd" and "im_digest (sd_image sd) = nd"
  shows "rewrite_digest unmarshal data nd = Inr out"
  using assms by (simp add: rewrite_digest_def Let_def)

lemma hex_ab [simp]: "is_hex (CHR ''a'')" "is_hex (CHR ''b'')"
  by (simp_all add: is_hex_def less_eq_char_def)

lemma rewritten_file:
  "rewrite_digest decode_image (file_with (digest_of (CHR ''a''))) (digest_of (CHR ''b'')) = Inr (file_with (digest_of (CHR ''b'')))"
proof -
  let ?m = "\<lparr>dm_before = ''  digest: '', dm_digest = digest_of (CHR ''a''), dm_after = '' # by ci''\<rparr>"
  have "expand_template ?m (''${1}'' @ digest_of (CHR ''b'') @ ''${2}'') = ''  digest: '' @ digest_of (CHR ''b'') @ '' # by ci''"
    using expand_replacement [OF wf_digest_no_dollar [OF digest_of_wf [OF hex_ab(2)]], of ?m] by simp
  then show ?thesis
    by (intro rewrite_digest_one [OF file_matches _ file_decoded [OF hex_ab(2)]]) (simp_all add: file_with_def)
qed

definition one_manifest :: manifest_ref where
  "one_manifest = \<lparr>mr_repo = ''o/r'', mr_path = ''web.yaml'', mr_branch = []\<rparr>"

lemma settled_update:
  "image_update decode_image sv one_file stable_tags one_manifest (file_with (digest_of (CHR ''a''))) =
     (Inr (digest_of (CHR ''b'')), file_with (digest_of (CHR ''b'')))"
proof -
  have "digest_of (CHR ''b'') \<noteq> digest_of (CHR ''a'')" by (simp add: digest_of_def replicate_eq_replicate)
  then show ?thesis
    using rewritten_file
    by (simp add: image_update_def one_file_def stable_tags_def file_decoded Let_def resolve_def one_manifest_def)
qed

theorem rewrite_digest_exact_witness:
  "\<exists>a b old post. file_with (digest_of (CHR ''a'')) = a @ ''digest:'' @ b @ old @ post \<and>
     file_with (digest_of (CHR ''b'')) = a @ ''digest:'' @ b @ digest_of (CHR ''b'') @ post"
  using rewrite_digest_exact [OF rewritten_file] by blast


theorem image_update_settles_witness:
  "\<forall>sv. fst (image_update decode_image sv one_file stable_tags one_manifest (file_with (digest_of (CHR ''b'')))) = Inr []"
proof (rule allI, rule image_update_settles [OF settled_update])
  show "digest_of (CHR ''b'') \<noteq> []" by (simp add: digest_of_def)
  show "gi_get one_file (mr_repo one_manifest) (mr_branch one_manifest) (mr_path one_manifest) (file_with (digest_of (CHR ''a''))) =
      (Inr (file_with (digest_of (CHR ''a'')), ''blob''), file_with (digest_of (CHR ''a'')))" by (simp add: one_file_def)
  show "\<exists>sha'. gi_get one_file (mr_repo one_manifest) (mr_branch one_manifest) (mr_path one_manifest) (file_with (digest_of (CHR ''b''))) =
      (Inr (out, sha'), file_with (digest_of (CHR ''b'')))"
    if "gi_put one_file (mr_repo one_manifest) (mr_branch one_manifest) (mr_path one_manifest) msg out ''blob'' w2 = (None, file_with (digest_of (CHR ''b'')))"
    for out msg w2 using that by (simp add: one_file_def)
  show "sd_image sd' = (sd_image sd)\<lparr>im_digest := im_digest (sd_image sd')\<rparr>"
    if "manifest_parse decode_image (file_with (digest_of (CHR ''a''))) = Inr sd" "manifest_parse decode_image out = Inr sd'" for out sd sd'
    using that by (auto simp: manifest_parse_def decode_image_def Let_def default_resource_type_def split: option.splits if_splits)
  show "fst (stable_tags repo (file_with (digest_of (CHR ''b'')))) = fst (stable_tags repo (file_with (digest_of (CHR ''a''))))" for repo
    by (simp add: stable_tags_def)
qed

end
