(* ===== verification/Tag_Client.thy ===== *)
theory Tag_Client
  imports Imageupdater
begin

text \<open>
  The resolver the controller gives the image updater and, as its tag resolver, the reconciler
  (\<open>internal/imageupdater/gcp.go\<close>): one registry client with its cache of tags. The updater runs over the
  world it shares with GitHub beside that cache, and what it commits is resolved from tags Artifact Registry
  listed recently, whoever asked for them.
\<close>

section \<open>The resolver\<close>

text \<open>
  A call of \<open>ListTags\<close> that looks at \<open>t1\<close> and, leading the repository's flight, lists the images at \<open>t2\<close> and
  stores them at \<open>t3\<close>; with \<open>joined\<close> it shares the result of a flight in progress. What Artifact Registry
  lists at an instant is the parameter \<open>ar\<close>.
\<close>

definition registry_call ::
  "(time \<Rightarrow> string \<Rightarrow> image_listing) \<Rightarrow> string \<Rightarrow> time \<Rightarrow> time \<Rightarrow> (registry_error + tag list) option \<Rightarrow> time \<Rightarrow>
     (string, registry_error, tag list) call" where
  "registry_call ar repository t1 t2 joined t3 =
     Call repository t1 t2
       (case joined of Some r \<Rightarrow> Join r | None \<Rightarrow> Lead (list_tags_uncached (ar t2) repository)) t3"

text \<open>\<open>GCPResolver.ListTags\<close>: the client's own, which \<open>NewClient\<close> left without a \<open>cacheTTL\<close>. The call made for a
  repository is the parameter \<open>at\<close>, the text of an error, which \<open>Update\<close> only wraps, the parameter \<open>text\<close>.\<close>

definition gcp_list_tags ::
  "(registry_error \<Rightarrow> string) \<Rightarrow> (string \<Rightarrow> (string, registry_error, tag list) call) \<Rightarrow> string \<Rightarrow>
     'w \<times> tags_cache \<Rightarrow> (string + tag list) \<times> ('w \<times> tags_cache)" where
  "gcp_list_tags text at repository = (\<lambda>(w, cache).
     let cl = at repository;
         (r, cache') = list_tags 0 repository (call_t1 cl) (call_t2 cl) (call_flight cl) (call_t3 cl) cache
     in (case r of Inl e \<Rightarrow> Inl (text e) | Inr tags \<Rightarrow> Inr tags, w, cache'))"

text \<open>GitHub's part of the world beside the cache, which it does not touch.\<close>

definition beside_cache :: "('w, 'e) github \<Rightarrow> ('w \<times> tags_cache, 'e) github" where
  "beside_cache gh =
     \<lparr>gi_get = (\<lambda>repo ref path (w, cache). let (r, w1) = gi_get gh repo ref path w in (r, w1, cache)),
      gi_put = (\<lambda>repo branch path msg content sha (w, cache).
        let (r, w1) = gi_put gh repo branch path msg content sha w in (r, w1, cache))\<rparr>"

definition gcp_image_update ::
  "(string \<Rightarrow> string + service_def) \<Rightarrow> semver_lib \<Rightarrow> ('w, 'e) github \<Rightarrow> (registry_error \<Rightarrow> string) \<Rightarrow>
   (string \<Rightarrow> (string, registry_error, tag list) call) \<Rightarrow> manifest_ref \<Rightarrow> 'w \<times> tags_cache \<Rightarrow>
   ('e update_error + string) \<times> ('w \<times> tags_cache)" where
  "gcp_image_update unmarshal sv gh text at =
     image_update unmarshal sv (beside_cache gh) (gcp_list_tags text at)"

section \<open>What the cache justifies\<close>

lemma registry_call_simps [simp]:
  "call_key (registry_call ar r t1 t2 j t3) = r" "call_t1 (registry_call ar r t1 t2 j t3) = t1"
  "call_t2 (registry_call ar r t1 t2 j t3) = t2" "call_t3 (registry_call ar r t1 t2 j t3) = t3"
  "call_flight (registry_call ar r t1 t2 j t3) = Lead (Inr tags) \<longleftrightarrow> j = None \<and> list_tags_uncached (ar t2) r = Inr tags"
  "call_flight (registry_call ar r t1 t2 j t3) = Join x \<longleftrightarrow> j = Some x"
  by (auto simp: registry_call_def split: option.splits)

text \<open>Calls as the client makes them.\<close>

definition client_call :: "(time \<Rightarrow> string \<Rightarrow> image_listing) \<Rightarrow> (string, registry_error, tag list) call \<Rightarrow> bool" where
  "client_call ar cl \<longleftrightarrow> (\<exists>j. cl = registry_call ar (call_key cl) (call_t1 cl) (call_t2 cl) j (call_t3 cl))"

lemma client_call_registry_call [simp]: "client_call ar (registry_call ar r t1 t2 j t3)"
  by (auto simp: client_call_def)

lemma client_call_led:
  assumes "client_call ar cl" and "call_flight cl = Lead (Inr tags)"
  shows "list_tags_uncached (ar (call_t2 cl)) (call_key cl) = Inr tags"
proof -
  obtain j where "cl = registry_call ar (call_key cl) (call_t1 cl) (call_t2 cl) j (call_t3 cl)"
    using assms(1) unfolding client_call_def by blast
  then show ?thesis using assms(2) registry_call_simps(5) by metis
qed

text \<open>The tags a repository had at an instant whose listing the cache may still serve to the call \<open>cl\<close>.\<close>

definition listed_recently ::
  "(time \<Rightarrow> string \<Rightarrow> image_listing) \<Rightarrow> (string, registry_error, tag list) call list \<Rightarrow>
     (string, registry_error, tag list) call \<Rightarrow> tag list \<Rightarrow> bool" where
  "listed_recently ar cls cl tags \<longleftrightarrow>
     (\<exists>t. list_tags_uncached (ar t) (call_key cl) = Inr tags \<and>
        (t = call_t2 cl \<or>
         (\<exists>cl' \<in> set cls. call_key cl' = call_key cl \<and> call_t2 cl' = t \<and>
            (call_t1 cl - call_t3 cl' < 30 * second \<or> call_t2 cl - call_t3 cl' < 30 * second))))"

lemma may_serve_recent:
  assumes "may_serve (within (tags_ttl 0)) (fetches cls) cl tags" and "\<forall>cl' \<in> set cls. client_call ar cl'"
    and "client_call ar cl"
  shows "call_flight cl = Join (Inr tags) \<or> listed_recently ar cls cl tags"
proof -
  consider "call_flight cl = Lead (Inr tags)" | "call_flight cl = Join (Inr tags)"
    | cl' where "cl' \<in> set cls" "call_key cl' = call_key cl" "call_flight cl' = Lead (Inr tags)"
      "call_t1 cl - call_t3 cl' < tags_ttl 0 \<or> call_t2 cl - call_t3 cl' < tags_ttl 0"
    using assms(1) by (auto simp: may_serve_def in_fetches within_def)
  then show ?thesis
  proof cases
    case 1
    then show ?thesis using client_call_led [OF assms(3)] unfolding listed_recently_def by blast
  next
    case 3
    have "list_tags_uncached (ar (call_t2 cl')) (call_key cl) = Inr tags"
      using client_call_led [of ar cl' tags] assms(2) 3 by simp
    moreover have "tags_ttl 0 = 30 * second" by (simp add: tags_ttl_def default_tags_cache_ttl_def)
    ultimately show ?thesis using 3 unfolding listed_recently_def by auto
  qed blast
qed

lemma gcp_list_tags_Inr:
  assumes "gcp_list_tags text at repository (w, cache) = (Inr tags, s)" and "call_key (at repository) = repository"
  obtains cache' where "s = (w, cache')" "cached_get (fresh (tags_ttl 0)) stamp (at repository) cache = (Inr tags, cache')"
proof -
  have "list_tags 0 repository (call_t1 (at repository)) (call_t2 (at repository)) (call_flight (at repository))
      (call_t3 (at repository)) = cached_get (fresh (tags_ttl 0)) stamp (at repository)"
    using assms(2) by (simp add: list_tags_cached_get) (metis call.collapse)
  then show ?thesis using assms(1) that
    by (auto simp: gcp_list_tags_def Let_def split: prod.splits sum.splits)
qed

lemma beside_cache_get:
  "gi_get (beside_cache gh) repo ref path (w, cache) = (Inr x, s) \<Longrightarrow>
     \<exists>w1. s = (w1, cache) \<and> gi_get gh repo ref path w = (Inr x, w1)"
  by (auto simp: beside_cache_def split: prod.splits)

section \<open>Properties\<close>

text \<open>
  What the updater commits is current. Whatever calls the client has served before, its own or the
  reconciler's, a committed digest is what the manifest's track or version resolves to among tags that
  Artifact Registry listed during this call, or in a flight it joined, or at most thirty seconds after
  they were stored by an earlier call for the same repository.
\<close>

theorem committed_digest_recent:
  assumes "run_calls (cached_get (fresh (tags_ttl 0)) stamp) cls [] = (rs, cache)"
    and "\<forall>cl \<in> set cls. client_call ar cl"
    and "\<And>r. client_call ar (at r)" and "\<And>r. call_key (at r) = r"
    and "gcp_image_update unmarshal sv gh text at mr (w, cache) = (Inr nd, s)" and "nd \<noteq> []"
  shows "\<exists>data sha w1 sd tags.
     gi_get gh (mr_repo mr) (mr_branch mr) (mr_path mr) w = (Inr (data, sha), w1) \<and>
     manifest_parse unmarshal data = Inr sd \<and>
     resolve sv tags (im_track (sd_image sd)) (im_version (sd_image sd)) (path_base (im_repository (sd_image sd))) = Inr nd \<and>
     (call_flight (at (im_repository (sd_image sd))) = Join (Inr tags) \<or>
      listed_recently ar cls (at (im_repository (sd_image sd))) tags)"
proof -
  obtain data sha s1 sd tags s2 where c:
    "gi_get (beside_cache gh) (mr_repo mr) (mr_branch mr) (mr_path mr) (w, cache) = (Inr (data, sha), s1)"
    "manifest_parse unmarshal data = Inr sd"
    "gcp_list_tags text at (im_repository (sd_image sd)) s1 = (Inr tags, s2)"
    "resolve sv tags (im_track (sd_image sd)) (im_version (sd_image sd)) (path_base (im_repository (sd_image sd))) = Inr nd"
    using image_update_commit [OF assms(5) [unfolded gcp_image_update_def] assms(6)] by metis
  obtain w1 where w1: "s1 = (w1, cache)" "gi_get gh (mr_repo mr) (mr_branch mr) (mr_path mr) w = (Inr (data, sha), w1)"
    using beside_cache_get [OF c(1)] by blast
  let ?cl = "at (im_repository (sd_image sd))"
  obtain cache' where get: "cached_get (fresh (tags_ttl 0)) stamp ?cl cache = (Inr tags, cache')"
    using gcp_list_tags_Inr [OF c(3) [unfolded w1(1)] assms(4)] by blast
  have "may_serve (within (tags_ttl 0)) (fetches cls) ?cl tags"
    by (rule tags.cached_get_served [OF tags.run_calls_justified [OF assms(1)] get])
  then have "call_flight ?cl = Join (Inr tags) \<or> listed_recently ar cls ?cl tags"
    by (rule may_serve_recent [OF _ assms(2) assms(3)])
  then show ?thesis using w1(2) c(2,4) by blast
qed

section \<open>An instance\<close>

text \<open>A registry whose one image carries the tag \<open>stable\<close>; the repository was listed a second before the update.\<close>

definition stable_registry :: "time \<Rightarrow> string \<Rightarrow> image_listing" where
  "stable_registry t parent =
     ([\<lparr>di_uri = ''eu-docker.pkg.dev/p/r/i@'' @ digest_of (CHR ''b''), di_tags = [''stable'']\<rparr>], None)"

definition call_at :: "time \<Rightarrow> string \<Rightarrow> (string, registry_error, tag list) call" where
  "call_at t r = registry_call stable_registry r t t None t"

lemma stable_listing:
  "list_tags_uncached (stable_registry t) ''eu-docker.pkg.dev/p/r/i'' =
     Inr [\<lparr>tag_name = ''stable'', tag_digest = digest_of (CHR ''b'')\<rparr>]"
proof -
  have "list_tags_uncached (stable_registry 0) ''eu-docker.pkg.dev/p/r/i'' =
      Inr [\<lparr>tag_name = ''stable'', tag_digest = digest_of (CHR ''b'')\<rparr>]" by code_simp
  then show ?thesis by (simp add: stable_registry_def [abs_def])
qed

lemma call_at_simps [simp]: "client_call stable_registry (call_at t r)" "call_key (call_at t r) = r"
  "call_t1 (call_at t r) = t" "call_t2 (call_at t r) = t" "call_t3 (call_at t r) = t"
  "call_flight (call_at t r) = Lead (list_tags_uncached (stable_registry t) r)"
  by (simp_all add: call_at_def) (simp add: registry_call_def)

text \<open>The listing of instant 0 serves the update one second later.\<close>

lemma first_listing:
  "run_calls (cached_get (fresh (tags_ttl 0)) stamp) [call_at 0 ''eu-docker.pkg.dev/p/r/i''] [] =
     ([Inr [\<lparr>tag_name = ''stable'', tag_digest = digest_of (CHR ''b'')\<rparr>]],
      [(''eu-docker.pkg.dev/p/r/i'', [\<lparr>tag_name = ''stable'', tag_digest = digest_of (CHR ''b'')\<rparr>], 0)])"
  by (simp add: cached_get_def fresh_def stamp_def stable_listing)

lemma served_tags:
  "gcp_list_tags text (call_at second) r (w, [(r, tags, 0)]) = (Inr tags, w, [(r, tags, 0)])"
  by (simp add: gcp_list_tags_def list_tags_def tags_ttl_def default_tags_cache_ttl_def second_def)

lemma one_file_beside:
  "gi_get (beside_cache one_file) repo ref path (w, c) = (Inr (w, ''blob''), w, c)"
  "gi_put (beside_cache one_file) repo branch path msg content sha (w, c) = (None, content, c)"
  by (simp_all add: beside_cache_def one_file_def)

lemma served_update:
  "gcp_image_update decode_image sv one_file (\<lambda>_. []) (call_at second) one_manifest
     (file_with (digest_of (CHR ''a'')),
      [(''eu-docker.pkg.dev/p/r/i'', [\<lparr>tag_name = ''stable'', tag_digest = digest_of (CHR ''b'')\<rparr>], 0)]) =
   (Inr (digest_of (CHR ''b'')), file_with (digest_of (CHR ''b'')),
      [(''eu-docker.pkg.dev/p/r/i'', [\<lparr>tag_name = ''stable'', tag_digest = digest_of (CHR ''b'')\<rparr>], 0)])"
proof -
  have "digest_of (CHR ''b'') \<noteq> digest_of (CHR ''a'')" by (simp add: digest_of_def replicate_eq_replicate)
  then show ?thesis
    using rewritten_file
    by (simp add: gcp_image_update_def image_update_def one_file_beside served_tags file_decoded Let_def resolve_def)
qed

theorem committed_digest_recent_witness:
  "\<exists>tags. listed_recently stable_registry [call_at 0 ''eu-docker.pkg.dev/p/r/i'']
      (call_at second ''eu-docker.pkg.dev/p/r/i'') tags \<and>
     resolve plain_semver tags ''stable'' [] ''i'' = Inr (digest_of (CHR ''b''))"
proof -
  have "digest_of (CHR ''b'') \<noteq> []" by (simp add: digest_of_def)
  from committed_digest_recent [where ar = stable_registry, OF first_listing _ _ _ served_update [where sv = plain_semver] this]
  have "\<exists>data sha w1 sd tags.
     gi_get one_file (mr_repo one_manifest) (mr_branch one_manifest) (mr_path one_manifest) (file_with (digest_of (CHR ''a''))) =
       (Inr (data, sha), w1) \<and>
     manifest_parse decode_image data = Inr sd \<and>
     resolve plain_semver tags (im_track (sd_image sd)) (im_version (sd_image sd)) (path_base (im_repository (sd_image sd))) =
       Inr (digest_of (CHR ''b'')) \<and>
     listed_recently stable_registry [call_at 0 ''eu-docker.pkg.dev/p/r/i''] (call_at second (im_repository (sd_image sd))) tags"
    by simp
  then obtain data sha w1 sd tags where r:
    "gi_get one_file (mr_repo one_manifest) (mr_branch one_manifest) (mr_path one_manifest) (file_with (digest_of (CHR ''a''))) =
       (Inr (data, sha), w1)"
    "manifest_parse decode_image data = Inr sd"
    "resolve plain_semver tags (im_track (sd_image sd)) (im_version (sd_image sd)) (path_base (im_repository (sd_image sd))) =
       Inr (digest_of (CHR ''b''))"
    "listed_recently stable_registry [call_at 0 ''eu-docker.pkg.dev/p/r/i''] (call_at second (im_repository (sd_image sd))) tags"
    by blast
  have "data = file_with (digest_of (CHR ''a''))" using r(1) by (simp add: one_file_def)
  with r(2) have "sd_image sd = \<lparr>im_digest = digest_of (CHR ''a''), im_track = ''stable'', im_version = [],
      im_repository = ''eu-docker.pkg.dev/p/r/i''\<rparr>" by (auto simp: file_decoded)
  with r(3,4) show ?thesis by (auto simp: path_base_def resolve_def)
qed

end
