(* ===== verification/Leadership.thy ===== *)
theory Leadership
  imports Leader
begin

text \<open>
  What a replica does with its leadership (\<open>cmd/controller/main.go\<close>): \<open>leadershipContext\<close>, the context a
  reconcile pass runs under, and \<open>runLeaderElection\<close>, which runs the lease again after an error. A
  context is a number; a context that has been handed out is live until it is cancelled. The replicas
  of \<open>Leader\<close> are put together with their contexts, and refine a register that at most one pass holds.
\<close>

section \<open>The context of a term\<close>

record leadership_context =
  lx_ctx :: nat
  lx_cancelled :: "nat list"
  lx_made :: nat

definition new_leadership_context :: leadership_context where
  "new_leadership_context = \<lparr>lx_ctx = 0, lx_cancelled = [0], lx_made = 1\<rparr>"

definition set_leading :: "bool \<Rightarrow> leadership_context \<Rightarrow> leadership_context" where
  "set_leading leading l =
     (let cancelled = lx_ctx l # lx_cancelled l; ctx = lx_made l in
      \<lparr>lx_ctx = ctx, lx_cancelled = (if leading then cancelled else ctx # cancelled), lx_made = ctx + 1\<rparr>)"

definition current_context :: "leadership_context \<Rightarrow> nat" where
  "current_context l = lx_ctx l"

text \<open>\<open>ctx.Err() == nil\<close>, for a context that was made.\<close>

definition live :: "leadership_context \<Rightarrow> nat \<Rightarrow> bool" where
  "live l c \<longleftrightarrow> c < lx_made l \<and> c \<notin> set (lx_cancelled l)"

text \<open>The callbacks of a run of the lease.\<close>

definition report :: "bool list \<Rightarrow> leadership_context \<Rightarrow> leadership_context" where
  "report cbs l = fold set_leading cbs l"

section \<open>The election loop\<close>

definition initial_backoff :: int where "initial_backoff = second"
definition max_backoff :: int where "max_backoff = 30 * second"
definition reset_backoff_after :: int where "reset_backoff_after = 2 * minute"

text \<open>One run of the lease: how long it lasted, and what its claims were answered.\<close>

record session =
  sn_lasted :: int
  sn_first :: "string + bool"
  sn_events :: "run_event list"

text \<open>The waits between the runs, each with the contexts as they are while it lasts.\<close>

fun election_loop ::
  "int \<Rightarrow> session list \<Rightarrow> leadership_context \<Rightarrow> (int \<times> leadership_context) list \<times> leadership_context" where
  "election_loop backoff [] l = ([], l)"
| "election_loop backoff (s # ss) l =
     (let (res, cbs) = run (sn_first s) (sn_events s); l1 = report cbs l in
      case res of
        ClaimError e \<Rightarrow>
          let backoff = (if sn_lasted s \<ge> reset_backoff_after then initial_backoff else backoff);
              (waits, l2) = election_loop (if 2 * backoff > max_backoff then max_backoff else 2 * backoff) ss l1
          in ((backoff, l1) # waits, l2)
      | _ \<Rightarrow> ([], l1))"

definition run_leader_election ::
  "session list \<Rightarrow> leadership_context \<Rightarrow> (int \<times> leadership_context) list \<times> leadership_context" where
  "run_leader_election = election_loop initial_backoff"

section \<open>All replicas with their contexts\<close>

record replicas =
  rp_lease :: lease_state
  rp_contexts :: "string \<Rightarrow> leadership_context"

inductive replicas_step :: "replicas \<Rightarrow> replicas \<Rightarrow> bool" where
  clock: "0 \<le> d \<Longrightarrow> \<forall>h. le_leading s h \<longrightarrow> le_clock s + d \<le> le_renewed s h + renew_interval + query_timeout \<Longrightarrow>
     replicas_step \<lparr>rp_lease = s, rp_contexts = ls\<rparr> \<lparr>rp_lease = s\<lparr>le_clock := le_clock s + d\<rparr>, rp_contexts = ls\<rparr>"
| attempt: "claim h (le_clock s) fault (le_row s) = (answer, row) \<Longrightarrow>
     attempt answer (le_leading s h) = (err, leads, cbs) \<Longrightarrow>
     replicas_step \<lparr>rp_lease = s, rp_contexts = ls\<rparr>
       \<lparr>rp_lease = s\<lparr>le_row := row, le_leading := (le_leading s)(h := leads),
          le_renewed := (if answer = Inr True then (le_renewed s)(h := le_clock s) else le_renewed s)\<rparr>,
        rp_contexts = ls(h := report cbs (ls h))\<rparr>"
| stop: "replicas_step \<lparr>rp_lease = s, rp_contexts = ls\<rparr>
     \<lparr>rp_lease = s\<lparr>le_leading := (le_leading s)(h := False)\<rparr>,
      rp_contexts = ls(h := report (if le_leading s h then [False] else []) (ls h))\<rparr>"

inductive_cases replicas_stepE: "replicas_step r r'"

inductive replicas_reachable :: "replicas \<Rightarrow> bool" where
  init: "\<forall>h. \<not> le_leading (rp_lease r) h \<Longrightarrow> \<forall>h. rp_contexts r h = new_leadership_context \<Longrightarrow> replicas_reachable r"
| step: "replicas_reachable r \<Longrightarrow> replicas_step r r' \<Longrightarrow> replicas_reachable r'"

section \<open>Lemmas\<close>

text \<open>Every context made before the current one is cancelled.\<close>

definition contexts_ok :: "leadership_context \<Rightarrow> bool" where
  "contexts_ok l \<longleftrightarrow> lx_ctx l < lx_made l \<and> set (lx_cancelled l) \<subseteq> {..<lx_made l} \<and>
     (\<forall>c < lx_made l. c \<noteq> lx_ctx l \<longrightarrow> c \<in> set (lx_cancelled l))"

abbreviation leads_now :: "leadership_context \<Rightarrow> bool" where
  "leads_now l \<equiv> live l (lx_ctx l)"

lemma contexts_ok_new [simp]: "contexts_ok new_leadership_context" "\<not> live new_leadership_context c"
  by (auto simp: contexts_ok_def new_leadership_context_def live_def)

lemma live_current: "contexts_ok l \<Longrightarrow> live l c \<Longrightarrow> c = lx_ctx l"
  by (auto simp: contexts_ok_def live_def)

lemma set_leading_ok:
  assumes "contexts_ok l"
  shows "contexts_ok (set_leading leading l)" "leads_now (set_leading leading l) = leading"
  using assms by (auto simp: contexts_ok_def set_leading_def Let_def live_def less_Suc_eq)

lemma report_simps [simp]: "report [] l = l" "report (b # cbs) l = report cbs (set_leading b l)"
  by (simp_all add: report_def)

lemma report_ok:
  assumes "contexts_ok l"
  shows "contexts_ok (report cbs l) \<and> leads_now (report cbs l) = (if cbs = [] then leads_now l else last cbs)"
  using assms by (induction cbs arbitrary: l) (auto simp: set_leading_ok)

lemma not_live_report: "c < lx_made l \<Longrightarrow> \<not> live l c \<Longrightarrow> c < lx_made (report cbs l) \<and> \<not> live (report cbs l) c"
proof (induction cbs arbitrary: l)
  case (Cons b cbs)
  have "c < lx_made (set_leading b l) \<and> \<not> live (set_leading b l) c"
    using Cons.prems by (auto simp: set_leading_def Let_def live_def)
  then show ?case using Cons.IH by simp
qed simp

lemma made_report: "lx_made l \<le> lx_made (report cbs l)"
proof (induction cbs arbitrary: l)
  case (Cons b cbs)
  have "lx_made l \<le> lx_made (set_leading b l)" by (simp add: set_leading_def Let_def)
  with Cons.IH [of "set_leading b l"] show ?case by simp
qed simp

lemma attempt_callbacks: "attempt answer was = (err, leads, cbs) \<Longrightarrow> cbs = (if leads = was then [] else [leads])"
  by (auto simp: attempt_def split: sum.splits if_splits)

definition replicas_inv :: "replicas \<Rightarrow> bool" where
  "replicas_inv r \<longleftrightarrow> lease_inv (rp_lease r) \<and>
     (\<forall>h. contexts_ok (rp_contexts r h) \<and> leads_now (rp_contexts r h) = le_leading (rp_lease r) h)"

lemma replicas_lease_step: "replicas_step r r' \<Longrightarrow> lease_step (rp_lease r) (rp_lease r')"
  by (induction rule: replicas_step.induct; simp only: replicas.select_convs; blast intro: lease_step.intros)

text \<open>A step touches one replica, and its context changes only when its leadership does.\<close>

lemma replicas_step_one:
  assumes "replicas_step r r'"
  obtains h cbs where "rp_contexts r' = (rp_contexts r)(h := report cbs (rp_contexts r h))"
    "\<forall>g. g \<noteq> h \<longrightarrow> le_leading (rp_lease r') g = le_leading (rp_lease r) g"
    "cbs = (if le_leading (rp_lease r') h = le_leading (rp_lease r) h then [] else [le_leading (rp_lease r') h])"
  using assms
proof (cases rule: replicas_step.cases)
  case (clock d s ls)
  show ?thesis by (rule that [of _ "[]"]) (simp_all add: clock)
next
  case (attempt h s fault answer row err leads cbs ls)
  show ?thesis by (rule that [of h cbs]) (use attempt attempt_callbacks [OF attempt(4)] in simp_all)
next
  case (stop s ls h)
  show ?thesis by (rule that [of h "if le_leading s h then [False] else []"]) (simp_all add: stop)
qed

lemma replicas_step_inv:
  assumes "replicas_step r r'" and "replicas_inv r"
  shows "replicas_inv r'"
proof -
  obtain h cbs where one: "rp_contexts r' = (rp_contexts r)(h := report cbs (rp_contexts r h))"
    "\<forall>g. g \<noteq> h \<longrightarrow> le_leading (rp_lease r') g = le_leading (rp_lease r) g"
    "cbs = (if le_leading (rp_lease r') h = le_leading (rp_lease r) h then [] else [le_leading (rp_lease r') h])"
    using replicas_step_one [OF assms(1)] .
  have "contexts_ok (rp_contexts r' g) \<and> leads_now (rp_contexts r' g) = le_leading (rp_lease r') g" for g
    using one assms(2) report_ok [of "rp_contexts r h" cbs] by (cases "g = h") (auto simp: replicas_inv_def split: if_splits)
  then show ?thesis
    using assms(2) lease_step_inv [OF replicas_lease_step [OF assms(1)]] by (simp add: replicas_inv_def)
qed

lemma replicas_reachable_inv: "replicas_reachable r \<Longrightarrow> replicas_inv r"
proof (induction rule: replicas_reachable.induct)
  case (init r)
  then show ?case by (simp add: replicas_inv_def lease_inv_init)
next
  case (step r r')
  then show ?case by (rule_tac replicas_step_inv)
qed

lemma live_leads:
  assumes "replicas_inv r" and "live (rp_contexts r h) c"
  shows "c = lx_ctx (rp_contexts r h) \<and> le_leading (rp_lease r) h"
  using assms live_current by (auto simp: replicas_inv_def)

lemma live_unique:
  assumes "replicas_inv r" and "live (rp_contexts r h) c" and "live (rp_contexts r g) d"
  shows "g = h \<and> d = c"
proof -
  have "g = h"
    using live_leads [OF assms(1,2)] live_leads [OF assms(1,3)] assms(1) lease_inv_leader [of "rp_lease r"]
    by (auto simp: replicas_inv_def)
  then show ?thesis using live_leads [OF assms(1,2)] live_leads [OF assms(1,3)] by simp
qed

section \<open>The register that is refined\<close>

text \<open>
  A pass may be held by one replica under one context, is given up or revoked before it is granted
  again, and a context that has been given up never holds it again.
\<close>

record pass_register =
  pg_holder :: "(string \<times> nat) option"
  pg_revoked :: "(string \<times> nat) set"

inductive register_step :: "pass_register \<Rightarrow> pass_register \<Rightarrow> bool" where
  keep: "pg_revoked g \<subseteq> R \<Longrightarrow> \<forall>p \<in> R. pg_holder g \<noteq> Some p \<Longrightarrow> register_step g (g\<lparr>pg_revoked := R\<rparr>)"
| revoke: "pg_holder g = Some p \<Longrightarrow> insert p (pg_revoked g) \<subseteq> R \<Longrightarrow>
     register_step g \<lparr>pg_holder = None, pg_revoked = R\<rparr>"
| grant: "pg_holder g = None \<Longrightarrow> p \<notin> R \<Longrightarrow> pg_revoked g \<subseteq> R \<Longrightarrow>
     register_step g \<lparr>pg_holder = Some p, pg_revoked = R\<rparr>"

text \<open>The register that a state of the replicas shows.\<close>

definition shows_register :: "replicas \<Rightarrow> pass_register \<Rightarrow> bool" where
  "shows_register r g \<longleftrightarrow>
     (\<forall>h c. live (rp_contexts r h) c \<longleftrightarrow> pg_holder g = Some (h, c)) \<and>
     pg_revoked g = {(h, c). c < lx_made (rp_contexts r h) \<and> \<not> live (rp_contexts r h) c}"

lemma shows_register_ex:
  assumes "replicas_inv r"
  obtains g where "shows_register r g"
proof -
  let ?R = "{(h, c). c < lx_made (rp_contexts r h) \<and> \<not> live (rp_contexts r h) c}"
  show ?thesis
  proof (cases "\<exists>h c. live (rp_contexts r h) c")
    case True
    then obtain h c where "live (rp_contexts r h) c" by blast
    then have "shows_register r \<lparr>pg_holder = Some (h, c), pg_revoked = ?R\<rparr>"
      using live_unique [OF assms] by (auto simp: shows_register_def)
    then show ?thesis by (rule that)
  next
    case False
    then have "shows_register r \<lparr>pg_holder = None, pg_revoked = ?R\<rparr>" by (simp add: shows_register_def)
    then show ?thesis by (rule that)
  qed
qed

lemma revoked_grows:
  assumes "replicas_step r r'" and "shows_register r g" and "shows_register r' g'"
  shows "pg_revoked g \<subseteq> pg_revoked g'"
proof
  fix p
  assume "p \<in> pg_revoked g"
  then obtain h c where p: "p = (h, c)" "c < lx_made (rp_contexts r h)" "\<not> live (rp_contexts r h) c"
    using assms(2) by (auto simp: shows_register_def)
  obtain j cbs where "rp_contexts r' = (rp_contexts r)(j := report cbs (rp_contexts r j))"
    using replicas_step_one [OF assms(1)] .
  then have "c < lx_made (rp_contexts r' h) \<and> \<not> live (rp_contexts r' h) c"
    using p(2,3) not_live_report [of c "rp_contexts r h" cbs] by (cases "h = j") auto
  then show "p \<in> pg_revoked g'" using assms(3) p(1) by (simp add: shows_register_def)
qed

lemma register_eq: "pg_holder g' = h \<Longrightarrow> \<lparr>pg_holder = h, pg_revoked = pg_revoked g'\<rparr> = g'"
  by simp

lemma not_revoked: "shows_register r g \<Longrightarrow> pg_holder g = Some p \<Longrightarrow> p \<notin> pg_revoked g"
  by (cases p) (simp add: shows_register_def)

lemma revoked_holder:
  assumes "replicas_step r r'" and "shows_register r g" and "shows_register r' g'"
    and "pg_holder g = Some p" and "pg_holder g' \<noteq> Some p"
  shows "p \<in> pg_revoked g'"
proof -
  obtain h c where p: "p = (h, c)" by (cases p)
  obtain j cbs where one: "rp_contexts r' = (rp_contexts r)(j := report cbs (rp_contexts r j))"
    using replicas_step_one [OF assms(1)] .
  have "live (rp_contexts r h) c" "\<not> live (rp_contexts r' h) c" using assms(2-5) p by (auto simp: shows_register_def)
  moreover have "c < lx_made (rp_contexts r' h)"
    using \<open>live (rp_contexts r h) c\<close> made_report [of "rp_contexts r h" cbs] one by (auto simp: live_def)
  ultimately show ?thesis using assms(3) p by (simp add: shows_register_def)
qed

text \<open>The pass is never handed over in one step.\<close>

lemma no_handover:
  assumes "replicas_step r r'" and inv: "replicas_inv r" and "shows_register r g" and "shows_register r' g'"
    and "pg_holder g = Some (h, c)" and "pg_holder g' = Some (k, d)"
  shows "h = k \<and> c = d"
proof -
  obtain j cbs where one: "rp_contexts r' = (rp_contexts r)(j := report cbs (rp_contexts r j))"
    "\<forall>i. i \<noteq> j \<longrightarrow> le_leading (rp_lease r') i = le_leading (rp_lease r) i"
    "cbs = (if le_leading (rp_lease r') j = le_leading (rp_lease r) j then [] else [le_leading (rp_lease r') j])"
    using replicas_step_one [OF assms(1)] .
  have inv': "replicas_inv r'" using replicas_step_inv [OF assms(1) inv] .
  have hc: "live (rp_contexts r h) c" and kd: "live (rp_contexts r' k) d"
    using assms(3-6) by (simp_all add: shows_register_def)
  show ?thesis
  proof (cases "h = j \<and> k = j")
    case True
    then have "cbs = []" using live_leads [OF inv hc] live_leads [OF inv' kd] one(3) by auto
    then show ?thesis using live_unique [OF inv hc, of j d] kd one(1) True by simp
  next
    case False
    then consider "h \<noteq> j" | "k \<noteq> j" by blast
    then show ?thesis
    proof cases
      case 1
      then have "live (rp_contexts r' h) c" using hc one(1) by simp
      then show ?thesis using live_unique [OF inv' _ kd] by auto
    next
      case 2
      then have "live (rp_contexts r k) d" using kd one(1) by simp
      then show ?thesis using live_unique [OF inv hc] by auto
    qed
  qed
qed

section \<open>Waits\<close>

text \<open>How many runs in a row, the given one included, were too short to reset the backoff.\<close>

definition short_runs :: "session list \<Rightarrow> nat \<Rightarrow> nat" where
  "short_runs ss i = length (takeWhile (\<lambda>s. sn_lasted s < reset_backoff_after) (rev (take (Suc i) ss)))"

lemma short_runs_0: "short_runs (s # ss) 0 = (if sn_lasted s < reset_backoff_after then 1 else 0)"
  by (simp add: short_runs_def)

lemma short_runs_Suc:
  assumes "i < length ss"
  shows "short_runs (s # ss) (Suc i) =
     (if short_runs ss i = Suc i then (if sn_lasted s < reset_backoff_after then Suc (Suc i) else Suc i) else short_runs ss i)"
proof (cases "\<forall>x \<in> set (take (Suc i) ss). sn_lasted x < reset_backoff_after")
  case True
  then have all: "takeWhile (\<lambda>s. sn_lasted s < reset_backoff_after) (rev (take (Suc i) ss)) = rev (take (Suc i) ss)"
    by simp
  have "takeWhile (\<lambda>s. sn_lasted s < reset_backoff_after) (rev (take (Suc i) ss) @ [s]) =
      rev (take (Suc i) ss) @ takeWhile (\<lambda>s. sn_lasted s < reset_backoff_after) [s]"
    by (rule takeWhile_append2) (use True in simp)
  then have "short_runs (s # ss) (Suc i) = Suc i + (if sn_lasted s < reset_backoff_after then 1 else 0)"
    using assms unfolding short_runs_def take_Suc_Cons rev.simps by simp
  moreover have "short_runs ss i = Suc i" using assms unfolding short_runs_def all by simp
  ultimately show ?thesis by simp
next
  case False
  then have "length (takeWhile (\<lambda>s. sn_lasted s < reset_backoff_after) (rev (take (Suc i) ss))) \<noteq> length (rev (take (Suc i) ss))"
    by (metis (no_types, lifting) length_rev set_rev set_takeWhileD takeWhile_eq_all_conv takeWhile_eq_take take_all_iff order_refl)
  with False assms show ?thesis by (auto simp: short_runs_def takeWhile_append)
qed

lemma short_runs_le: "short_runs ss i \<le> Suc i"
  unfolding short_runs_def by (rule order_trans [OF length_takeWhile_le]) simp

lemma waits_length: "election_loop b ss l = (waits, l') \<Longrightarrow> length waits \<le> length ss"
  by (induction b ss l arbitrary: waits l' rule: election_loop.induct)
    (auto simp: Let_def split: prod.splits run_result.splits)

lemma doubled_twice:
  assumes "0 < b" and "0 < m"
  shows "min (2 ^ k * min (2 * b) m) m = min (2 ^ Suc k * b) (m :: int)"
proof (cases "2 * b \<le> m")
  case True
  then show ?thesis by (simp add: mult_ac)
next
  case False
  have one: "1 \<le> (2 :: int) ^ k" by simp
  have "m \<le> 2 ^ k * m" using mult_right_mono [OF one, of m] assms(2) by simp
  moreover have "2 * b \<le> 2 ^ Suc k * b" using mult_right_mono [OF one, of "2 * b"] assms(1) by (simp add: mult_ac)
  ultimately show ?thesis using False by simp
qed

lemma election_loop_waits:
  assumes "election_loop b ss l = (waits, l')" and "i < length waits" and "0 < b" and "b \<le> max_backoff"
  shows "fst (waits ! i) = min (2 ^ min i (short_runs ss i) * (if short_runs ss i = Suc i then b else initial_backoff)) max_backoff"
  using assms
proof (induction b ss l arbitrary: waits l' i rule: election_loop.induct)
  case (2 b s ss l)
  obtain res cbs where run: "run (sn_first s) (sn_events s) = (res, cbs)" by (metis surj_pair)
  let ?b = "if sn_lasted s \<ge> reset_backoff_after then initial_backoff else b"
  have pos: "0 < ?b" "?b \<le> max_backoff"
    using "2.prems"(3,4) by (auto simp: initial_backoff_def max_backoff_def time_units)
  have doubled: "(if max_backoff < 2 * ?b then max_backoff else 2 * ?b) = min (2 * ?b) max_backoff" by simp
  obtain e ws where res: "res = ClaimError e" and ws: "waits = (?b, report cbs l) # ws"
    and rest: "election_loop (min (2 * ?b) max_backoff) ss (report cbs l) = (ws, l')"
    using "2.prems"(1,2) run
    by (cases res) (auto simp: Let_def min_def not_less split: prod.splits if_splits)
  show ?case
  proof (cases i)
    case 0
    then show ?thesis using ws pos by (auto simp: short_runs_0 initial_backoff_def max_backoff_def time_units)
  next
    case (Suc k)
    have k: "k < length ws" using "2.prems"(2) Suc ws by simp
    have "length ws \<le> length ss" by (rule waits_length [OF rest])
    with k have len: "k < length ss" by simp
    have le: "short_runs ss k \<le> Suc k" by (simp add: short_runs_le)
    have IH: "fst (ws ! k) = min (2 ^ min k (short_runs ss k) *
        (if short_runs ss k = Suc k then min (2 * ?b) max_backoff else initial_backoff)) max_backoff"
      using "2.IH" [OF refl run [symmetric] refl res refl, unfolded doubled, OF rest k] pos
      by (simp add: max_backoff_def time_units)
    show ?thesis
    proof (cases "short_runs ss k = Suc k")
      case True
      then have "fst (ws ! k) = min (2 ^ Suc k * ?b) max_backoff"
        using IH doubled_twice [OF pos(1), of max_backoff k] by (simp add: max_backoff_def time_units)
      with True Suc ws short_runs_Suc [OF len, of s] show ?thesis by auto
    next
      case False
      with le have "short_runs ss k \<le> k" by simp
      with False IH Suc ws short_runs_Suc [OF len, of s] show ?thesis by simp
    qed
  qed
qed simp

lemma election_loop_idle:
  assumes "election_loop b ss l = (waits, l')" and "i < length waits" and "contexts_ok l" and "\<not> leads_now l"
  shows "contexts_ok (snd (waits ! i)) \<and> \<not> leads_now (snd (waits ! i))"
  using assms
proof (induction b ss l arbitrary: waits l' i rule: election_loop.induct)
  case (2 b s ss l)
  obtain res cbs where run: "run (sn_first s) (sn_events s) = (res, cbs)" by (metis surj_pair)
  let ?b = "if sn_lasted s \<ge> reset_backoff_after then initial_backoff else b"
  obtain e b1 ws where res: "res = ClaimError e" and ws: "waits = (b1, report cbs l) # ws"
    and rest: "election_loop (if 2 * ?b > max_backoff then max_backoff else 2 * ?b) ss (report cbs l) = (ws, l')"
    using "2.prems"(1,2) run by (cases res) (auto simp: Let_def split: prod.splits)
  have idle: "contexts_ok (report cbs l) \<and> \<not> leads_now (report cbs l)"
    using run_loop_callbacks [OF run [unfolded run_def]] res report_ok [OF "2.prems"(3), of cbs] "2.prems"(4)
    by (auto split: if_splits)
  show ?case
  proof (cases i)
    case (Suc k)
    then show ?thesis using "2.IH" [OF refl run [symmetric] refl res refl rest] idle "2.prems"(2) ws by simp
  qed (use idle ws in simp)
qed simp

section \<open>Properties\<close>

text \<open>C6: whatever statements fail, lose their acknowledgement or come late, a live pass context of any
  replica is the context of its current term, that replica holds the unexpired lease, and no other
  context, of this or of any other replica, handed out in whatever term, is live.\<close>

theorem one_live_pass:
  assumes "replicas_reachable r" and "live (rp_contexts r h) c"
  shows "c = current_context (rp_contexts r h) \<and> lr_holder (le_row (rp_lease r)) = h \<and>
     le_clock (rp_lease r) < lr_expires (le_row (rp_lease r)) \<and>
     (\<forall>g d. live (rp_contexts r g) d \<longrightarrow> g = h \<and> d = c)"
proof -
  have inv: "replicas_inv r" using replicas_reachable_inv [OF assms(1)] .
  then show ?thesis
    using live_leads [OF inv assms(2)] live_unique [OF inv assms(2)] lease_inv_leader [of "rp_lease r" h]
    unfolding replicas_inv_def current_context_def by blast
qed

text \<open>C7: the replicas refine a register that at most one pass holds: every step of theirs is a step of the
  register, which keeps its holder, revokes it, or grants the pass when nobody holds it to a context that
  never held it before.\<close>

theorem leadership_refines_register:
  assumes "replicas_reachable r" and "replicas_step r r'"
  shows "\<exists>g g'. shows_register r g \<and> shows_register r' g' \<and> register_step g g'"
proof -
  have inv: "replicas_inv r" "replicas_inv r'"
    using replicas_reachable_inv [OF assms(1)] replicas_step_inv [OF assms(2)] by blast+
  obtain g where g: "shows_register r g" using shows_register_ex [OF inv(1)] .
  obtain g' where g': "shows_register r' g'" using shows_register_ex [OF inv(2)] .
  note grows = revoked_grows [OF assms(2) g g']
  have kept: "register_step g g'" if same: "pg_holder g' = pg_holder g"
  proof -
    have "register_step g (g\<lparr>pg_revoked := pg_revoked g'\<rparr>)"
      by (rule register_step.keep [OF grows]) (use not_revoked [OF g'] same in auto)
    also have "g\<lparr>pg_revoked := pg_revoked g'\<rparr> = g'" using same by simp
    finally show ?thesis .
  qed
  have "register_step g g'"
  proof (cases "pg_holder g'"; cases "pg_holder g")
    fix p
    assume h: "pg_holder g' = None" "pg_holder g = Some p"
    have "insert p (pg_revoked g) \<subseteq> pg_revoked g'"
      using revoked_holder [OF assms(2) g g' h(2)] h(1) grows by simp
    from register_step.revoke [OF h(2) this] show ?thesis by (simp add: register_eq [OF h(1)])
  next
    fix p
    assume h: "pg_holder g' = Some p" "pg_holder g = None"
    show ?thesis
      using register_step.grant [OF h(2) not_revoked [OF g' h(1)] grows] by (simp add: register_eq [OF h(1)])
  next
    fix p q
    assume h: "pg_holder g' = Some p" "pg_holder g = Some q"
    have "q = p"
      using no_handover [OF assms(2) inv(1) g g', of "fst q" "snd q" "fst p" "snd p"] h by (simp add: prod_eq_iff)
    then show ?thesis using kept h by simp
  qed (use kept in simp)
  with g g' show ?thesis by blast
qed

text \<open>Two replicas before and after one of them claims the lease.\<close>

definition idle_replicas :: replicas where
  "idle_replicas = \<lparr>rp_lease = lease_start, rp_contexts = (\<lambda>_. new_leadership_context)\<rparr>"

definition led_replicas :: replicas where
  "led_replicas = \<lparr>rp_lease = lease_start\<lparr>le_row := \<lparr>lr_holder = ''a'', lr_expires = 100 + lease_ttl\<rparr>,
       le_leading := (le_leading lease_start)(''a'' := True), le_renewed := (le_renewed lease_start)(''a'' := le_clock lease_start)\<rparr>,
     rp_contexts = (\<lambda>_. new_leadership_context)(''a'' := report [True] new_leadership_context)\<rparr>"

lemma idle_reachable: "replicas_reachable idle_replicas"
  by (rule replicas_reachable.init) (simp_all add: idle_replicas_def lease_start_def)

lemma led_step: "replicas_step idle_replicas led_replicas"
proof -
  have "claim ''a'' (le_clock lease_start) NoFault (le_row lease_start) =
      (Inr True, \<lparr>lr_holder = ''a'', lr_expires = 100 + lease_ttl\<rparr>)"
    by (simp add: claim_def claim_stmt_def lease_start_def)
  moreover have "attempt (Inr True) (le_leading lease_start ''a'') = (None, True, [True])"
    by (simp add: attempt_def lease_start_def)
  ultimately show ?thesis
    using replicas_step.attempt [of "''a''" lease_start NoFault "Inr True" _ None True "[True]" "\<lambda>_. new_leadership_context"]
    by (simp add: idle_replicas_def led_replicas_def)
qed

lemma led_live: "live (rp_contexts led_replicas ''a'') 1"
  by (simp add: led_replicas_def live_def set_leading_def Let_def new_leadership_context_def)

theorem one_live_pass_witness:
  "current_context (rp_contexts led_replicas ''a'') = 1 \<and> live (rp_contexts led_replicas ''a'') 1 \<and>
     \<not> live (rp_contexts led_replicas ''b'') 0 \<and> lr_holder (le_row (rp_lease led_replicas)) = ''a''"
proof -
  have pass: "1 = current_context (rp_contexts led_replicas ''a'') \<and> lr_holder (le_row (rp_lease led_replicas)) = ''a''"
    using one_live_pass [OF replicas_reachable.step [OF idle_reachable led_step] led_live] by blast
  have "\<not> live (rp_contexts led_replicas ''b'') 0" by (simp add: led_replicas_def)
  with led_live conjunct1 [OF pass, symmetric] conjunct2 [OF pass] show ?thesis by blast
qed

theorem leadership_refines_register_witness:
  "\<exists>g g'. shows_register idle_replicas g \<and> shows_register led_replicas g' \<and> register_step g g' \<and>
     pg_holder g = None \<and> pg_holder g' = Some (''a'', 1)"
proof -
  obtain g g' where g: "shows_register idle_replicas g" "shows_register led_replicas g'" "register_step g g'"
    using leadership_refines_register [OF idle_reachable led_step] by blast
  have "pg_holder g = None"
    using g(1) by (cases "pg_holder g") (auto simp: shows_register_def idle_replicas_def)
  moreover have "pg_holder g' = Some (''a'', 1)" using g(2) led_live by (simp add: shows_register_def)
  ultimately show ?thesis using g by blast
qed

text \<open>C32: the wait before the lease runs again after an error is the initial second doubled once for every
  run since the last one that lasted two minutes, capped at thirty seconds, and while it lasts no pass
  context is live.\<close>

theorem election_backoff:
  assumes "run_leader_election ss new_leadership_context = (waits, l')" and "i < length waits"
  shows "fst (waits ! i) = min (2 ^ min i (short_runs ss i) * second) (30 * second) \<and>
     (\<forall>c. \<not> live (snd (waits ! i)) c)"
proof
  show "fst (waits ! i) = min (2 ^ min i (short_runs ss i) * second) (30 * second)"
    using election_loop_waits [OF assms [unfolded run_leader_election_def]]
    by (simp add: initial_backoff_def max_backoff_def time_units split: if_splits)
  have "contexts_ok (snd (waits ! i)) \<and> \<not> leads_now (snd (waits ! i))"
    using election_loop_idle [OF assms [unfolded run_leader_election_def]] by simp
  then show "\<forall>c. \<not> live (snd (waits ! i)) c" using live_current by metis
qed

text \<open>Three failing runs and one that lasted.\<close>

definition failing :: "int \<Rightarrow> session" where
  "failing d = \<lparr>sn_lasted = d, sn_first = Inr True, sn_events = [Tick (Inl ''down'')]\<rparr>"

theorem election_backoff_witness:
  "\<exists>waits l'. run_leader_election [failing 0, failing second, failing (5 * minute), failing 0] new_leadership_context = (waits, l') \<and>
     map fst waits = [second, 2 * second, second, 2 * second] \<and> (\<forall>c. \<not> live (snd (waits ! 2)) c)"
proof -
  let ?ss = "[failing 0, failing second, failing (5 * minute), failing 0]"
  obtain waits l' where run: "run_leader_election ?ss new_leadership_context = (waits, l')" by (metis surj_pair)
  then have "map fst waits = [second, 2 * second, second, 2 * second]"
    by (auto simp: run_leader_election_def failing_def run_def attempt_def Let_def initial_backoff_def max_backoff_def
        reset_backoff_after_def time_units)
  moreover from this have "length waits = 4" by (auto dest: arg_cong [where f = length])
  ultimately show ?thesis using run election_backoff [OF run, of 2] by auto
qed

end
