(* ===== verification/Controller.thy ===== *)
theory Controller
  imports Api Folders Imageupdater Leadership
begin

text \<open>
  The controller (\<open>cmd/controller/main.go\<close>): what it reads from its environment, how it starts, what it
  loads from the repository, and the tick that reloads configuration and access rules, and, on the
  leader, updates images and reconciles. The clients are a record of functions on the external world.
\<close>

section \<open>Settings\<close>

record settings =
  st_audience :: string
  st_repo :: string
  st_branch :: string
  st_path :: string
  st_app_id :: string
  st_app_pem :: string
  st_rbac_path :: string
  st_http_addr :: string
  st_interval :: int
  st_image_audience :: string
  st_image_account :: string
  st_holder :: string

record config_source =
  cs_repo :: string
  cs_branch :: string
  cs_path :: string
  cs_rbac_path :: string

datatype 'e load_error =
    FetchConfig string 'e
  | InvalidConfig config_error
  | InvalidExpansion expand_error
  | InvalidRbac rbac_error

datatype 'e start_error =
    Required string
  | BadInterval string
  | OpenDatabase string
  | BadMaxConns string
  | ApplySchema string
  | BadGithubApp string
  | BadIapAuth auth_error
  | FolderClient string
  | InitialLoad "'e load_error"
  | ImageClient string
  | MetricsFailed string
  | OpenLeaderDatabase "'e start_error"

fun and_then :: "'e + 'a \<Rightarrow> ('a \<Rightarrow> 'e + 'b) \<Rightarrow> 'e + 'b" where
  "and_then (Inl e) f = Inl e"
| "and_then (Inr a) f = f a"

lemma and_then_Inr: "and_then x f = Inr b \<longleftrightarrow> (\<exists>a. x = Inr a \<and> f a = Inr b)"
  by (cases x) simp_all

definition required_env :: "(string \<Rightarrow> string) \<Rightarrow> string \<Rightarrow> 'e start_error + string" where
  "required_env getenv key = (if getenv key = [] then Inl (Required key) else Inr (getenv key))"

definition env_or_default :: "(string \<Rightarrow> string) \<Rightarrow> string \<Rightarrow> string \<Rightarrow> string" where
  "env_or_default getenv key d = (if getenv key \<noteq> [] then getenv key else d)"

text \<open>\<open>time.ParseDuration\<close> and the random suffix of the holder are arguments.\<close>

definition read_settings :: "(string \<Rightarrow> string) \<Rightarrow> (string \<Rightarrow> int option) \<Rightarrow> string \<Rightarrow> 'e start_error + settings" where
  "read_settings getenv parse_duration random =
     and_then (required_env getenv ''IAP_AUDIENCE'') (\<lambda>audience.
     and_then (required_env getenv ''RUNCD_CONFIG_REPO'') (\<lambda>repo.
     and_then (required_env getenv ''RUNCD_CONFIG_BRANCH'') (\<lambda>branch.
     and_then (required_env getenv ''RUNCD_CONFIG_PATH'') (\<lambda>path.
     and_then (required_env getenv ''GITHUB_APP_ID'') (\<lambda>app_id.
     and_then (required_env getenv ''GITHUB_APP_PEM'') (\<lambda>pem.
       let interval = env_or_default getenv ''RECONCILE_INTERVAL'' ''30s'' in
       case parse_duration interval of
         None \<Rightarrow> Inl (BadInterval interval)
       | Some d \<Rightarrow> Inr \<lparr>st_audience = audience, st_repo = repo, st_branch = branch, st_path = path,
           st_app_id = app_id, st_app_pem = pem, st_rbac_path = env_or_default getenv ''RBAC_PATH'' ''rbac.yaml'',
           st_http_addr = env_or_default getenv ''HTTP_ADDR'' '':8080'', st_interval = d,
           st_image_audience = getenv ''RUNCD_IMAGE_EVENTS_AUDIENCE'',
           st_image_account = getenv ''RUNCD_IMAGE_EVENTS_SERVICE_ACCOUNT'',
           st_holder = env_or_default getenv ''K_REVISION'' ''controller'' @ CHR ''-'' # random\<rparr>))))))"

text \<open>The connection that is opened; what opening it answers is an argument.\<close>

datatype db_target = PlainDatabase string | CloudSql string string

definition open_db ::
  "(string \<Rightarrow> string) \<Rightarrow> (db_target \<Rightarrow> string option) \<Rightarrow> 'e start_error + db_target" where
  "open_db getenv connect =
     (let opened = (\<lambda>target. case connect target of None \<Rightarrow> Inr target | Some e \<Rightarrow> Inl (OpenDatabase e));
          instance_name = getenv ''CLOUDSQL_INSTANCE_CONNECTION_NAME''
      in if instance_name = [] then and_then (required_env getenv ''DATABASE_URL'') (\<lambda>dsn. opened (PlainDatabase dsn))
         else and_then (required_env getenv ''CLOUDSQL_IAM_DB_USER'') (\<lambda>user.
              and_then (required_env getenv ''CLOUDSQL_DB_NAME'') (\<lambda>name.
                opened (CloudSql instance_name (''user='' @ user @ '' dbname='' @ name @ '' sslmode=disable'')))))"

section \<open>Loading\<close>

record ('w, 'e) control_env =
  ce_get_file :: "string \<Rightarrow> string \<Rightarrow> string \<Rightarrow> 'w \<Rightarrow> ('e + string) \<times> 'w"
  ce_dec_root :: "string \<Rightarrow> string + root"
  ce_url :: "string \<Rightarrow> (string \<times> string) option"
  ce_dec_rbac :: "string \<Rightarrow> string + rbac_config"
  ce_folders :: "string list \<Rightarrow> 'w \<Rightarrow> (nat \<Rightarrow> string \<Rightarrow> string + string list) \<times> 'w"
  ce_github :: "('w, 'e) github"
  ce_tags :: "string \<Rightarrow> 'w \<Rightarrow> (string + tag list) \<times> 'w"
  ce_evaluate :: "evaluator \<Rightarrow> rec_error sync_result \<Rightarrow> 'w rec_world \<Rightarrow> 'w rec_world"
  ce_list_names :: "'w \<Rightarrow> string \<Rightarrow> string \<Rightarrow> cloudrun_error + string list"
  ce_validate :: token_validator
  ce_deps :: "'w deps"

text \<open>A folder that does not resolve is logged; the environments fall back to what they list.\<close>

definition load_units ::
  "('w, 'e) control_env \<Rightarrow> config_source \<Rightarrow> 'w \<Rightarrow> ('e load_error + root \<times> sync_unit list) \<times> 'w" where
  "load_units env cs w =
     (case ce_get_file env (cs_repo cs) (cs_branch cs) (cs_path cs) w of
        (Inl e, w1) \<Rightarrow> (Inl (FetchConfig (cs_path cs) e), w1)
      | (Inr data, w1) \<Rightarrow>
         (case config_parse (ce_dec_root env) (ce_url env) data of
            Inl e \<Rightarrow> (Inl (InvalidConfig e), w1)
          | Inr parsed \<Rightarrow>
              let (resolver, w2) = ce_folders env (map snd (folder_jobs (root_environments parsed))) w1;
                  (root, errs) = resolve_config resolver parsed
              in case expand root of
                   Inl e \<Rightarrow> (Inl (InvalidExpansion e), w2)
                 | Inr units \<Rightarrow> (Inr (root, units), w2)))"

definition load_rbac :: "('w, 'e) control_env \<Rightarrow> config_source \<Rightarrow> 'w \<Rightarrow> ('e load_error + rbac_config) \<times> 'w" where
  "load_rbac env cs w =
     (case ce_get_file env (cs_repo cs) (cs_branch cs) (cs_rbac_path cs) w of
        (Inl e, w1) \<Rightarrow> (Inl (FetchConfig (cs_rbac_path cs) e), w1)
      | (Inr data, w1) \<Rightarrow>
         (case rbac_parse (ce_dec_rbac env) data of Inl e \<Rightarrow> (Inl (InvalidRbac e), w1) | Inr cfg \<Rightarrow> (Inr cfg, w1)))"

definition load_rbac_folder_membership ::
  "('w, 'e) control_env \<Rightarrow> rbac_config \<Rightarrow> 'w \<Rightarrow> (membership \<times> string resolve_error list) \<times> 'w" where
  "load_rbac_folder_membership env cfg w =
     (let ids = folder_scopes (Some cfg) in
      if ids = [] then (([], []), w)
      else let (resolver, w1) = ce_folders env (dedup [] ids) w in (resolve_membership resolver ids, w1))"

text \<open>Slack's nil sink, for a map without a \<open>default\<close>, is the empty address.\<close>

definition build_notifier :: "root \<Rightarrow> evaluator option" where
  "build_notifier root =
     (let slack = nc_slack (root_notify root) in
      if slack = [] then None
      else Some \<lparr>ev_sink = (case lookup slack ''default'' of None \<Rightarrow> [] | Some url \<Rightarrow> url), ev_sinks = slack,
             ev_rules = nc_rules (root_notify root), ev_environments = root_environments root,
             ev_interval = 0, ev_claim_ttl = 0\<rparr>)"

definition run_notifier ::
  "('w, 'e) control_env \<Rightarrow> evaluator option \<Rightarrow> rec_error sync_result \<Rightarrow> 'w rec_world \<Rightarrow> 'w rec_world" where
  "run_notifier env n res w = (case n of None \<Rightarrow> w | Some e \<Rightarrow> ce_evaluate env e res w)"

subsection \<open>Dynamic units\<close>

definition dyn_set :: "sync_unit list \<Rightarrow> (string \<times> sync_unit) list" where
  "dyn_set units = foldl (\<lambda>m u. put (app_key (su_app u) (su_project u)) u m) [] units"

definition dyn_find :: "(string \<times> sync_unit) list \<Rightarrow> string \<Rightarrow> string \<Rightarrow> sync_unit option" where
  "dyn_find units app project = lookup units (app_key app project)"

definition dyn_list :: "(string \<times> sync_unit) list \<Rightarrow> sync_unit list" where
  "dyn_list units = map snd units"

section \<open>State\<close>

record 'w controller =
  ct_units :: "(string \<times> sync_unit) list"
  ct_rbac :: rbac_store
  ct_deps :: "'w deps"
  ct_notifier :: "evaluator option"
  ct_last_notify :: notify_config
  ct_last_managed :: "string list"

text \<open>Without a readable \<open>rbac.yaml\<close> the controller starts with no rule at all.\<close>

definition start_rbac :: "('w, 'e) control_env \<Rightarrow> config_source \<Rightarrow> 'w rec_world \<Rightarrow> rbac_store \<times> 'w rec_world" where
  "start_rbac env cs w =
     (let (loaded, w1) = run_ext (load_rbac env cs) w;
          cfg = (case loaded of Inl e \<Rightarrow> [] | Inr cfg \<Rightarrow> cfg);
          store = new_store (Some cfg);
          ((m, errs), w2) = run_ext (load_rbac_folder_membership env cfg) w1
      in (if errs \<noteq> [] then store else set_folder_membership m store, w2))"

definition initial_controller :: "('w, 'e) control_env \<Rightarrow> root \<Rightarrow> sync_unit list \<Rightarrow> rbac_store \<Rightarrow> 'w controller" where
  "initial_controller env root units store =
     \<lparr>ct_units = dyn_set units, ct_rbac = store,
      ct_deps = (ce_deps env)\<lparr>dp_managed := df_managed_fields (root_defaults root), dp_tags := Some (ce_tags env)\<rparr>,
      ct_notifier = build_notifier root,
      ct_last_notify = \<lparr>nc_slack = [], nc_rules = []\<rparr>, ct_last_managed = []\<rparr>"

text \<open>What the environment of the process answers while it starts.\<close>

record start_env =
  sv_getenv :: "string \<Rightarrow> string"
  sv_duration :: "string \<Rightarrow> int option"
  sv_random :: string
  sv_connect :: "db_target \<Rightarrow> string option"
  sv_schema :: "string option"
  sv_app_key :: "string \<Rightarrow> string \<Rightarrow> string option"
  sv_iap :: iap_verifier
  sv_folders :: "string option"
  sv_images :: "string option"
  sv_metrics :: "string option"
  sv_connect_leader :: "db_target \<Rightarrow> string option"

definition source_of :: "settings \<Rightarrow> config_source" where
  "source_of s = \<lparr>cs_repo = st_repo s, cs_branch = st_branch s, cs_path = st_path s, cs_rbac_path = st_rbac_path s\<rparr>"

text \<open>The steps before the first call to the repository: settings, database, clients.\<close>

definition prepare :: "start_env \<Rightarrow> 'e start_error + settings \<times> (string \<Rightarrow> string + (string + string))" where
  "prepare sv =
     and_then (read_settings (sv_getenv sv) (sv_duration sv) (sv_random sv)) (\<lambda>s.
     and_then (open_db (sv_getenv sv) (sv_connect sv)) (\<lambda>target.
       let conns = env_or_default (sv_getenv sv) ''DB_MAX_OPEN_CONNS'' ''25'' in
       if atoi conns = None then Inl (BadMaxConns conns)
       else case sv_schema sv of
         Some e \<Rightarrow> Inl (ApplySchema e)
       | None \<Rightarrow>
          (case sv_app_key sv (st_app_id s) (st_app_pem s) of
             Some e \<Rightarrow> Inl (BadGithubApp e)
           | None \<Rightarrow>
              (case new_iap_authenticator (sv_iap sv) (st_audience s) of
                 Inl e \<Rightarrow> Inl (BadIapAuth e)
               | Inr verifier \<Rightarrow>
                  (case sv_folders sv of Some e \<Rightarrow> Inl (FolderClient e) | None \<Rightarrow> Inr (s, verifier))))))"

definition start ::
  "start_env \<Rightarrow> ('w, 'e) control_env \<Rightarrow> 'w rec_world \<Rightarrow>
     ('e start_error + settings \<times> (string \<Rightarrow> string + (string + string)) \<times> 'w controller) \<times> 'w rec_world" where
  "start sv env w =
     (case prepare sv of
        Inl e \<Rightarrow> (Inl e, w)
      | Inr (s, verifier) \<Rightarrow>
         (case run_ext (load_units env (source_of s)) w of
            (Inl e, w1) \<Rightarrow> (Inl (InitialLoad e), w1)
          | (Inr (root, units), w1) \<Rightarrow>
              let (store, w2) = start_rbac env (source_of s) w1 in
              case sv_images sv of
                Some e \<Rightarrow> (Inl (ImageClient e), w2)
              | None \<Rightarrow>
                 (case sv_metrics sv of
                    Some e \<Rightarrow> (Inl (MetricsFailed e), w2)
                  | None \<Rightarrow>
                     (case open_db (sv_getenv sv) (sv_connect_leader sv) of
                        Inl e \<Rightarrow> (Inl (OpenLeaderDatabase e), w2)
                      | Inr _ \<Rightarrow> (Inr (s, verifier, initial_controller env root units store), w2)))))"

text \<open>The handler of the HTTP API over the controller's state, given the leadership of the moment.\<close>

definition api_of ::
  "('w, 'e) control_env \<Rightarrow> settings \<Rightarrow> (string \<Rightarrow> string + (string + string)) \<Rightarrow>
     (orphan_scope list \<Rightarrow> orphan_scope list) \<Rightarrow> leadership_context \<Rightarrow> 'w controller \<Rightarrow> 'w handler" where
  "api_of env s verifier order lc ct =
     \<lparr>ha_auth = iap_verify verifier, ha_rbac = ct_rbac ct,
      ha_find = dyn_find (ct_units ct), ha_list = Some (dyn_list (ct_units ct)),
      ha_deps = ct_deps ct, ha_notify = run_notifier env (ct_notifier ct),
      ha_notifier = map_option EvaluatorNotifier (ct_notifier ct),
      ha_list_names = ce_list_names env, ha_scope_order = order,
      ha_runtime = \<lparr>ri_config_repo = st_repo s, ri_config_branch = st_branch s, ri_config_path = st_path s,
        ri_rbac_path = st_rbac_path s, ri_interval_seconds = sgn (st_interval s) * (\<bar>st_interval s\<bar> div second)\<rparr>,
      ha_image_events = (if st_image_audience s \<noteq> [] \<and> st_image_account s \<noteq> []
        then Some (eventarc_verify (ce_validate env) (st_image_audience s) (st_image_account s)) else None),
      ha_is_leader = Some (live lc (current_context lc)), ha_nudge = True\<rparr>"

section \<open>Ticks\<close>

definition manifest_of :: "sync_unit \<Rightarrow> manifest_ref" where
  "manifest_of u = \<lparr>mr_repo = su_source_repo u, mr_path = su_source_path u, mr_branch = su_source_branch u\<rparr>"

text \<open>The outcome of each update; an error is logged and skipped.\<close>

fun run_image_updater ::
  "('w, 'e) control_env \<Rightarrow> manifest_ref list \<Rightarrow> sync_unit list \<Rightarrow> 'w \<Rightarrow>
     (manifest_ref \<times> ('e update_error + string)) list \<times> 'w" where
  "run_image_updater env seen [] w = ([], w)"
| "run_image_updater env seen (u # us) w =
     (let m = manifest_of u in
      if m \<in> set seen then run_image_updater env seen us w
      else let (r, w1) = image_update (dp_unmarshal (ce_deps env)) (dp_semver (ce_deps env)) (ce_github env) (ce_tags env) m w;
               (rs, w2) = run_image_updater env (m # seen) us w1
           in ((m, r) # rs, w2))"

text \<open>\<open>reflect.DeepEqual\<close> on the notify section, its map of addresses without an order.\<close>

definition notify_equal :: "notify_config \<Rightarrow> notify_config \<Rightarrow> bool" where
  "notify_equal a b \<longleftrightarrow>
     list_all (\<lambda>k. lookup (nc_slack a) k = lookup (nc_slack b) k) (keys (nc_slack a) @ keys (nc_slack b)) \<and>
     nc_rules a = nc_rules b"

definition reload_config :: "root \<Rightarrow> sync_unit list \<Rightarrow> 'w controller \<Rightarrow> 'w controller" where
  "reload_config root units ct =
     (let ct = ct\<lparr>ct_units := dyn_set units\<rparr>; managed = df_managed_fields (root_defaults root) in
      if \<not> notify_equal (root_notify root) (ct_last_notify ct) \<or> managed \<noteq> ct_last_managed ct
      then ct\<lparr>ct_deps := (ct_deps ct)\<lparr>dp_managed := managed\<rparr>, ct_notifier := build_notifier root,
              ct_last_notify := root_notify root, ct_last_managed := managed\<rparr>
      else ct)"

definition reload_rbac :: "('w, 'e) control_env \<Rightarrow> config_source \<Rightarrow> rbac_store \<Rightarrow> 'w \<Rightarrow> rbac_store \<times> 'w" where
  "reload_rbac env cs store w =
     (case load_rbac env cs w of
        (Inl e, w1) \<Rightarrow> (store, w1)
      | (Inr cfg, w1) \<Rightarrow>
          let ((m, errs), w2) = load_rbac_folder_membership env cfg w1
          in (if errs \<noteq> [] then store_set (Some cfg) store else set_folder_membership m (store_set (Some cfg) store), w2))"

record 'e pass_report =
  ps_updates :: "(manifest_ref \<times> ('e update_error + string)) list"
  ps_results :: "rec_error sync_result list"
  ps_error :: "string option"

text \<open>A tick; \<open>lc\<close> is the leadership when the pass begins.\<close>

definition tick ::
  "('w, 'e) control_env \<Rightarrow> config_source \<Rightarrow> leadership_context \<Rightarrow> 'w controller \<Rightarrow> 'w rec_world \<Rightarrow>
     'e pass_report option \<times> 'w controller \<times> 'w rec_world" where
  "tick env cs lc ct w =
     (let (loaded, w1) = run_ext (load_units env cs) w;
          ct1 = (case loaded of Inl e \<Rightarrow> ct | Inr (root, units) \<Rightarrow> reload_config root units ct);
          (store, w2) = run_ext (reload_rbac env cs (ct_rbac ct1)) w1;
          ct2 = ct1\<lparr>ct_rbac := store\<rparr>;
          expanded = (case loaded of Inl e \<Rightarrow> dyn_list (ct_units ct2) | Inr (root, units) \<Rightarrow> units)
      in if \<not> live lc (current_context lc) then (None, ct2, w2)
         else let (updates, w3) = run_ext (run_image_updater env [] expanded) w2;
                  ((results, err), w4) = run_once (ct_deps ct2) (run_notifier env (ct_notifier ct2)) expanded w3
              in (Some \<lparr>ps_updates = updates, ps_results = results, ps_error = err\<rparr>, ct2, w4))"

text \<open>The loop over the ticker and the nudges; \<open>time.NewTicker\<close> panics on an interval that is not positive.\<close>

datatype loop_event = TickerFired leadership_context | Nudged leadership_context | LoopDone

fun loop_ticks ::
  "('w, 'e) control_env \<Rightarrow> config_source \<Rightarrow> loop_event list \<Rightarrow> 'w controller \<Rightarrow> 'w rec_world \<Rightarrow>
     'e pass_report option list \<times> 'w controller \<times> 'w rec_world" where
  "loop_ticks env cs [] ct w = ([], ct, w)"
| "loop_ticks env cs (LoopDone # evs) ct w = ([], ct, w)"
| "loop_ticks env cs (TickerFired lc # evs) ct w =
     (let (p, ct1, w1) = tick env cs lc ct w; (ps, ct2, w2) = loop_ticks env cs evs ct1 w1 in (p # ps, ct2, w2))"
| "loop_ticks env cs (Nudged lc # evs) ct w =
     (let (p, ct1, w1) = tick env cs lc ct w; (ps, ct2, w2) = loop_ticks env cs evs ct1 w1 in (p # ps, ct2, w2))"

definition reconcile_loop ::
  "('w, 'e) control_env \<Rightarrow> config_source \<Rightarrow> int \<Rightarrow> loop_event list \<Rightarrow> 'w controller \<Rightarrow> 'w rec_world \<Rightarrow>
     ('e pass_report option list \<times> 'w controller \<times> 'w rec_world) option" where
  "reconcile_loop env cs interval evs ct w = (if interval \<le> 0 then None else Some (loop_ticks env cs evs ct w))"

end
