(* ===== verification/Controller_Ticks.thy ===== *)
theory Controller_Ticks
  imports Controller Api_Views
begin

text \<open>
  What is shown of the controller: what a start promises, what a tick reloads, whom its pass covers and
  under which leadership it runs, and what the notifier follows, or does not.
\<close>

section \<open>Dynamic units\<close>

lemma dyn_set_lookup:
  assumes "distinct (map su_key us)"
  shows "lookup (dyn_set us) k = Some u \<longleftrightarrow> u \<in> set us \<and> su_key u = k"
proof -
  have key: "app_key (su_app v) (su_project v) = su_key v" for v
    by (simp add: app_key_def su_key_def unit_key_def)
  have "lookup (foldl (\<lambda>m u. put (su_key u) u m) m us) k =
      (case find (\<lambda>u. su_key u = k) us of Some u \<Rightarrow> Some u | None \<Rightarrow> lookup m k)" for m
    using assms
  proof (induction us arbitrary: m)
    case (Cons v us)
    have "find (\<lambda>u. su_key u = k) us = None" if "su_key v = k"
      using Cons.prems that by (auto simp: find_None_iff) (metis imageI)
    then show ?case using Cons.IH [of "put (su_key v) v m"] Cons.prems by (auto split: option.split)
  qed simp
  moreover have "find (\<lambda>u. su_key u = k) us = Some u \<longleftrightarrow> u \<in> set us \<and> su_key u = k"
  proof
    assume "find (\<lambda>u. su_key u = k) us = Some u"
    then show "u \<in> set us \<and> su_key u = k" by (auto simp: find_Some_iff)
  next
    assume u: "u \<in> set us \<and> su_key u = k"
    obtain v where v: "find (\<lambda>u. su_key u = k) us = Some v"
      using u by (cases "find (\<lambda>u. su_key u = k) us") (auto simp: find_None_iff)
    then have "v \<in> set us \<and> su_key v = k" by (auto simp: find_Some_iff)
    with u assms have "v = u" by (metis inj_onD distinct_map)
    with v show "find (\<lambda>u. su_key u = k) us = Some u" by simp
  qed
  ultimately show ?thesis by (cases "find (\<lambda>u. su_key u = k) us") (auto simp: dyn_set_def key lookup_def)
qed

lemma dyn_list_set:
  assumes "distinct (map su_key us)"
  shows "dyn_list (dyn_set us) = us"
proof -
  have key: "app_key (su_app v) (su_project v) = su_key v" for v
    by (simp add: app_key_def su_key_def unit_key_def)
  have "map snd (foldl (\<lambda>m u. put (su_key u) u m) m us) = map snd m @ us"
    if "set (keys m) \<inter> su_key ` set us = {}" for m
    using that assms
  proof (induction us arbitrary: m)
    case (Cons v us)
    then have "put (su_key v) v m = m @ [(su_key v, v)]" by (auto intro: put_fresh)
    with Cons show ?case by (simp add: keys_def)
  qed simp
  from this [of "[]"] show ?thesis by (simp add: dyn_list_def dyn_set_def key keys_def)
qed

lemma distinct_uid: "distinct (map su_key us) \<Longrightarrow> distinct (map uid us)"
proof (induction us)
  case (Cons u us)
  then show ?case by (auto simp: su_key_def uid_def image_iff)
qed simp

text \<open>The units the controller knows are those of one expansion.\<close>

definition controller_ok :: "'w controller \<Rightarrow> bool" where
  "controller_ok ct \<longleftrightarrow> (\<exists>us. distinct (map su_key us) \<and> ct_units ct = dyn_set us)"

interpretation dynamic_units: unit_lookup "\<lambda>m. \<exists>us. distinct (map su_key us) \<and> m = dyn_set us" dyn_find dyn_list
  by unfold_locales (auto simp: dyn_find_def dyn_set_lookup dyn_list_set app_key_eq)

lemma api_known:
  assumes "controller_ok ct"
  shows "known (api_of env s verifier order lc ct) u \<longleftrightarrow> u \<in> set (dyn_list (ct_units ct))"
  using assms by (intro dynamic_units.known_iff) (auto simp: controller_ok_def api_of_def)

lemma load_units_Inr:
  assumes "load_units env cs w = (Inr (root, us), w')"
  shows "distinct (map su_key us)" and "expand root = Inr us"
  using assms distinct_keys_expand by (auto simp: load_units_def split: sum.splits prod.splits)

lemma reload_config_simps [simp]:
  "ct_units (reload_config root us ct) = dyn_set us" "ct_rbac (reload_config root us ct) = ct_rbac ct"
  by (simp_all add: reload_config_def Let_def)

section \<open>A tick\<close>

lemma tick_cases:
  assumes "tick env cs lc ct w = (p, ct', w')"
  obtains loaded x1 store x2 ct1 us where
    "load_units env cs (rw_ext w) = (loaded, x1)" "reload_rbac env cs (ct_rbac ct) x1 = (store, x2)"
    "ct1 = (case loaded of Inl e \<Rightarrow> ct | Inr (root, us) \<Rightarrow> reload_config root us ct)"
    "ct' = ct1\<lparr>ct_rbac := store\<rparr>"
    "us = (case loaded of Inl e \<Rightarrow> dyn_list (ct_units ct) | Inr (root, us) \<Rightarrow> us)"
    "\<not> live lc (current_context lc) \<and> p = None \<and> w' = w\<lparr>rw_ext := x2\<rparr> \<or>
     live lc (current_context lc) \<and> (\<exists>updates x3 results err. run_image_updater env [] us x2 = (updates, x3) \<and>
       run_once (ct_deps ct') (run_notifier env (ct_notifier ct')) us (w\<lparr>rw_ext := x3\<rparr>) = ((results, err), w') \<and>
       p = Some \<lparr>ps_updates = updates, ps_results = results, ps_error = err\<rparr>)"
proof -
  obtain loaded x1 where l: "load_units env cs (rw_ext w) = (loaded, x1)" by (metis surj_pair)
  let ?ct1 = "case loaded of Inl e \<Rightarrow> ct | Inr (root, us) \<Rightarrow> reload_config root us ct"
  have rb: "ct_rbac ?ct1 = ct_rbac ct" by (simp split: sum.split prod.split)
  obtain store x2 where r: "reload_rbac env cs (ct_rbac ct) x1 = (store, x2)" by (metis surj_pair)
  have us: "(case loaded of Inl e \<Rightarrow> dyn_list (ct_units (?ct1\<lparr>ct_rbac := store\<rparr>)) | Inr (root, us) \<Rightarrow> us) =
      (case loaded of Inl e \<Rightarrow> dyn_list (ct_units ct) | Inr (root, us) \<Rightarrow> us)"
    by (simp split: sum.split)
  show ?thesis
    by (rule that [OF l r refl _ refl])
      (use assms in \<open>auto simp: tick_def Let_def run_ext_def l r rb us split: prod.splits if_splits\<close>)
qed

text \<open>A pass over a faultless database.\<close>

lemma run_pass_complete:
  assumes "run_once dp notify us w = ((results, err), w')" and "keeps_database notify" and "distinct (map uid us)"
    and "faultless w"
  shows "err = None" and "map res_unit results = us"
    and "\<forall>i < length results. res_err (results ! i) = Some SyncInProgress \<or> row_shows (rw_db w') (results ! i)"
  using run_once_complete [OF assms(1,4,2,3)] by blast+

text \<open>One update per manifest, in the order of the units.\<close>

lemma run_image_updater_once:
  "run_image_updater env seen us w = (rs, w') \<Longrightarrow> map fst rs = dedup seen (map manifest_of us)"
  by (induction env seen us w arbitrary: rs w' rule: run_image_updater.induct)
    (auto simp: Let_def split: prod.splits if_splits)

lemma run_notifier_keeps:
  assumes "\<And>e. keeps_database (ce_evaluate env e)"
  shows "keeps_database (run_notifier env n)"
proof (cases n)
  case None
  have "w = w\<lparr>rw_ext := rw_ext w\<rparr>" for w :: "'a rec_world" by simp
  with None show ?thesis unfolding keeps_database_def run_notifier_def by (metis option.simps(4))
next
  case (Some e)
  then have "run_notifier env n = ce_evaluate env e" by (simp add: fun_eq_iff run_notifier_def)
  with assms show ?thesis by simp
qed

section \<open>What the notifier follows\<close>

lemma notify_equal_refl [simp]: "notify_equal n n"
  by (simp add: notify_equal_def list_all_iff)

lemma notify_equal_zero: "notify_equal n \<lparr>nc_slack = [], nc_rules = []\<rparr> \<longleftrightarrow> nc_slack n = [] \<and> nc_rules n = []"
  by (cases "nc_slack n") (auto simp: notify_equal_def keys_def)

text \<open>Nothing was rebuilt since the start, or the notifier and the managed fields are those of one root.\<close>

definition tracks :: "'w controller \<Rightarrow> bool" where
  "tracks ct \<longleftrightarrow>
     ct_last_notify ct = \<lparr>nc_slack = [], nc_rules = []\<rparr> \<and> ct_last_managed ct = [] \<or>
     (\<exists>r. ct_notifier ct = build_notifier r \<and> ct_last_notify ct = root_notify r \<and>
        ct_last_managed ct = df_managed_fields (root_defaults r) \<and> dp_managed (ct_deps ct) = ct_last_managed ct)"

lemma reload_config_follows:
  assumes "tracks ct" and "\<not> (nc_slack (root_notify root) = [] \<and> nc_rules (root_notify root) = [] \<and> df_managed_fields (root_defaults root) = [])"
  shows "\<exists>r. ct_notifier (reload_config root us ct) = build_notifier r \<and> notify_equal (root_notify root) (root_notify r) \<and>
     dp_managed (ct_deps (reload_config root us ct)) = df_managed_fields (root_defaults root)"
proof (cases "\<not> notify_equal (root_notify root) (ct_last_notify ct) \<or> df_managed_fields (root_defaults root) \<noteq> ct_last_managed ct")
  case True
  then show ?thesis by (intro exI [of _ root]) (simp add: reload_config_def Let_def)
next
  case False
  with assms obtain r where "ct_notifier ct = build_notifier r" "ct_last_notify ct = root_notify r"
    "ct_last_managed ct = df_managed_fields (root_defaults r)" "dp_managed (ct_deps ct) = ct_last_managed ct"
    by (auto simp: tracks_def notify_equal_zero)
  with False show ?thesis by (intro exI [of _ r]) (simp add: reload_config_def Let_def)
qed

lemma reload_config_tracks: "tracks ct \<Longrightarrow> tracks (reload_config root us ct)"
  by (simp add: reload_config_def Let_def) (auto simp: tracks_def)

lemma tracks_rbac [simp]: "tracks (ct\<lparr>ct_rbac := store\<rparr>) = tracks ct"
  by (simp add: tracks_def)

lemma tick_tracks:
  assumes "tick env cs lc ct w = (p, ct', w')" and "tracks ct"
  shows "tracks ct'"
  using assms(1) by (rule tick_cases) (use assms(2) reload_config_tracks in \<open>auto split: sum.split\<close>)

lemma loop_ticks_tracks: "loop_ticks env cs evs ct w = (ps, ct', w') \<Longrightarrow> tracks ct \<Longrightarrow> tracks ct'"
  by (induction env cs evs ct w arbitrary: ps ct' w' rule: loop_ticks.induct)
    (auto split: prod.splits dest: tick_tracks)

lemma initial_tracks: "tracks (initial_controller env root us store)"
  by (simp add: tracks_def initial_controller_def)

section \<open>Starting\<close>

definition required_settings :: "string list" where
  "required_settings = [''IAP_AUDIENCE'', ''RUNCD_CONFIG_REPO'', ''RUNCD_CONFIG_BRANCH'', ''RUNCD_CONFIG_PATH'',
     ''GITHUB_APP_ID'', ''GITHUB_APP_PEM'']"

lemma read_settings_missing:
  "find (\<lambda>key. getenv key = []) required_settings = Some key \<Longrightarrow>
     read_settings getenv d rnd = Inl (Required key)"
  by (auto simp: required_settings_def read_settings_def required_env_def split: if_splits)

lemma read_settings_Inr:
  "read_settings getenv d rnd = Inr s \<Longrightarrow>
     st_audience s = getenv ''IAP_AUDIENCE'' \<and> st_image_audience s = getenv ''RUNCD_IMAGE_EVENTS_AUDIENCE'' \<and>
     st_image_account s = getenv ''RUNCD_IMAGE_EVENTS_SERVICE_ACCOUNT'' \<and> st_holder s \<noteq> [] \<and>
     d (env_or_default getenv ''RECONCILE_INTERVAL'' ''30s'') = Some (st_interval s)"
  by (auto simp: read_settings_def required_env_def Let_def split: if_splits option.splits)

lemma prepare_Inr:
  assumes "prepare sv = (Inr (s, verifier) :: 'e start_error + _)"
  shows "read_settings (sv_getenv sv) (sv_duration sv) (sv_random sv) = (Inr s :: 'e start_error + _) \<and> st_audience s \<noteq> [] \<and>
     verifier = sv_iap sv (st_audience s)"
  using assms
  by (auto simp: prepare_def and_then_Inr Let_def new_iap_authenticator_def split: option.splits if_splits)

lemma start_Inr:
  assumes "start sv (env :: ('w, 'e) control_env) w = (Inr (s, verifier, ct), w')"
  obtains root us x1 store w2 where "prepare sv = (Inr (s, verifier) :: 'e start_error + _)"
    "load_units env (source_of s) (rw_ext w) = (Inr (root, us), x1)"
    "start_rbac env (source_of s) (w\<lparr>rw_ext := x1\<rparr>) = (store, w2)"
    "ct = initial_controller env root us store"
  using assms by (auto simp: start_def run_ext_def split: sum.splits prod.splits option.splits)

lemma start_rbac_get:
  "start_rbac env cs w = (store, w') \<Longrightarrow>
     store_get store = Some (case fst (load_rbac env cs (rw_ext w)) of Inl e \<Rightarrow> [] | Inr cfg \<Rightarrow> cfg)"
  by (auto simp: start_rbac_def run_ext_def Let_def split: prod.splits if_splits)

section \<open>Properties\<close>

text \<open>C8: a pass covers the fleet. On a leader, over a faultless database, every tick makes a pass over exactly
  the units of the configuration it loaded, or, when that could not be loaded, over the units last known;
  it tries each of their manifests once, in order, reconciles each unit, returns no error, and leaves
  every result in the unit's row, except where another attempt held the unit's lock.\<close>

theorem tick_covers_fleet:
  assumes "tick env cs lc ct w = (p, ct', w')" and "controller_ok ct" and "live lc (current_context lc)"
    and "faultless w" and "\<And>e. keeps_database (ce_evaluate env e)"
  shows "\<exists>pass us. p = Some pass \<and> ps_error pass = None \<and> map res_unit (ps_results pass) = us \<and>
     us = (case fst (load_units env cs (rw_ext w)) of Inl e \<Rightarrow> dyn_list (ct_units ct) | Inr (root, us) \<Rightarrow> us) \<and>
     map fst (ps_updates pass) = dedup [] (map manifest_of us) \<and>
     (\<forall>i < length us. res_err (ps_results pass ! i) = Some SyncInProgress \<or> row_shows (rw_db w') (ps_results pass ! i))"
proof -
  obtain loaded x1 store x2 ct1 us updates x3 results err where
    l: "load_units env cs (rw_ext w) = (loaded, x1)"
    and us: "us = (case loaded of Inl e \<Rightarrow> dyn_list (ct_units ct) | Inr (root, us) \<Rightarrow> us)"
    and up: "run_image_updater env [] us x2 = (updates, x3)"
    and once: "run_once (ct_deps ct') (run_notifier env (ct_notifier ct')) us (w\<lparr>rw_ext := x3\<rparr>) = ((results, err), w')"
    and p: "p = Some \<lparr>ps_updates = updates, ps_results = results, ps_error = err\<rparr>"
    using tick_cases [OF assms(1)] assms(3) by metis
  have "distinct (map su_key us)"
  proof (cases loaded)
    case (Inl e)
    then show ?thesis using us assms(2) by (auto simp: controller_ok_def dyn_list_set)
  next
    case (Inr x)
    then show ?thesis using us l load_units_Inr(1) by (cases x) auto
  qed
  then have "distinct (map uid us)" by (rule distinct_uid)
  moreover have "faultless (w\<lparr>rw_ext := x3\<rparr>)" using assms(4) by simp
  ultimately have "err = None" "map res_unit results = us"
    "\<forall>i < length results. res_err (results ! i) = Some SyncInProgress \<or> row_shows (rw_db w') (results ! i)"
    using run_pass_complete [OF once] run_notifier_keeps [OF assms(5)] by blast+
  moreover from this have "length results = length us" by (metis length_map)
  ultimately show ?thesis
    using us l run_image_updater_once [OF up]
    by (intro exI [of _ "\<lparr>ps_updates = updates, ps_results = results, ps_error = err\<rparr>"] exI [of _ us]) (simp add: p)
qed

text \<open>C31: a replica that does not lead only reloads: its tick makes no pass, sends no statement to the
  database and touches the world outside in nothing but what the loading of configuration and rules does,
  whatever its deployer, its image updater and its notifier are.\<close>

theorem follower_only_reloads:
  assumes "\<not> live lc (current_context lc)"
  shows "\<exists>ct'. tick env cs lc ct w =
     (None, ct', w\<lparr>rw_ext := snd (reload_rbac env cs (ct_rbac ct) (snd (load_units env cs (rw_ext w))))\<rparr>)"
proof -
  obtain p ct' w' where run: "tick env cs lc ct w = (p, ct', w')" by (metis prod_cases3)
  from run have "p = None \<and>
      w' = w\<lparr>rw_ext := snd (reload_rbac env cs (ct_rbac ct) (snd (load_units env cs (rw_ext w))))\<rparr>"
    by (rule tick_cases) (use assms in auto)
  with run show ?thesis by simp
qed

text \<open>C9: the parts reload independently and each keeps the last good state. When the configuration does not
  load, units, managed fields and notifier stay as they were, otherwise the API finds exactly the units of
  the new configuration; when the rules do not load, the access rules stay as they were, otherwise they
  are the new ones, and the folder memberships are replaced only when every folder resolved.\<close>

theorem reload_independent:
  assumes "tick env cs lc ct w = (p, ct', w')" and "load_units env cs (rw_ext w) = (loaded, x1)"
    and "load_rbac env cs x1 = (rules, x2)"
  shows "(case loaded of
       Inl e \<Rightarrow> ct_units ct' = ct_units ct \<and> ct_deps ct' = ct_deps ct \<and> ct_notifier ct' = ct_notifier ct
     | Inr (root, us) \<Rightarrow> \<forall>a q u. dyn_find (ct_units ct') a q = Some u \<longleftrightarrow> u \<in> set us \<and> unit_key a q = su_key u) \<and>
     (case rules of
       Inl e \<Rightarrow> ct_rbac ct' = ct_rbac ct
     | Inr cfg \<Rightarrow> store_get (ct_rbac ct') = Some cfg \<and>
         folder_membership (ct_rbac ct') =
           (let ((m, errs), _) = load_rbac_folder_membership env cfg x2 in
            if errs = [] then m else folder_membership (ct_rbac ct)))"
proof -
  obtain store x3 ct1 where r: "reload_rbac env cs (ct_rbac ct) x1 = (store, x3)"
    and ct1: "ct1 = (case loaded of Inl e \<Rightarrow> ct | Inr (root, us) \<Rightarrow> reload_config root us ct)"
    and ct': "ct' = ct1\<lparr>ct_rbac := store\<rparr>"
    using tick_cases [OF assms(1)] assms(2) by (metis Pair_inject)
  have "case rules of Inl e \<Rightarrow> store = ct_rbac ct
     | Inr cfg \<Rightarrow> store_get store = Some cfg \<and>
         folder_membership store =
           (let ((m, errs), _) = load_rbac_folder_membership env cfg x2 in
            if errs = [] then m else folder_membership (ct_rbac ct))"
    using r assms(3) by (auto simp: reload_rbac_def Let_def split: sum.splits prod.splits if_splits)
  moreover have "dyn_find (dyn_set us) a q = Some u \<longleftrightarrow> u \<in> set us \<and> unit_key a q = su_key u"
    if "loaded = Inr (root, us)" for root us a q u
    using dyn_set_lookup [OF load_units_Inr(1), of env cs "rw_ext w" root us x1] assms(2) that
    by (auto simp: dyn_find_def app_key_def unit_key_def)
  ultimately show ?thesis using ct' ct1 by (auto split: sum.split)
qed


text \<open>C10: what a start promises. Without one of the six required settings nothing is called, and the error
  names the first that is missing. A controller that started accepts on its API exactly the identities its
  IAP verifier asserts for the configured audience, has image events only when both of their settings are
  there, and serves the units of the configuration it loaded under the rules it loaded; without rules
  nobody may sync anything.\<close>

theorem start_trusted:
  assumes "start sv (env :: ('w, 'e) control_env) w = (outcome, w')"
  shows "case find (\<lambda>key. sv_getenv sv key = []) required_settings of
      Some key \<Rightarrow> outcome = Inl (Required key) \<and> w' = w
    | None \<Rightarrow> (case outcome of Inl e \<Rightarrow> True | Inr (s, verifier, ct) \<Rightarrow>
        let h = api_of env s verifier order lc ct; (loaded, x) = load_units env (source_of s) (rw_ext w) in
        (\<forall>r email. ha_auth h r = Inr email \<longleftrightarrow> email \<noteq> [] \<and> get_value (rq_headers r) iap_assertion_header \<noteq> [] \<and>
           sv_iap sv (sv_getenv sv ''IAP_AUDIENCE'') (get_value (rq_headers r) iap_assertion_header) = Inr (Inr email)) \<and>
        (ha_image_events h = None \<longleftrightarrow>
           [] \<in> {sv_getenv sv ''RUNCD_IMAGE_EVENTS_AUDIENCE'', sv_getenv sv ''RUNCD_IMAGE_EVENTS_SERVICE_ACCOUNT''}) \<and>
        (\<exists>root. loaded = Inr (root, the (ha_list h))) \<and>
        (case fst (load_rbac env (source_of s) x) of
           Inl e \<Rightarrow> \<forall>email u. \<not> allowed h email u
         | Inr cfg \<Rightarrow> store_get (ha_rbac h) = Some cfg))"
proof (cases "find (\<lambda>key. sv_getenv sv key = []) required_settings")
  case (Some key)
  then have "prepare sv = (Inl (Required key) :: 'e start_error + _)"
    by (simp add: prepare_def read_settings_missing)
  with Some assms show ?thesis by (simp add: start_def)
next
  case None
  show ?thesis
  proof (cases outcome)
    case (Inr x)
    obtain s verifier ct where x: "x = (s, verifier, ct)" by (cases x)
    from assms [unfolded Inr x] obtain root us x1 store w2 where p: "prepare sv = (Inr (s, verifier) :: 'e start_error + _)"
      and l: "load_units env (source_of s) (rw_ext w) = (Inr (root, us), x1)"
      and rb: "start_rbac env (source_of s) (w\<lparr>rw_ext := x1\<rparr>) = (store, w2)"
      and ct: "ct = initial_controller env root us store"
      by (rule start_Inr)
    note facts = prepare_Inr [OF p] read_settings_Inr [OF conjunct1 [OF prepare_Inr [OF p]]]
    have units: "dyn_list (dyn_set us) = us" using dyn_list_set [OF load_units_Inr(1) [OF l]] .
    have auth: "iap_verify verifier r = Inr email \<longleftrightarrow> email \<noteq> [] \<and> get_value (rq_headers r) iap_assertion_header \<noteq> [] \<and>
        sv_iap sv (sv_getenv sv ''IAP_AUDIENCE'') (get_value (rq_headers r) iap_assertion_header) = Inr (Inr email)" for r email
      using facts by (auto simp: iap_verify_def Let_def split: sum.splits if_splits)
    show ?thesis
      using None facts units auth start_rbac_get [OF rb]
      by (auto simp: Inr x l api_of_def initial_controller_def ct allowed_def can_sync_folders_iff split: sum.split)
  qed (use None in simp)
qed

section \<open>Instances\<close>

text \<open>A repository that has \<open>runcd.yaml\<close>, or has lost it, and never had \<open>rbac.yaml\<close>.\<close>

definition repo_env :: "bool \<Rightarrow> root \<Rightarrow> (string, string) control_env" where
  "repo_env has_config root = \<lparr>
     ce_get_file = (\<lambda>_ _ path w. if has_config \<and> path = ''runcd.yaml'' then (Inr ''config'', w) else (Inl ''not found'', w)),
     ce_dec_root = (\<lambda>_. Inr root), ce_url = (\<lambda>_. Some (''https'', ''hooks'')), ce_dec_rbac = (\<lambda>_. Inr []),
     ce_folders = (\<lambda>_ w. (\<lambda>_ _. Inr [], w)), ce_github = one_file, ce_tags = (\<lambda>_ w. (Inr [], w)),
     ce_evaluate = (\<lambda>_ _ w. w), ce_list_names = (\<lambda>_ _ _. Inr []), ce_validate = (\<lambda>_ _. Inl ''invalid''),
     ce_deps = example_deps\<rparr>"

definition repo_source :: config_source where
  "repo_source = \<lparr>cs_repo = ''o/r'', cs_branch = ''main'', cs_path = ''runcd.yaml'', cs_rbac_path = ''rbac.yaml''\<rparr>"

definition leading_now :: leadership_context where
  "leading_now = report [True] new_leadership_context"

lemma leading_now_live: "live leading_now (current_context leading_now)"
  by (simp add: leading_now_def live_def set_leading_def Let_def new_leadership_context_def current_context_def)

text \<open>The example configuration with a Slack webhook, and with what an environment makes of the rules.\<close>

definition notify_root :: "notify_override \<Rightarrow> root" where
  "notify_root o_n = example_root\<lparr>
     root_environments := [(''prd'', \<lparr>env_projects = [''p1'', ''p2''], env_folders = [], env_region = ''eu'',
       env_sync = \<lparr>sp_auto = Some False, sp_retry = None, sp_self_heal = None, sp_windows = None, sp_observe = None\<rparr>,
       env_notify = o_n\<rparr>)],
     root_notify := \<lparr>nc_slack = [(''default'', ''https://hooks/1'')],
       nc_rules = [\<lparr>nr_on = ''syncFailed'', nr_name = [], nr_for_minutes = None, nr_for_hours = None\<rparr>]\<rparr>\<rparr>"

definition everything :: notify_override where "everything = \<lparr>no_slack = [], no_rules = None\<rparr>"
definition silenced :: notify_override where "silenced = \<lparr>no_slack = [], no_rules = Some []\<rparr>"

lemma notify_root_simps [simp]:
  "root_notify (notify_root n) = \<lparr>nc_slack = [(''default'', ''https://hooks/1'')],
       nc_rules = [\<lparr>nr_on = ''syncFailed'', nr_name = [], nr_for_minutes = None, nr_for_hours = None\<rparr>]\<rparr>"
  "root_defaults (notify_root n) = root_defaults example_root"
  "df_managed_fields (root_defaults example_root) = [''image'']"
  by (simp_all add: notify_root_def example_root_def)

lemma notify_root_parses:
  assumes "n \<in> {everything, silenced}"
  shows "config_parse (\<lambda>_. Inr (notify_root n)) (\<lambda>_. Some (''https'', ''hooks'')) data = Inr (notify_root n)"
  using assms
  by (auto simp: config_parse_def config_check_def notify_root_def example_root_def first_some_Cons first_some_Nil
      lookup_environment_def app_declared_projects_def unit_key_def check_environment_def
      check_overrides_def check_ignores_def valid_managed_fields_def policy_windows_def
      validate_sync_not_implemented_def check_env_notify_def check_def check_rule_def valid_rule_name_def
      validate_webhook_url_def everything_def silenced_def)

lemma notify_root_expands:
  "\<exists>us. expand (notify_root n) = Inr us \<and> map su_key us = [''web/p1'', ''web/p2'']"
  by (simp add: expand_def notify_root_def example_root_def lookup_environment_def unit_region_def unit_key_def
      check_app_projects_def first_some_Cons first_some_Nil check_def su_key_def)

lemma notify_root_resolved: "resolve_config resolver (notify_root n) = (notify_root n, [])"
  by (simp add: resolve_config_def notify_root_def example_root_def resolve_environment_def)

lemma load_repo:
  assumes "n \<in> {everything, silenced}"
  obtains us where "load_units (repo_env True (notify_root n)) repo_source w = (Inr (notify_root n, us), w)"
    "map su_key us = [''web/p1'', ''web/p2'']"
proof -
  obtain us where "expand (notify_root n) = Inr us" "map su_key us = [''web/p1'', ''web/p2'']"
    using notify_root_expands [of n] by (elim exE conjE)
  then show ?thesis
    using that notify_root_parses [OF assms, of "''config''"]
    by (simp add: load_units_def repo_env_def repo_source_def notify_root_resolved)
qed

lemma load_repo_lost:
  "load_units (repo_env False root) repo_source w = (Inl (FetchConfig ''runcd.yaml'' ''not found''), w)"
  "load_rbac (repo_env b root) repo_source w = (Inl (FetchConfig ''rbac.yaml'' ''not found''), w)"
  by (simp_all add: load_units_def load_rbac_def repo_env_def repo_source_def)

text \<open>The units the controller had, after its configuration is lost.\<close>

theorem tick_covers_fleet_witness:
  "\<exists>pass ct' w'. tick (repo_env False example_root) repo_source leading_now
       (initial_controller (repo_env False example_root) example_root [store_unit] (new_store (Some []))) example_rec_world =
       (Some pass, ct', w') \<and> map res_unit (ps_results pass) = [store_unit] \<and> length (ps_updates pass) = 1"
proof -
  let ?env = "repo_env False example_root"
  let ?ct = "initial_controller ?env example_root [store_unit] (new_store (Some []))"
  obtain p ct' w' where run: "tick ?env repo_source leading_now ?ct example_rec_world = (p, ct', w')" by (metis prod_cases3)
  have units: "dyn_list (ct_units ?ct) = [store_unit]"
    by (simp add: initial_controller_def dyn_list_set)
  have ok: "controller_ok ?ct"
    by (auto simp: controller_ok_def initial_controller_def intro!: exI [of _ "[store_unit]"])
  have "ce_evaluate ?env e = (\<lambda>_ w. w)" for e by (simp add: repo_env_def)
  moreover have "keeps_database (\<lambda>_ w :: string rec_world. w)"
    unfolding keeps_database_def by (metis (full_types) rec_world.surjective rec_world.update_convs(4))
  ultimately have keeps: "keeps_database (ce_evaluate ?env e)" for e by metis
  obtain pass where "p = Some pass" "map res_unit (ps_results pass) = [store_unit]"
    "map fst (ps_updates pass) = dedup [] (map manifest_of [store_unit])"
    using tick_covers_fleet [OF run ok leading_now_live example_preconditions(1) keeps]
    by (auto simp: load_repo_lost units)
  moreover from this have "length (ps_updates pass) = 1" by (metis dedup.simps length_map list.simps(8,9) list.size(3,4) One_nat_def add_0 empty_iff list.set(1) plus_1_eq_Suc)
  ultimately show ?thesis using run
    by (intro exI [of _ pass] exI [of _ ct'] exI [of _ w']) simp
qed

theorem follower_only_reloads_witness:
  "\<exists>ct'. tick (repo_env True example_root) repo_source new_leadership_context
     (initial_controller (repo_env True example_root) example_root [] (new_store (Some []))) example_rec_world = (None, ct', example_rec_world)"
proof -
  let ?env = "repo_env True example_root"
  let ?ct = "initial_controller ?env example_root [] (new_store (Some [])) :: string controller"
  have "\<not> live new_leadership_context (current_context new_leadership_context)" by simp
  from follower_only_reloads [OF this, of ?env repo_source ?ct example_rec_world] obtain ct' where
    run: "tick ?env repo_source new_leadership_context ?ct example_rec_world =
      (None, ct', example_rec_world\<lparr>rw_ext := snd (reload_rbac ?env repo_source (ct_rbac ?ct)
         (snd (load_units ?env repo_source (rw_ext example_rec_world))))\<rparr>)" by blast
  have "snd (load_units ?env repo_source x) = x" for x
    by (simp add: load_units_def repo_env_def repo_source_def split: sum.split prod.split)
  moreover have "snd (reload_rbac ?env repo_source store x) = x" for store x
    by (simp add: reload_rbac_def load_repo_lost)
  ultimately show ?thesis using run by simp
qed

theorem reload_independent_witness:
  "\<exists>p ct' w' us. tick (repo_env True (notify_root everything)) repo_source new_leadership_context
       (initial_controller (repo_env True (notify_root everything)) example_root [] (new_store (Some web_rules))) example_rec_world = (p, ct', w') \<and>
     store_get (ct_rbac ct') = Some web_rules \<and> map su_key us = [''web/p1'', ''web/p2''] \<and>
     dyn_find (ct_units ct') ''web'' ''p2'' = Some (us ! 1) \<and> dyn_find (ct_units ct') ''web'' ''p3'' = None"
proof -
  let ?env = "repo_env True (notify_root everything)"
  let ?ct = "initial_controller ?env example_root [] (new_store (Some web_rules)) :: string controller"
  obtain p ct' w' where run: "tick ?env repo_source new_leadership_context ?ct example_rec_world = (p, ct', w')" by (metis prod_cases3)
  obtain us where load: "load_units ?env repo_source (rw_ext example_rec_world) = (Inr (notify_root everything, us), rw_ext example_rec_world)"
    and us: "map su_key us = [''web/p1'', ''web/p2'']" using load_repo [of everything] by auto
  note reloaded = reload_independent [OF run load load_repo_lost(2)]
  have find: "dyn_find (ct_units ct') a q = Some u \<longleftrightarrow> u \<in> set us \<and> unit_key a q = su_key u" for a q u
    using reloaded by simp
  have "store_get (ct_rbac ct') = Some web_rules" using reloaded by (simp add: initial_controller_def new_store_def store_get_def)
  moreover have "dyn_find (ct_units ct') ''web'' ''p2'' = Some (us ! 1)"
    using us by (auto simp: find unit_key_def Cons_eq_map_conv map_eq_Cons_conv)
  moreover have "dyn_find (ct_units ct') ''web'' ''p3'' = None"
  proof (rule ccontr)
    assume "dyn_find (ct_units ct') ''web'' ''p3'' \<noteq> None"
    then obtain u where "u \<in> set us" "su_key u = ''web/p3''" by (auto simp: find unit_key_def)
    then have "''web/p3'' \<in> set (map su_key us)" by (auto simp: image_iff intro: rev_bexI)
    with us show False by simp
  qed
  ultimately show ?thesis using run us
    by (intro exI [of _ p] exI [of _ ct'] exI [of _ w'] exI [of _ us]) simp
qed


text \<open>A process started with every setting, and one without the path of its configuration.\<close>

definition process_env :: "string \<Rightarrow> start_env" where
  "process_env path = \<lparr>sv_getenv = (\<lambda>key. if key = ''RUNCD_CONFIG_PATH'' then path
       else if key \<in> {''IAP_AUDIENCE'', ''RUNCD_CONFIG_REPO'', ''RUNCD_CONFIG_BRANCH'', ''GITHUB_APP_ID'', ''GITHUB_APP_PEM'', ''DATABASE_URL''}
       then ''set'' else []),
     sv_duration = (\<lambda>_. Some (30 * second)), sv_random = ''0011'', sv_connect = (\<lambda>_. None), sv_schema = None,
     sv_app_key = (\<lambda>_ _. None), sv_iap = (\<lambda>_ a. Inr (Inr a)), sv_folders = None, sv_images = None, sv_metrics = None,
     sv_connect_leader = (\<lambda>_. None)\<rparr>"

theorem start_trusted_witness:
  "\<exists>s verifier ct w'. start (process_env ''runcd.yaml'') (repo_env True (notify_root everything)) example_rec_world = (Inr (s, verifier, ct), w') \<and>
     ha_image_events (api_of (repo_env True (notify_root everything)) s verifier rev leading_now ct) = None \<and>
     \<not> allowed (api_of (repo_env True (notify_root everything)) s verifier rev leading_now ct) ''ann@example.com'' store_unit \<and>
     fst (start (process_env []) (repo_env True example_root) example_rec_world) = Inl (Required ''RUNCD_CONFIG_PATH'')"
proof -
  let ?env = "repo_env True (notify_root everything)" and ?sv = "process_env ''runcd.yaml''"
  obtain outcome w' where run: "start ?sv ?env example_rec_world = (outcome, w')" by (metis surj_pair)
  obtain outcome' w'' where run': "start (process_env []) (repo_env True example_root) example_rec_world = (outcome', w'')" by (metis surj_pair)
  have found: "find (\<lambda>key. sv_getenv ?sv key = []) required_settings = None"
    and missing: "find (\<lambda>key. sv_getenv (process_env []) key = []) required_settings = Some ''RUNCD_CONFIG_PATH''"
    by (simp_all add: process_env_def required_settings_def)
  obtain s verifier where p: "prepare ?sv = (Inr (s, verifier) :: string start_error + _)" "source_of s = \<lparr>cs_repo = ''set'', cs_branch = ''set'', cs_path = ''runcd.yaml'', cs_rbac_path = ''rbac.yaml''\<rparr>"
    by (simp add: prepare_def read_settings_def process_env_def required_env_def env_or_default_def open_db_def
        new_iap_authenticator_def source_of_def atoi_def digits_value_def is_digit_def less_eq_char_def Let_def)
  obtain us where load: "load_units ?env (source_of s) (rw_ext example_rec_world) = (Inr (notify_root everything, us), rw_ext example_rec_world)"
    using load_repo [of everything] by (auto simp: p(2) load_units_def repo_env_def repo_source_def)
  have gone: "fst (load_rbac ?env (source_of s) x) = Inl (FetchConfig ''rbac.yaml'' ''not found'')" for x
    by (simp add: load_rbac_def p(2) repo_env_def)
  have no_events: "sv_getenv ?sv ''RUNCD_IMAGE_EVENTS_AUDIENCE'' = []" by (simp add: process_env_def)
  have sv: "sv_images ?sv = None" "sv_metrics ?sv = None"
    "open_db (sv_getenv ?sv) (sv_connect_leader ?sv) = (Inr (PlainDatabase ''set'') :: string start_error + _)"
    by (simp_all add: process_env_def open_db_def required_env_def)
  obtain store w2 where rb: "start_rbac ?env (source_of s) example_rec_world = (store, w2)" by (metis surj_pair)
  have "\<exists>ct. outcome = Inr (s, verifier, ct)"
    using run load by (auto simp: start_def p(1) run_ext_def rb sv)
  then obtain ct where o: "outcome = Inr (s, verifier, ct)" ..
  have "ha_image_events (api_of ?env s verifier rev leading_now ct) = None \<and>
      \<not> allowed (api_of ?env s verifier rev leading_now ct) ''ann@example.com'' store_unit"
    using start_trusted [OF run, of rev leading_now] gone no_events by (simp add: found o load Let_def)
  moreover have "outcome' = Inl (Required ''RUNCD_CONFIG_PATH'')"
    using start_trusted [OF run'] missing by simp
  ultimately show ?thesis using run run' o
    by (intro exI [of _ s] exI [of _ verifier] exI [of _ ct] exI [of _ w']) simp
qed

section \<open>What the notifier does not follow\<close>

text \<open>
  A changed \<open>notify\<close> section of an environment is not picked up: the tick compares the notify section of the
  root and the managed fields only, while the notifier also reads the environments. After the rules of
  \<open>prd\<close> are emptied, the notifier of the controller still sends all of them, though the one of the loaded
  configuration would send none, and though both configurations parse.
\<close>

theorem environment_rules_stale:
  assumes "ct = reload_config (notify_root silenced) us (reload_config (notify_root everything) us
      (initial_controller env (notify_root everything) us store))"
  shows "map_option (\<lambda>e. select_allowed e ''prd'') (ct_notifier ct) = Some None"
    "map_option (\<lambda>e. select_allowed e ''prd'') (build_notifier (notify_root silenced)) = Some (Some [])"
proof -
  have "ct_notifier ct = build_notifier (notify_root everything)"
    by (simp add: assms reload_config_def initial_controller_def Let_def)
  then show "map_option (\<lambda>e. select_allowed e ''prd'') (ct_notifier ct) = Some None"
    by (simp add: build_notifier_def select_allowed_def notify_root_def everything_def)
  show "map_option (\<lambda>e. select_allowed e ''prd'') (build_notifier (notify_root silenced)) = Some (Some [])"
    by (simp add: build_notifier_def select_allowed_def notify_root_def silenced_def)
qed

text \<open>
  Nor is a configuration without anything to notify or to manage, when it is the first to be loaded after
  the start: it equals the zero values the tick compares with, and the notifier of the start stays.
\<close>

theorem first_reload_keeps_notifier:
  assumes "root_notify root = \<lparr>nc_slack = [], nc_rules = []\<rparr>" and "df_managed_fields (root_defaults root) = []"
  shows "ct_notifier (reload_config root us (initial_controller env started us0 store)) = build_notifier started"
    "build_notifier root = None"
  using assms by (simp_all add: reload_config_def initial_controller_def Let_def build_notifier_def)

end
