(* ===== verification/Nudges.thy ===== *)
theory Nudges
  imports Controller_Ticks
begin

text \<open>
  The reconcile loop while the server runs beside it (\<open>reconcileLoop\<close> and \<open>NudgeReconcile\<close> of
  \<open>cmd/controller/main.go\<close>, \<open>handleImageEvent\<close> of \<open>internal/api/events.go\<close>): image events and the ticker
  arrive at any moment, also during a tick, through channels of capacity one. A step relation says how
  they interleave with the ticks; a log of what happened carries the properties.
\<close>

section \<open>Channels of capacity one\<close>

text \<open>A send that does not block: into \<open>nudgeCh\<close> (\<open>select\<close> with a \<open>default\<close>), and the ticker's into its own
  channel, which drops ticks for a slow receiver.\<close>

definition channel_capacity :: nat where "channel_capacity = 1"

definition try_send :: "'a \<Rightarrow> 'a list \<Rightarrow> 'a list" where
  "try_send x ch = (if length ch < channel_capacity then ch @ [x] else ch)"

definition nudge_reconcile :: "unit list \<Rightarrow> unit list" where
  "nudge_reconcile ch = try_send () ch"

section \<open>The loop\<close>

datatype loop_phase = Waiting | Ticking bool | Returned

text \<open>The log: an image event that nudged the loop, and a tick that began, out of turn or not.\<close>

datatype loop_mark = is_nudge: Nudge request leadership_context | is_begin: Began bool

record ('w, 'e) loop_state =
  lp_nudges :: "unit list"
  lp_timer :: "unit list"
  lp_phase :: loop_phase
  lp_controller :: "'w controller"
  lp_world :: "'w rec_world"
  lp_reports :: "'e pass_report option list"
  lp_marks :: "loop_mark list"

definition loop_start :: "'w controller \<Rightarrow> 'w rec_world \<Rightarrow> ('w, 'e) loop_state" where
  "loop_start ct w = \<lparr>lp_nudges = [], lp_timer = [], lp_phase = Waiting, lp_controller = ct, lp_world = w,
     lp_reports = [], lp_marks = []\<rparr>"

text \<open>\<open>select\<close> takes any channel that is ready; a tick has the leadership of the moment its pass begins. The loop
  returns once its context is done, at a \<open>select\<close> only.\<close>

inductive loop_step ::
  "('w, 'e) control_env \<Rightarrow> settings \<Rightarrow> (string \<Rightarrow> string + (string + string)) \<Rightarrow> (orphan_scope list \<Rightarrow> orphan_scope list) \<Rightarrow>
     ('w, 'e) loop_state \<Rightarrow> ('w, 'e) loop_state \<Rightarrow> bool" for env s verifier order where
  image_event: "handle_image_event (api_of env s verifier order lc (lp_controller l)) r = (reply, nudged) \<Longrightarrow>
     loop_step env s verifier order l
       (if nudged then l\<lparr>lp_nudges := nudge_reconcile (lp_nudges l), lp_marks := lp_marks l @ [Nudge r lc]\<rparr> else l)"
| ticker_fires: "loop_step env s verifier order l (l\<lparr>lp_timer := try_send () (lp_timer l)\<rparr>)"
| receive_ticker: "lp_phase l = Waiting \<Longrightarrow> lp_timer l = x # rest \<Longrightarrow>
     loop_step env s verifier order l
       (l\<lparr>lp_timer := rest, lp_phase := Ticking False, lp_marks := lp_marks l @ [Began False]\<rparr>)"
| receive_nudge: "lp_phase l = Waiting \<Longrightarrow> lp_nudges l = x # rest \<Longrightarrow>
     loop_step env s verifier order l
       (l\<lparr>lp_nudges := rest, lp_phase := Ticking True, lp_marks := lp_marks l @ [Began True]\<rparr>)"
| tick_ends: "lp_phase l = Ticking nudged \<Longrightarrow>
     tick env (source_of s) lc (lp_controller l) (lp_world l) = (p, ct, w) \<Longrightarrow>
     loop_step env s verifier order l
       (l\<lparr>lp_phase := Waiting, lp_controller := ct, lp_world := w, lp_reports := lp_reports l @ [p]\<rparr>)"
| context_done: "lp_phase l = Waiting \<Longrightarrow> loop_step env s verifier order l (l\<lparr>lp_phase := Returned\<rparr>)"

inductive_cases loop_stepE: "loop_step env s verifier order l l'"

inductive loop_reachable ::
  "('w, 'e) control_env \<Rightarrow> settings \<Rightarrow> (string \<Rightarrow> string + (string + string)) \<Rightarrow> (orphan_scope list \<Rightarrow> orphan_scope list) \<Rightarrow>
     ('w, 'e) loop_state \<Rightarrow> ('w, 'e) loop_state \<Rightarrow> bool" for env s verifier order l0 where
  init: "loop_reachable env s verifier order l0 l0"
| step: "loop_reachable env s verifier order l0 l \<Longrightarrow> loop_step env s verifier order l l' \<Longrightarrow>
     loop_reachable env s verifier order l0 l'"

section \<open>The invariant\<close>

text \<open>An entry of the log is answered by a tick that began after it.\<close>

definition answered :: "loop_mark list \<Rightarrow> nat \<Rightarrow> bool" where
  "answered ms i \<longleftrightarrow> (\<exists>j. i < j \<and> j < length ms \<and> is_begin (ms ! j))"

definition out_of_turn :: "loop_mark list \<Rightarrow> nat" where
  "out_of_turn ms = length (filter (\<lambda>m. m = Began True) ms)"

definition nudges_made :: "loop_mark list \<Rightarrow> nat" where
  "nudges_made ms = length (filter is_nudge ms)"

text \<open>Who may nudge: the configured service account, on the replica that leads.\<close>

definition trusted_nudge :: "('w, 'e) control_env \<Rightarrow> settings \<Rightarrow> loop_mark \<Rightarrow> bool" where
  "trusted_nudge env s m \<longleftrightarrow>
     (case m of Began _ \<Rightarrow> True
      | Nudge r lc \<Rightarrow> live lc (current_context lc) \<and> st_image_account s \<noteq> [] \<and>
          eventarc_verify (ce_validate env) (st_image_audience s) (st_image_account s) r = Inr (st_image_account s))"

definition nudge_inv :: "('w, 'e) control_env \<Rightarrow> settings \<Rightarrow> ('w, 'e) loop_state \<Rightarrow> bool" where
  "nudge_inv env s l \<longleftrightarrow>
     length (lp_nudges l) \<le> channel_capacity \<and> length (lp_timer l) \<le> channel_capacity \<and>
     list_all (trusted_nudge env s) (lp_marks l) \<and>
     (\<forall>i < length (lp_marks l). is_nudge (lp_marks l ! i) \<longrightarrow> lp_nudges l \<noteq> [] \<or> answered (lp_marks l) i) \<and>
     out_of_turn (lp_marks l) + length (lp_nudges l) \<le> nudges_made (lp_marks l)"

lemma try_send_length: "length ch \<le> channel_capacity \<Longrightarrow> length (try_send x ch) \<le> channel_capacity"
  by (simp add: try_send_def)

lemma try_send_nonempty: "try_send x ch \<noteq> []"
  by (auto simp: try_send_def channel_capacity_def)

lemma try_send_grows: "length (try_send x ch) \<le> Suc (length ch)"
  by (simp add: try_send_def)

lemma answered_snoc: "answered ms i \<Longrightarrow> answered (ms @ [m]) i"
  unfolding answered_def by (metis length_append_singleton less_SucI nth_append)

lemma answered_begin: "i < length ms \<Longrightarrow> answered (ms @ [Began b]) i"
  unfolding answered_def by (rule exI [of _ "length ms"]) simp

lemma marks_snoc [simp]:
  "out_of_turn (ms @ [Began b]) = out_of_turn ms + (if b then 1 else 0)"
  "out_of_turn (ms @ [Nudge r lc]) = out_of_turn ms"
  "nudges_made (ms @ [Began b]) = nudges_made ms"
  "nudges_made (ms @ [Nudge r lc]) = Suc (nudges_made ms)"
  by (simp_all add: out_of_turn_def nudges_made_def)

lemma image_event_trusted:
  assumes "handle_image_event (api_of env s verifier order lc ct) r = (reply, True)"
  shows "trusted_nudge env s (Nudge r lc)"
  using assms
  by (auto simp: handle_image_event_def api_of_def trusted_nudge_def eventarc_verify_def Let_def split: if_splits option.splits sum.splits)

lemma nudge_inv_event:
  assumes inv: "nudge_inv env s l" and "trusted_nudge env s (Nudge r lc)"
  shows "nudge_inv env s (l\<lparr>lp_nudges := nudge_reconcile (lp_nudges l), lp_marks := lp_marks l @ [Nudge r lc]\<rparr>)"
  using assms try_send_length [of "lp_nudges l" "()"] try_send_nonempty [of "()" "lp_nudges l"] try_send_grows [of "()" "lp_nudges l"]
  by (simp add: nudge_inv_def nudge_reconcile_def)

lemma nudge_inv_begin:
  assumes inv: "nudge_inv env s l" and "length ns + (if b then 1 else 0) \<le> length (lp_nudges l)"
    and "length ts \<le> length (lp_timer l)"
  shows "nudge_inv env s (l\<lparr>lp_nudges := ns, lp_timer := ts, lp_phase := ph, lp_marks := lp_marks l @ [Began b]\<rparr>)"
  using assms answered_begin [of _ "lp_marks l" b]
  by (auto simp: nudge_inv_def trusted_nudge_def nth_append)

lemma nudge_inv_step:
  assumes "loop_step env s verifier order l l'" and inv: "nudge_inv env s l"
  shows "nudge_inv env s l'"
  using assms(1)
proof cases
  case (image_event lc r reply nudged)
  show ?thesis
  proof (cases nudged)
    case True
    with image_event nudge_inv_event [OF inv image_event_trusted] show ?thesis by simp
  next
    case False
    with image_event inv show ?thesis by simp
  qed
next
  case ticker_fires
  with inv try_send_length [of "lp_timer l" "()"] show ?thesis by (simp add: nudge_inv_def)
next
  case (receive_ticker x rest)
  with nudge_inv_begin [OF inv, of "lp_nudges l" False rest "Ticking False"] show ?thesis by simp
next
  case (receive_nudge x rest)
  with nudge_inv_begin [OF inv, of rest True "lp_timer l" "Ticking True"] show ?thesis by simp
next
  case (tick_ends nudged lc p ct w)
  with inv show ?thesis by (simp add: nudge_inv_def)
next
  case context_done
  with inv show ?thesis by (simp add: nudge_inv_def)
qed

lemma loop_start_inv: "nudge_inv env s (loop_start ct w)"
  by (simp add: nudge_inv_def loop_start_def out_of_turn_def nudges_made_def)

lemma loop_reachable_inv:
  "loop_reachable env s verifier order (loop_start ct w) l \<Longrightarrow> nudge_inv env s l"
  by (induction rule: loop_reachable.induct) (auto intro: loop_start_inv nudge_inv_step)

section \<open>The loop as a sequence of ticks\<close>

definition events_of :: "leadership_context list \<Rightarrow> loop_event list" where
  "events_of lcs = map TickerFired lcs"

lemma loop_ticks_snoc:
  "loop_ticks env cs (events_of lcs) ct w = (ps, ct1, w1) \<Longrightarrow> tick env cs lc ct1 w1 = (p, ct2, w2) \<Longrightarrow>
   loop_ticks env cs (events_of (lcs @ [lc])) ct w = (ps @ [p], ct2, w2)"
  by (induction lcs arbitrary: ct w ps) (auto simp: events_of_def split: prod.splits)

definition ticked :: "('w, 'e) control_env \<Rightarrow> settings \<Rightarrow> 'w controller \<Rightarrow> 'w rec_world \<Rightarrow> ('w, 'e) loop_state \<Rightarrow> bool" where
  "ticked env s ct w l \<longleftrightarrow>
     (\<exists>lcs. loop_ticks env (source_of s) (events_of lcs) ct w = (lp_reports l, lp_controller l, lp_world l))"

lemma ticked_step:
  assumes "loop_step env s verifier order l l'" and inv: "ticked env s ct w l"
  shows "ticked env s ct w l'"
  using assms(1)
proof cases
  case (tick_ends nudged lc p ct1 w1)
  with inv show ?thesis unfolding ticked_def by (auto dest: loop_ticks_snoc)
qed (use inv in \<open>auto simp: ticked_def\<close>)

lemma loop_reachable_ticked:
  "loop_reachable env s verifier order (loop_start ct w) l \<Longrightarrow> ticked env s ct w l"
proof (induction rule: loop_reachable.induct)
  case init
  show ?case unfolding ticked_def by (rule exI [of _ "[]"]) (simp add: events_of_def loop_start_def)
qed (auto intro: ticked_step)

text \<open>A nudge in the channel is received by the next \<open>select\<close>, unless the loop takes another way.\<close>

lemma pending_nudge_enabled:
  assumes "lp_nudges l \<noteq> []" and "lp_phase l = Waiting"
  shows "\<exists>l'. loop_step env s verifier order l l' \<and> lp_phase l' = Ticking True"
proof -
  obtain x rest where "lp_nudges l = x # rest" using assms(1) by (cases "lp_nudges l") auto
  from receive_nudge [OF assms(2) this] show ?thesis by force
qed

section \<open>Properties\<close>

text \<open>C40: an image event is not lost, and none is made up. Whatever the order in which events, the ticker and
  ticks come, every event that nudges the loop is from the configured service account on a replica that leads,
  and is followed by a tick that begins after it, unless its nudge is still in the channel, where the next
  \<open>select\<close> may take it; events during a tick share one nudge, and no more ticks begin out of turn than events
  were accepted. What the loop does is a sequence of ticks.\<close>

theorem image_event_wakes:
  assumes "loop_reachable env s verifier order (loop_start ct w) l"
  shows "(\<forall>i < length (lp_marks l). \<forall>r lc. lp_marks l ! i = Nudge r lc \<longrightarrow>
        eventarc_verify (ce_validate env) (st_image_audience s) (st_image_account s) r = Inr (st_image_account s) \<and>
        live lc (current_context lc) \<and>
        (answered (lp_marks l) i \<or> lp_nudges l = [()] \<and>
          (lp_phase l = Waiting \<longrightarrow> (\<exists>l'. loop_step env s verifier order l l' \<and> lp_phase l' = Ticking True)))) \<and>
     out_of_turn (lp_marks l) + length (lp_nudges l) \<le> nudges_made (lp_marks l) \<and>
     (\<exists>lcs. loop_ticks env (source_of s) (map TickerFired lcs) ct w = (lp_reports l, lp_controller l, lp_world l))"
proof (intro conjI allI impI)
  have inv: "nudge_inv env s l" using loop_reachable_inv [OF assms] .
  have one: "lp_nudges l = [()]" if "lp_nudges l \<noteq> []"
    using inv that by (cases "lp_nudges l") (auto simp: nudge_inv_def channel_capacity_def)
  show "out_of_turn (lp_marks l) + length (lp_nudges l) \<le> nudges_made (lp_marks l)" using inv by (simp add: nudge_inv_def)
  fix i r lc
  assume i: "i < length (lp_marks l)" "lp_marks l ! i = Nudge r lc"
  have "trusted_nudge env s (Nudge r lc)" using inv i unfolding nudge_inv_def list_all_length by metis
  then show "eventarc_verify (ce_validate env) (st_image_audience s) (st_image_account s) r = Inr (st_image_account s)"
    and "live lc (current_context lc)" by (simp_all add: trusted_nudge_def)
  have "lp_nudges l \<noteq> [] \<or> answered (lp_marks l) i" using inv i by (simp add: nudge_inv_def)
  then show "answered (lp_marks l) i \<or> lp_nudges l = [()] \<and>
      (lp_phase l = Waiting \<longrightarrow> (\<exists>l'. loop_step env s verifier order l l' \<and> lp_phase l' = Ticking True))"
    using one pending_nudge_enabled [of l env s verifier order] by blast
next
  show "\<exists>lcs. loop_ticks env (source_of s) (map TickerFired lcs) ct w = (lp_reports l, lp_controller l, lp_world l)"
    using loop_reachable_ticked [OF assms] by (simp add: ticked_def events_of_def)
qed

text \<open>Two events before the loop looks: one tick out of turn answers both.\<close>

definition events_env :: "(string, string) control_env" where
  "events_env = (repo_env True (notify_root everything))\<lparr>ce_validate := (\<lambda>_ _. Inr [(''email'', StringClaim ''trigger@p'')])\<rparr>"

definition events_settings :: settings where
  "events_settings = \<lparr>st_audience = ''iap'', st_repo = ''o/r'', st_branch = ''main'', st_path = ''runcd.yaml'', st_app_id = ''1'',
     st_app_pem = ''pem'', st_rbac_path = ''rbac.yaml'', st_http_addr = '':8080'', st_interval = 30 * second,
     st_image_audience = ''runcd'', st_image_account = ''trigger@p'', st_holder = ''controller-0011''\<rparr>"

definition push_request :: request where
  "push_request = \<lparr>rq_headers = [(''Authorization'', ''Bearer t'')], rq_path = [], rq_query = []\<rparr>"

definition example_controller :: "string controller" where
  "example_controller = initial_controller events_env (notify_root everything) [] (new_store (Some []))"

lemma push_nudges:
  "handle_image_event (api_of events_env events_settings verifier order leading_now ct) push_request = (HttpJson 202 (), True)"
  using leading_now_live
  by (simp add: handle_image_event_def api_of_def events_settings_def events_env_def push_request_def eventarc_verify_def
      bearer_token_def bearer_prefix_def get_value_def lookup_def has_prefix_def trim_prefix_def string_claim_def)

definition woken :: "(string, string) loop_state" where
  "woken = (loop_start example_controller example_rec_world)\<lparr>lp_phase := Ticking True,
     lp_marks := [Nudge push_request leading_now, Nudge push_request leading_now, Began True]\<rparr>"

lemma woken_reachable:
  "loop_reachable events_env events_settings verifier order (loop_start example_controller example_rec_world) woken"
proof -
  let ?l0 = "loop_start example_controller example_rec_world :: (string, string) loop_state"
  let ?ev = "\<lambda>l :: (string, string) loop_state. l\<lparr>lp_nudges := nudge_reconcile (lp_nudges l), lp_marks := lp_marks l @ [Nudge push_request leading_now]\<rparr>"
  have event: "loop_step events_env events_settings verifier order l (?ev l)" for l
    using image_event [OF push_nudges [of verifier order "lp_controller l"]] by simp
  have "loop_reachable events_env events_settings verifier order ?l0 (?ev (?ev ?l0))"
    by (rule loop_reachable.step [OF loop_reachable.step [OF loop_reachable.init event] event])
  moreover have "loop_step events_env events_settings verifier order (?ev (?ev ?l0)) woken"
    using receive_nudge [where l = "?ev (?ev ?l0)" and x = "()" and rest = "[]"]
    by (simp add: woken_def loop_start_def nudge_reconcile_def try_send_def channel_capacity_def)
  ultimately show ?thesis by (rule loop_reachable.step)
qed

theorem image_event_wakes_witness:
  "answered (lp_marks woken) 0 \<and> answered (lp_marks woken) 1 \<and> out_of_turn (lp_marks woken) = 1 \<and> lp_nudges woken = []"
proof -
  have facts: "length (lp_marks woken) = 3" "lp_nudges woken = []" "lp_marks woken ! 0 = Nudge push_request leading_now"
    "lp_marks woken ! 1 = Nudge push_request leading_now" "out_of_turn (lp_marks woken) = 1"
    by (simp_all add: woken_def loop_start_def out_of_turn_def)
  note all = image_event_wakes [OF woken_reachable, THEN conjunct1]
  have "answered (lp_marks woken) i" if "i < 3" "lp_marks woken ! i = Nudge push_request leading_now" for i
    using all that facts(1,2) by auto
  with facts show ?thesis by simp
qed

end
