(* ===== verification/Cli.thy ===== *)
theory Cli
  imports Controller "HOL-Library.List_Lexorder"
begin

text \<open>
  The command line client (\<open>cmd/runcd\<close>): the calls it makes to the HTTP API (\<open>client.go\<close>), the dispatch of
  its arguments (\<open>main.go\<close>) and the offline validation of a repository (\<open>validate.go\<close>). What a command
  prints is the value it prints from; of \<open>render.go\<close> only the shortening of digests is here.
\<close>

section \<open>The client\<close>

datatype cli_error =
    NoCommand
  | UnknownCommand string
  | UsageError string
  | ApiUrlRequired
  | TokenError string
  | ValidationFailed
  | RequestFailed string
  | ResponseTooLong
  | ApiError nat string
  | DecodeFailed string

record cli_client =
  cl_base :: string
  cl_token :: string

definition cli_new_client :: "string \<Rightarrow> string \<Rightarrow> cli_client" where
  "cli_new_client base token = \<lparr>cl_base = trim_suffix base ''/'', cl_token = token\<rparr>"

record cli_request =
  cq_method :: string
  cq_url :: string
  cq_auth :: "string option"

type_synonym 'w cli_transport = "cli_request \<Rightarrow> 'w \<Rightarrow> (string + http_response) \<times> 'w"

text \<open>The body's value; an empty body leaves the zero value, \<^term>\<open>None\<close> here.\<close>

definition cli_do ::
  "'w cli_transport \<Rightarrow> (string \<Rightarrow> string + 'a) \<Rightarrow> cli_client \<Rightarrow> string \<Rightarrow> string \<Rightarrow> 'w \<Rightarrow> (cli_error + 'a option) \<times> 'w" where
  "cli_do http decode c meth path w =
     (case http \<lparr>cq_method = meth, cq_url = cl_base c @ path,
         cq_auth = (if cl_token c \<noteq> [] then Some (''Bearer '' @ cl_token c) else None)\<rparr> w of
        (Inl e, w1) \<Rightarrow> (Inl (RequestFailed e), w1)
      | (Inr resp, w1) \<Rightarrow>
         (case limited (hp_body resp) of
            (body, Some e) \<Rightarrow> (Inl (RequestFailed e), w1)
          | (body, None) \<Rightarrow>
             (if length body > max_response_bytes then Inl ResponseTooLong
              else if hp_status resp < 200 \<or> hp_status resp \<ge> 300 then Inl (ApiError (hp_status resp) body)
              else if body = [] then Inr None
              else case decode body of Inl e \<Rightarrow> Inl (DecodeFailed e) | Inr a \<Rightarrow> Inr (Some a), w1)))"

text \<open>\<open>url.PathEscape\<close>.\<close>

definition path_escape :: "string \<Rightarrow> string" where
  "path_escape s = concat (map (\<lambda>c.
     if is_word_char c \<or> c \<in> set ''.~$&+:=@'' then [c]
     else [CHR ''%'', upper_hex (of_char c div 16), upper_hex (of_char c mod 16)]) s)"

definition unit_path :: "string \<Rightarrow> string \<Rightarrow> string" where
  "unit_path project app = path_escape project @ CHR ''/'' # path_escape app"

section \<open>Commands\<close>

fun extract_flag :: "string list \<Rightarrow> string \<Rightarrow> string list \<times> bool" where
  "extract_flag [] flag = ([], False)"
| "extract_flag (a # as) flag =
     (let (remaining, present) = extract_flag as flag in if a = flag then (remaining, True) else (a # remaining, present))"

fun require_two_args :: "string list \<Rightarrow> string \<Rightarrow> cli_error + (string \<times> string)" where
  "require_two_args [a, b] usage = Inr (a, b)"
| "require_two_args args usage = Inl (UsageError usage)"

text \<open>\<open>strings.TrimSpace\<close> on ASCII.\<close>

definition trim_space :: "string \<Rightarrow> string" where
  "trim_space s =
     (let blank = (\<lambda>c. c = CHR '' '' \<or> c \<in> {CHR 0x09, CHR 0x0A, CHR 0x0B, CHR 0x0C, CHR 0x0D})
      in rev (dropWhile blank (rev (dropWhile blank s))))"

definition identity_token :: "(string \<Rightarrow> string + string) \<Rightarrow> string \<Rightarrow> cli_error + string" where
  "identity_token gcloud audience =
     (if audience = [] then Inr []
      else case gcloud audience of
        Inl e \<Rightarrow> Inl (TokenError e)
      | Inr out \<Rightarrow> Inr (trim_space out))"

text \<open>What a command asks for: the help text, a validation, or one call of the API.\<close>

datatype cli_action =
    ShowHelp
  | Validate string bool bool
  | CallApi route string string

fun cli_call :: "string \<Rightarrow> string list \<Rightarrow> cli_error + cli_action" where
  "cli_call cmd rest =
     (if cmd = ''units'' then Inr (CallApi ListUnits ''GET'' ''/api/units'')
      else if cmd = ''get'' then and_then (require_two_args rest ''get <project> <app>'')
        (\<lambda>(project, app). Inr (CallApi UnitDetail ''GET'' (''/api/units/'' @ unit_path project app)))
      else if cmd = ''history'' then and_then (require_two_args rest ''history <project> <app>'')
        (\<lambda>(project, app). Inr (CallApi UnitHistory ''GET'' (''/api/units/'' @ unit_path project app @ ''/history'')))
      else if cmd = ''sync'' then
        let (positional, dry) = extract_flag rest ''--dry-run'' in
        and_then (require_two_args positional ''sync <project> <app> [--dry-run]'') (\<lambda>(project, app).
          if dry then Inr (CallApi DryRun ''GET'' (''/api/units/'' @ unit_path project app @ ''/dry-run''))
          else Inr (CallApi SyncUnit ''POST'' (''/api/sync/'' @ unit_path project app)))
      else if cmd = ''rbac'' then Inr (CallApi ListRbac ''GET'' ''/api/rbac'')
      else if cmd = ''config'' then Inr (CallApi ShowConfig ''GET'' ''/api/config'')
      else if cmd = ''orphans'' then Inr (CallApi ListOrphans ''GET'' ''/api/orphans'')
      else Inl (UnknownCommand cmd))"

definition run_cli ::
  "(string \<Rightarrow> string) \<Rightarrow> (string \<Rightarrow> string + string) \<Rightarrow> string list \<Rightarrow> cli_error + cli_action \<times> cli_client" where
  "run_cli getenv gcloud args =
     (case args of
        [] \<Rightarrow> Inl NoCommand
      | cmd # rest \<Rightarrow>
          if cmd \<in> {''-h'', ''--help'', ''help''} then Inr (ShowHelp, cli_new_client [] [])
          else if cmd = ''validate'' then
            let (rest, check_gcp) = extract_flag rest ''--check-gcp''; (rest, check_slack) = extract_flag rest ''--check-slack'';
                dir = (case rest of [] \<Rightarrow> ''.'' | d # _ \<Rightarrow> d)
            in Inr (Validate dir check_gcp check_slack, cli_new_client [] [])
          else if getenv ''RUNCD_API_URL'' = [] then Inl ApiUrlRequired
          else and_then (identity_token gcloud (getenv ''RUNCD_IAP_AUDIENCE'')) (\<lambda>token.
               and_then (cli_call cmd rest) (\<lambda>action. Inr (action, cli_new_client (getenv ''RUNCD_API_URL'') token))))"

definition short_digest :: "string \<Rightarrow> string" where
  "short_digest digest =
     (if digest = [] then ''-''
      else let i = first_index (CHR '':'') digest in
        if i = -1 \<or> int (length digest) < i + 9 then (if length digest > 12 then take 12 digest else digest)
        else take (nat (i + 9)) digest)"

section \<open>Validation\<close>

datatype check_item =
    ConfigReadable
  | ConfigParses
  | ConfigFieldsKnown
  | FoldersUnresolved string
  | ConfigExpands
  | RbacMissing
  | RbacParses
  | RbacFieldsKnown
  | ManifestMissing string
  | ManifestParses string
  | ProjectClientCreated
  | ProjectReachable string
  | FolderClientCreated
  | FolderReachable string
  | SinkAccepts string

datatype report_line = Pass check_item | Fail check_item | Note check_item

type_synonym verdict = "bool \<times> report_line list"

text \<open>The files of the directory by their path in it, the decoders, strict and not, and the live checks.\<close>

record validate_env =
  ve_read :: "string \<Rightarrow> string option"
  ve_dec_root :: "string \<Rightarrow> string + root"
  ve_strict_root :: "string \<Rightarrow> bool"
  ve_url :: "string \<Rightarrow> (string \<times> string) option"
  ve_dec_rbac :: "string \<Rightarrow> string + rbac_config"
  ve_strict_rbac :: "string \<Rightarrow> bool"
  ve_dec_service :: "string \<Rightarrow> string + service_def"
  ve_project_client :: bool
  ve_project_ok :: "string \<Rightarrow> bool"
  ve_folder_client :: bool
  ve_folder_ok :: "string \<Rightarrow> bool"
  ve_sink_ok :: "string \<Rightarrow> bool"

definition report_check :: "bool \<Rightarrow> check_item \<Rightarrow> verdict \<Rightarrow> verdict" where
  "report_check pass item v = (if \<not> pass then (False, snd v @ [Fail item]) else (fst v, snd v @ [Pass item]))"

definition report_note :: "check_item \<Rightarrow> verdict \<Rightarrow> verdict" where
  "report_note item v = (fst v, snd v @ [Note item])"

text \<open>A loop of live checks: its own flag, and the report.\<close>

fun check_each :: "(string \<Rightarrow> bool) \<Rightarrow> (string \<Rightarrow> check_item) \<Rightarrow> string list \<Rightarrow> bool \<times> verdict \<Rightarrow> bool \<times> verdict" where
  "check_each ok item [] st = st"
| "check_each ok item (x # xs) (b, v) = check_each ok item xs (b \<and> ok x, report_check (ok x) (item x) v)"

definition check_projects_and_folders ::
  "validate_env \<Rightarrow> sync_unit list \<Rightarrow> string list \<Rightarrow> verdict \<Rightarrow> bool \<times> verdict" where
  "check_projects_and_folders ve units folder_ids v =
     (let projects = sort (dedup [] (map su_project units)) in
      if projects \<noteq> [] \<and> \<not> ve_project_client ve then (False, report_check False ProjectClientCreated v)
      else let (ok, v) = check_each (ve_project_ok ve) ProjectReachable projects (True, v) in
        if folder_ids = [] then (ok, v)
        else if \<not> ve_folder_client ve then (False, report_check False FolderClientCreated v)
        else check_each (ve_folder_ok ve) FolderReachable (dedup [] (sort folder_ids)) (ok, v))"

definition check_slack_sinks :: "validate_env \<Rightarrow> root \<Rightarrow> verdict \<Rightarrow> bool \<times> verdict" where
  "check_slack_sinks ve root v =
     (let slack = nc_slack (root_notify root) in
      if slack = [] then (True, v)
      else check_each (\<lambda>name. ve_sink_ok ve (case lookup slack name of None \<Rightarrow> [] | Some url \<Rightarrow> url)) SinkAccepts
             (sort (keys slack)) (True, v))"

definition validate_rbac :: "validate_env \<Rightarrow> verdict \<Rightarrow> verdict" where
  "validate_rbac ve v =
     (case ve_read ve ''rbac.yaml'' of
        None \<Rightarrow> report_note RbacMissing v
      | Some data \<Rightarrow>
         (case rbac_parse (ve_dec_rbac ve) data of
            Inl e \<Rightarrow> report_check False RbacParses v
          | Inr cfg \<Rightarrow> report_check (ve_strict_rbac ve data) RbacFieldsKnown (report_check True RbacParses v)))"

definition validate_manifest :: "validate_env \<Rightarrow> string \<Rightarrow> verdict \<Rightarrow> verdict" where
  "validate_manifest ve p v =
     (case ve_read ve p of
        None \<Rightarrow> report_note (ManifestMissing p) v
      | Some data \<Rightarrow>
         (case manifest_parse (ve_dec_service ve) data of
            Inl e \<Rightarrow> report_check False (ManifestParses p) v | Inr sd \<Rightarrow> report_check True (ManifestParses p) v))"

definition validate_repo :: "validate_env \<Rightarrow> bool \<Rightarrow> bool \<Rightarrow> verdict" where
  "validate_repo ve check_gcp check_slack =
     (case ve_read ve ''runcd.yaml'' of
        None \<Rightarrow> report_check False ConfigReadable (True, [])
      | Some data \<Rightarrow>
         (case config_parse (ve_dec_root ve) (ve_url ve) data of
            Inl e \<Rightarrow> report_check False ConfigParses (True, [])
          | Inr root \<Rightarrow>
              let v = report_check (ve_strict_root ve data) ConfigFieldsKnown (report_check True ConfigParses (True, []));
                  with_folders = filter (\<lambda>(n, e). env_folders e \<noteq> []) (root_environments root);
                  folder_ids = concat (map (\<lambda>(n, e). env_folders e) with_folders);
                  v = (if check_gcp then v else fold (\<lambda>(n, e). report_note (FoldersUnresolved n)) with_folders v);
                  v = report_check (case expand root of Inl e \<Rightarrow> False | Inr us \<Rightarrow> True) ConfigExpands v;
                  units = (case expand root of Inl e \<Rightarrow> [] | Inr us \<Rightarrow> us);
                  v = validate_rbac ve v;
                  v = fold (validate_manifest ve) (sort (dedup [] (map su_source_path units))) v;
                  v = (if check_gcp then let (ok, v) = check_projects_and_folders ve units folder_ids v
                                         in (if \<not> ok then (False, snd v) else v) else v)
              in (if check_slack then let (ok, v) = check_slack_sinks ve root v in (if \<not> ok then (False, snd v) else v) else v)))"

section \<open>Where a call arrives\<close>

text \<open>The patterns of \<open>NewMux\<close>: an escaped path is matched segment by segment; \<open>GET\<close> patterns also serve \<open>HEAD\<close>,
  and a path with an empty or a dot segment is redirected, not served.\<close>

fun split_at :: "char \<Rightarrow> string \<Rightarrow> string list" where
  "split_at c [] = [[]]"
| "split_at c (x # xs) =
     (if x = c then [] # split_at c xs else case split_at c xs of [] \<Rightarrow> [[x]] | s # ss \<Rightarrow> (x # s) # ss)"

abbreviation split_slash :: "string \<Rightarrow> string list" where
  "split_slash \<equiv> split_at (CHR ''/'')"

definition match_route :: "string \<Rightarrow> string list \<Rightarrow> (route \<times> (string \<times> string) list) option" where
  "match_route meth segs =
     (let get = (meth = ''GET'' \<or> meth = ''HEAD''); post = (meth = ''POST'') in
      case segs of
        [a, b] \<Rightarrow>
          if a \<noteq> ''api'' then None
          else if get \<and> b = ''units'' then Some (ListUnits, [])
          else if get \<and> b = ''rbac'' then Some (ListRbac, [])
          else if get \<and> b = ''config'' then Some (ShowConfig, [])
          else if get \<and> b = ''orphans'' then Some (ListOrphans, [])
          else if post \<and> b = ''sync'' then Some (SyncBatch, [])
          else None
      | [a, b, c] \<Rightarrow> if a = ''api'' \<and> post \<and> b = ''events'' \<and> c = ''image'' then Some (ImageEvent, []) else None
      | [a, b, p, q] \<Rightarrow>
          if a \<noteq> ''api'' then None
          else if get \<and> b = ''units'' then Some (UnitDetail, [(''project'', p), (''app'', q)])
          else if post \<and> b = ''sync'' then Some (SyncUnit, [(''project'', p), (''app'', q)])
          else None
      | [a, b, p, q, s] \<Rightarrow>
          if a \<noteq> ''api'' \<or> \<not> get \<or> b \<noteq> ''units'' then None
          else if s = ''history'' then Some (UnitHistory, [(''project'', p), (''app'', q)])
          else if s = ''dry-run'' then Some (DryRun, [(''project'', p), (''app'', q)])
          else None
      | _ \<Rightarrow> None)"

definition mux_match :: "string \<Rightarrow> string \<Rightarrow> (route \<times> (string \<times> string) list) option" where
  "mux_match meth path =
     (case split_slash path of
        [] \<Rightarrow> None
      | first # segs \<Rightarrow>
          if first \<noteq> [] \<or> list_ex (\<lambda>s. s \<in> {[], ''.'', ''..''}) segs then None
          else match_route meth (map (\<lambda>s. case unescape s of None \<Rightarrow> s | Some t \<Rightarrow> t) segs))"

section \<open>Escaped segments\<close>

lemma hex_round_trip: "d < 16 \<Longrightarrow> hex_value (upper_hex d) = Some d \<and> upper_hex d \<noteq> CHR ''/'' \<and> upper_hex d \<noteq> CHR ''%''"
proof -
  have "\<forall>d \<in> set [0..<16]. hex_value (upper_hex d) = Some d \<and> upper_hex d \<noteq> CHR ''/'' \<and> upper_hex d \<noteq> CHR ''%''"
    by code_simp
  then show "d < 16 \<Longrightarrow> ?thesis" by simp
qed

definition plain_segment_char :: "char \<Rightarrow> bool" where
  "plain_segment_char c \<longleftrightarrow> is_word_char c \<or> c \<in> set ''.~$&+:=@''"

lemma plain_segment_char_ne: "plain_segment_char c \<Longrightarrow> c \<noteq> CHR ''/'' \<and> c \<noteq> CHR ''%''"
  by (auto simp: plain_segment_char_def is_word_char_def is_digit_def less_eq_char_def)

lemma path_escape_Cons:
  "path_escape (c # s) =
     (if plain_segment_char c then [c] else [CHR ''%'', upper_hex (of_char c div 16), upper_hex (of_char c mod 16)]) @ path_escape s"
  by (simp add: path_escape_def plain_segment_char_def)

lemma char_halves: "of_char c div 16 < (16 :: nat)" "char_of (16 * (of_char c div 16) + of_char c mod 16 :: nat) = c"
proof -
  have "of_char c < (256 :: nat)" by (rule nat_of_char_less_256)
  then show "of_char c div 16 < (16 :: nat)" by (intro less_mult_imp_div_less) simp
  have "16 * (of_char c div 16) + of_char c mod 16 = (of_char c :: nat)" by simp
  then show "char_of (16 * (of_char c div 16) + of_char c mod 16 :: nat) = c" by simp
qed

lemma unescape_path_escape: "unescape (path_escape s) = Some s"
proof (induction s)
  case (Cons c s)
  have "(of_char c :: nat) mod 16 < 16" by simp
  note halves = hex_round_trip [OF char_halves(1) [of c]] hex_round_trip [OF this] char_halves(2) [of c]
  show ?case
    using Cons.IH plain_segment_char_ne [of c] halves by (auto simp: path_escape_Cons)
qed (simp add: path_escape_def)

lemma path_escape_no_slash: "CHR ''/'' \<notin> set (path_escape s)"
proof (induction s)
  case (Cons c s)
  have "(of_char c :: nat) mod 16 < 16" by simp
  note halves = hex_round_trip [OF char_halves(1) [of c]] hex_round_trip [OF this]
  show ?case
    using Cons.IH plain_segment_char_ne [of c] halves by (auto simp: path_escape_Cons)
qed (simp add: path_escape_def)

lemma path_escape_dots: "path_escape s \<in> {[], ''.'', ''..''} \<Longrightarrow> s \<in> {[], ''.'', ''..''}"
  using unescape_path_escape [of s] by auto

lemma split_slash_ne: "split_slash s \<noteq> []"
  by (cases s) (auto split: list.split)

lemma split_slash_single: "CHR ''/'' \<notin> set s \<Longrightarrow> split_slash s = [s]"
  by (induction s) auto

lemma split_slash_append: "split_slash (s @ CHR ''/'' # t) = split_slash s @ split_slash t"
  by (induction s) (auto simp: split_slash_ne split: list.split)

lemma mux_match_unit:
  assumes "{project, app} \<inter> {[], ''.'', ''..''} = {}"
  shows "mux_match ''GET'' (''/api/units/'' @ unit_path project app) = Some (UnitDetail, [(''project'', project), (''app'', app)])"
    "mux_match ''POST'' (''/api/sync/'' @ unit_path project app) = Some (SyncUnit, [(''project'', project), (''app'', app)])"
    "mux_match ''GET'' (''/api/units/'' @ unit_path project app @ ''/history'') = Some (UnitHistory, [(''project'', project), (''app'', app)])"
    "mux_match ''GET'' (''/api/units/'' @ unit_path project app @ ''/dry-run'') = Some (DryRun, [(''project'', project), (''app'', app)])"
proof -
  have ne: "path_escape s \<noteq> [] \<and> path_escape s \<noteq> ''.'' \<and> path_escape s \<noteq> ''..''" if "s \<in> {project, app}" for s
    using path_escape_dots [of s] assms that by auto
  have seg: "split_slash (path_escape s) = [path_escape s]" "split_slash (path_escape s @ CHR ''/'' # t) = path_escape s # split_slash t" for s t
    by (simp_all add: split_slash_append split_slash_single path_escape_no_slash)
  note eval = mux_match_def unit_path_def seg ne unescape_path_escape match_route_def
  show "mux_match ''GET'' (''/api/units/'' @ unit_path project app) = Some (UnitDetail, [(''project'', project), (''app'', app)])"
    by (simp add: eval)
  show "mux_match ''POST'' (''/api/sync/'' @ unit_path project app) = Some (SyncUnit, [(''project'', project), (''app'', app)])"
    by (simp add: eval)
  show "mux_match ''GET'' (''/api/units/'' @ unit_path project app @ ''/history'') = Some (UnitHistory, [(''project'', project), (''app'', app)])"
    by (simp add: eval)
  show "mux_match ''GET'' (''/api/units/'' @ unit_path project app @ ''/dry-run'') = Some (DryRun, [(''project'', project), (''app'', app)])"
    by (simp add: eval)
qed

end
