(* ===== verification/Cli_Checks.thy ===== *)
theory Cli_Checks
  imports Cli Controller_Ticks
begin

text \<open>
  What is shown of the command line client: its commands arrive at the handlers they name, and its
  offline validation accepts exactly the repositories it should, which a controller then loads.
\<close>

section \<open>The report\<close>

lemma report_line_simps [simp]:
  "fst (report_check pass item v) = (fst v \<and> pass)" "fst (report_note item v) = fst v"
  by (auto simp: report_check_def report_note_def)

lemma fst_fold_notes [simp]: "fst (fold (\<lambda>(n, e). report_note (f n)) xs v) = fst v"
  by (induction xs arbitrary: v) auto

lemma check_each_fst:
  "check_each ok item xs (b, v) = (b', v') \<Longrightarrow> b' = (b \<and> list_all ok xs) \<and> fst v' = (fst v \<and> list_all ok xs)"
  by (induction ok item xs "(b, v)" arbitrary: b v rule: check_each.induct) auto

lemma validate_rbac_fst [simp]:
  "fst (validate_rbac ve v) \<longleftrightarrow> fst v \<and>
     (case ve_read ve ''rbac.yaml'' of None \<Rightarrow> True
      | Some data \<Rightarrow> (\<exists>cfg. rbac_parse (ve_dec_rbac ve) data = Inr cfg) \<and> ve_strict_rbac ve data)"
  by (auto simp: validate_rbac_def split: option.split sum.split)

definition manifest_ok :: "validate_env \<Rightarrow> string \<Rightarrow> bool" where
  "manifest_ok ve p \<longleftrightarrow>
     (case ve_read ve p of None \<Rightarrow> True
      | Some data \<Rightarrow> (case manifest_parse (ve_dec_service ve) data of Inl e \<Rightarrow> False | Inr sd \<Rightarrow> True))"

lemma validate_manifest_fst [simp]: "fst (validate_manifest ve p v) \<longleftrightarrow> fst v \<and> manifest_ok ve p"
  by (auto simp: validate_manifest_def manifest_ok_def split: option.split sum.split)

lemma fold_manifests_fst [simp]: "fst (fold (validate_manifest ve) ps v) \<longleftrightarrow> fst v \<and> (\<forall>p \<in> set ps. manifest_ok ve p)"
  by (induction ps arbitrary: v) auto

text \<open>What the live checks confirm.\<close>

definition projects_ok :: "validate_env \<Rightarrow> sync_unit list \<Rightarrow> string list \<Rightarrow> bool" where
  "projects_ok ve us folder_ids \<longleftrightarrow>
     (us = [] \<or> ve_project_client ve) \<and> (\<forall>u \<in> set us. ve_project_ok ve (su_project u)) \<and>
     (folder_ids = [] \<or> ve_folder_client ve) \<and> (\<forall>f \<in> set folder_ids. ve_folder_ok ve f)"

definition sinks_ok :: "validate_env \<Rightarrow> root \<Rightarrow> bool" where
  "sinks_ok ve root \<longleftrightarrow> (\<forall>name \<in> set (keys (nc_slack (root_notify root))).
     \<exists>url. lookup (nc_slack (root_notify root)) name = Some url \<and> ve_sink_ok ve url)"

lemma dedup_Nil_iff: "dedup [] xs = [] \<longleftrightarrow> xs = []"
  by (metis set_dedup set_empty Diff_empty list.set(1))

lemma check_projects_fst:
  assumes "check_projects_and_folders ve us ids v = (ok, v')"
  shows "(ok \<longleftrightarrow> projects_ok ve us ids) \<and> (fst v' \<and> ok \<longleftrightarrow> fst v \<and> projects_ok ve us ids)"
proof -
  let ?ps = "sort (dedup [] (map su_project us))"
  have ps: "set ?ps = su_project ` set us" by (simp add: set_dedup)
  then have nil: "?ps = [] \<longleftrightarrow> us = []" by (metis image_is_empty set_empty)
  obtain b v1 where one: "check_each (ve_project_ok ve) ProjectReachable ?ps (True, v) = (b, v1)" by (metis surj_pair)
  obtain c v2 where two: "check_each (ve_folder_ok ve) FolderReachable (dedup [] (sort ids)) (b, v1) = (c, v2)" by (metis surj_pair)
  have b: "b = (\<forall>u \<in> set us. ve_project_ok ve (su_project u))" "fst v1 = (fst v \<and> b)"
    using check_each_fst [OF one] ps by (simp_all add: list_all_iff)
  have c: "c = (b \<and> (\<forall>f \<in> set ids. ve_folder_ok ve f))" "fst v2 = (fst v1 \<and> (\<forall>f \<in> set ids. ve_folder_ok ve f))"
    using check_each_fst [OF two] by (simp_all add: list_all_iff set_dedup)
  consider "us \<noteq> []" "\<not> ve_project_client ve" | "us = [] \<or> ve_project_client ve" "ids = []"
    | "us = [] \<or> ve_project_client ve" "ids \<noteq> []" "\<not> ve_folder_client ve"
    | "us = [] \<or> ve_project_client ve" "ids \<noteq> []" "ve_folder_client ve"
    by blast
  then show ?thesis
  proof cases
    case 1
    with assms nil show ?thesis by (auto simp: check_projects_and_folders_def Let_def projects_ok_def)
  next
    case 2
    with assms nil one have "ok = b" "v' = v1" by (auto simp: check_projects_and_folders_def Let_def)
    with 2 b show ?thesis by (auto simp: projects_ok_def)
  next
    case 3
    with assms nil one show ?thesis by (auto simp: check_projects_and_folders_def Let_def projects_ok_def)
  next
    case 4
    with assms nil one two have "ok = c" "v' = v2" by (auto simp: check_projects_and_folders_def Let_def)
    with 4 b c show ?thesis by (auto simp: projects_ok_def)
  qed
qed

lemma check_slack_fst:
  assumes "check_slack_sinks ve root v = (ok, v')"
  shows "(ok \<longleftrightarrow> sinks_ok ve root) \<and> (fst v' \<and> ok \<longleftrightarrow> fst v \<and> sinks_ok ve root)"
proof -
  let ?slack = "nc_slack (root_notify root)"
  obtain b v1 where one: "check_each (\<lambda>name. ve_sink_ok ve (case lookup ?slack name of None \<Rightarrow> [] | Some url \<Rightarrow> url)) SinkAccepts
      (sort (keys ?slack)) (True, v) = (b, v1)" by (metis surj_pair)
  have same: "ve_sink_ok ve (case lookup ?slack name of None \<Rightarrow> [] | Some url \<Rightarrow> url) \<longleftrightarrow>
      (\<exists>url. lookup ?slack name = Some url \<and> ve_sink_ok ve url)" if "name \<in> set (keys ?slack)" for name
    using that lookup_None [of ?slack name] by (cases "lookup ?slack name") auto
  have "list_all (\<lambda>name. ve_sink_ok ve (case lookup ?slack name of None \<Rightarrow> [] | Some url \<Rightarrow> url)) (sort (keys ?slack)) =
      sinks_ok ve root"
    unfolding sinks_ok_def list_all_iff set_sort using same by (rule ball_cong [OF refl])
  then have b: "b = sinks_ok ve root" "fst v1 = (fst v \<and> sinks_ok ve root)" using check_each_fst [OF one] by simp_all
  show ?thesis
  proof (cases "?slack = []")
    case True
    with assms show ?thesis by (auto simp: check_slack_sinks_def sinks_ok_def keys_def)
  next
    case False
    with assms one have "ok = b" "v' = v1" by (auto simp: check_slack_sinks_def Let_def)
    with b show ?thesis by simp
  qed
qed

lemma validate_repo_absent: "ve_read ve ''runcd.yaml'' = None \<Longrightarrow> \<not> fst (validate_repo ve gcp slack)"
  by (simp add: validate_repo_def)

lemma validate_repo_unparsed:
  "\<lbrakk> ve_read ve ''runcd.yaml'' = Some data; config_parse (ve_dec_root ve) (ve_url ve) data = Inl e \<rbrakk>
    \<Longrightarrow> \<not> fst (validate_repo ve gcp slack)"
  by (simp add: validate_repo_def)

definition rbac_ok :: "validate_env \<Rightarrow> bool" where
  "rbac_ok ve \<longleftrightarrow>
     (case ve_read ve ''rbac.yaml'' of None \<Rightarrow> True
      | Some d \<Rightarrow> (\<exists>cfg. rbac_parse (ve_dec_rbac ve) d = Inr cfg) \<and> ve_strict_rbac ve d)"

definition declared_folders :: "root \<Rightarrow> string list" where
  "declared_folders root = concat (map (env_folders \<circ> snd) (root_environments root))"

lemma declared_folders_filter:
  "concat (map (\<lambda>(n, e). env_folders e) (filter (\<lambda>(n, e). env_folders e \<noteq> []) envs)) = concat (map (env_folders \<circ> snd) envs)"
  by (induction envs) auto

lemma projects_flag:
  "fst (case check_projects_and_folders ve us ids v of (ok, v) \<Rightarrow> if \<not> ok then (False, snd v) else v) \<longleftrightarrow>
     fst v \<and> projects_ok ve us ids"
  using check_projects_fst [of ve us ids v] by (cases "check_projects_and_folders ve us ids v") auto

lemma sinks_flag:
  "fst (case check_slack_sinks ve root v of (ok, v) \<Rightarrow> if \<not> ok then (False, snd v) else v) \<longleftrightarrow> fst v \<and> sinks_ok ve root"
  using check_slack_fst [of ve root v] by (cases "check_slack_sinks ve root v") auto

lemma validate_repo_config:
  assumes "ve_read ve ''runcd.yaml'' = Some data" and "config_parse (ve_dec_root ve) (ve_url ve) data = Inr root"
  shows "fst (validate_repo ve gcp slack) \<longleftrightarrow>
     ve_strict_root ve data \<and>
     (\<exists>us. expand root = Inr us \<and> (\<forall>u \<in> set us. manifest_ok ve (su_source_path u)) \<and>
        (gcp \<longrightarrow> projects_ok ve us (declared_folders root))) \<and>
     rbac_ok ve \<and> (slack \<longrightarrow> sinks_ok ve root)"
proof -
  have "fst (validate_repo ve gcp slack) \<longleftrightarrow>
     ve_strict_root ve data \<and> (\<exists>us. expand root = Inr us) \<and> rbac_ok ve \<and>
     (let us = case expand root of Inl e \<Rightarrow> [] | Inr us \<Rightarrow> us in
       (\<forall>u \<in> set us. manifest_ok ve (su_source_path u)) \<and> (gcp \<longrightarrow> projects_ok ve us (declared_folders root))) \<and>
     (slack \<longrightarrow> sinks_ok ve root)"
    using assms
    by (cases slack; cases gcp)
      (auto simp: validate_repo_def Let_def projects_flag sinks_flag rbac_ok_def set_dedup declared_folders_filter
        declared_folders_def fst_fold_notes split: sum.splits)
  then show ?thesis by auto
qed


section \<open>Every failure is printed\<close>

definition printed :: "verdict \<Rightarrow> bool" where
  "printed v \<longleftrightarrow> (fst v \<longleftrightarrow> (\<forall>item. Fail item \<notin> set (snd v)))"

lemma printed_report [simp]: "printed v \<Longrightarrow> printed (report_check b item v)" "printed v \<Longrightarrow> printed (report_note item v)"
  by (auto simp: printed_def report_check_def report_note_def)

lemma printed_fold: "(\<And>x v. printed v \<Longrightarrow> printed (f x v)) \<Longrightarrow> printed v \<Longrightarrow> printed (fold f xs v)"
  by (induction xs arbitrary: v) auto

lemma printed_each: "printed v \<Longrightarrow> printed (snd (check_each ok item xs (b, v)))"
  by (induction ok item xs "(b, v)" arbitrary: b v rule: check_each.induct) auto

lemma each_flags:
  assumes "check_each ok item xs (b, v) = (b', v')" and "\<not> b \<longrightarrow> \<not> fst v"
  shows "\<not> b' \<longrightarrow> \<not> fst v'"
  using assms check_each_fst [OF assms(1)] by auto

lemma printed_projects:
  assumes "printed v" and "check_projects_and_folders ve us ids v = (ok, v')"
  shows "printed (if \<not> ok then (False, snd v') else v')"
proof -
  let ?ps = "sort (dedup [] (map su_project us))"
  obtain b v1 where one: "check_each (ve_project_ok ve) ProjectReachable ?ps (True, v) = (b, v1)" by (metis surj_pair)
  obtain c v2 where two: "check_each (ve_folder_ok ve) FolderReachable (dedup [] (sort ids)) (b, v1) = (c, v2)" by (metis surj_pair)
  have flags: "\<not> b \<longrightarrow> \<not> fst v1" using each_flags [OF one] by simp
  then have "\<not> c \<longrightarrow> \<not> fst v2" using each_flags [OF two] by simp
  moreover have v1: "printed v1" using printed_each [OF assms(1)] one by (metis snd_conv)
  then have "printed v2" using printed_each two by (metis snd_conv)
  ultimately show ?thesis
    using assms(2) one two flags v1 printed_report(1) [OF assms(1), of False] printed_report(1) [OF v1, of False]
    by (auto simp: check_projects_and_folders_def Let_def printed_def report_check_def split: if_splits)
qed

lemma printed_sinks:
  assumes "printed v" and "check_slack_sinks ve root v = (ok, v')"
  shows "printed (if \<not> ok then (False, snd v') else v')"
proof (cases "nc_slack (root_notify root) = []")
  case True
  with assms show ?thesis by (auto simp: check_slack_sinks_def)
next
  case False
  then obtain f where each: "check_each f SinkAccepts (sort (keys (nc_slack (root_notify root)))) (True, v) = (ok, v')"
    using assms(2) by (auto simp: check_slack_sinks_def Let_def)
  then have "\<not> ok \<longrightarrow> \<not> fst v'" using each_flags by blast
  moreover have "printed v'" using printed_each [OF assms(1)] each by (metis snd_conv)
  ultimately show ?thesis by (auto simp: printed_def)
qed

lemma printed_rbac: "printed v \<Longrightarrow> printed (validate_rbac ve v)"
  by (auto simp: validate_rbac_def split: option.split sum.split)

lemma printed_manifest: "printed v \<Longrightarrow> printed (validate_manifest ve p v)"
  by (auto simp: validate_manifest_def split: option.split sum.split)

lemma printed_validate: "printed (validate_repo ve gcp slack)"
proof -
  have start: "printed (True, [])" by (simp add: printed_def)
  have noted: "printed v \<Longrightarrow> printed (fold (\<lambda>(n, e). report_note (FoldersUnresolved n)) xs v)" for v xs
    by (rule printed_fold) auto
  have files: "printed v \<Longrightarrow> printed (fold (validate_manifest ve) ps v)" for v ps
    by (rule printed_fold) (auto intro: printed_manifest)
  have gcp_part: "printed v \<Longrightarrow> printed (case check_projects_and_folders ve us ids v of (ok, v) \<Rightarrow> if \<not> ok then (False, snd v) else v)" for us ids v
    using printed_projects by (cases "check_projects_and_folders ve us ids v") auto
  have slack_part: "printed v \<Longrightarrow> printed (case check_slack_sinks ve root v of (ok, v) \<Rightarrow> if \<not> ok then (False, snd v) else v)" for root v
    using printed_sinks by (cases "check_slack_sinks ve root v") auto
  show ?thesis
    unfolding validate_repo_def Let_def
    by (auto intro!: start noted files gcp_part slack_part printed_rbac printed_report split: option.split sum.split if_splits)
qed

lemma unfolded_resolve:
  assumes "concat (map (env_folders \<circ> snd) (root_environments root)) = []"
  shows "resolve_config resolver root = (root, [])"
proof -
  have same: "(case x of (n, e) \<Rightarrow> resolve_environment (f n) (n, e)) = (x, [])"
    if "x \<in> set (root_environments root)" for f :: "string \<Rightarrow> ('a + string list) list" and x
    using assms that by (cases x) (auto simp: resolve_environment_def)
  show ?thesis unfolding resolve_config_def Let_def by (simp add: same comp_def cong: map_cong)
qed

section \<open>What validation accepts\<close>

text \<open>C35: what offline validation accepts, and that it says why. \<open>runcd validate\<close> succeeds exactly when
  \<open>runcd.yaml\<close> is there, parses, has no unknown field and expands, every manifest of a unit that is in the
  directory parses, \<open>rbac.yaml\<close> is absent or parses without unknown fields, and, where the flags ask for them,
  every project, every folder and every Slack webhook answers; and it fails exactly when it printed a line
  that fails.\<close>

theorem validate_iff:
  "(fst (validate_repo ve gcp slack) \<longleftrightarrow>
      (\<exists>data root us. ve_read ve ''runcd.yaml'' = Some data \<and> config_parse (ve_dec_root ve) (ve_url ve) data = Inr root \<and>
         ve_strict_root ve data \<and> expand root = Inr us \<and> (\<forall>u \<in> set us. manifest_ok ve (su_source_path u)) \<and>
         rbac_ok ve \<and> (gcp \<longrightarrow> projects_ok ve us (declared_folders root)) \<and> (slack \<longrightarrow> sinks_ok ve root))) \<and>
   (\<not> fst (validate_repo ve gcp slack) \<longleftrightarrow> (\<exists>item. Fail item \<in> set (snd (validate_repo ve gcp slack))))"
proof
  show "fst (validate_repo ve gcp slack) \<longleftrightarrow>
      (\<exists>data root us. ve_read ve ''runcd.yaml'' = Some data \<and> config_parse (ve_dec_root ve) (ve_url ve) data = Inr root \<and>
         ve_strict_root ve data \<and> expand root = Inr us \<and> (\<forall>u \<in> set us. manifest_ok ve (su_source_path u)) \<and>
         rbac_ok ve \<and> (gcp \<longrightarrow> projects_ok ve us (declared_folders root)) \<and> (slack \<longrightarrow> sinks_ok ve root))"
  proof (cases "ve_read ve ''runcd.yaml''")
    case None
    then show ?thesis by (simp add: validate_repo_absent)
  next
    case (Some data)
    then show ?thesis
    proof (cases "config_parse (ve_dec_root ve) (ve_url ve) data")
      case (Inl e)
      with Some show ?thesis by (simp add: validate_repo_unparsed)
    next
      case (Inr root)
      then show ?thesis using Some validate_repo_config [OF Some Inr] by auto
    qed
  qed
  show "\<not> fst (validate_repo ve gcp slack) \<longleftrightarrow> (\<exists>item. Fail item \<in> set (snd (validate_repo ve gcp slack)))"
    using printed_validate by (auto simp: printed_def)
qed

text \<open>C36: validation stands for the controller. When a directory passes \<open>runcd validate\<close> and a controller's
  repository serves its \<open>runcd.yaml\<close> and \<open>rbac.yaml\<close>, which it decodes alike, and no environment declares a
  folder, then the controller loads exactly that configuration with the units that were validated, and the
  manifest of every unit, if it is in the directory, is one the reconciler can parse; \<open>rbac.yaml\<close>, if it is there,
  loads as well.\<close>

theorem validated_loads:
  assumes "fst (validate_repo ve gcp slack)" and "ve_read ve ''runcd.yaml'' = Some data"
    and "config_parse (ve_dec_root ve) (ve_url ve) data = Inr root" and "declared_folders root = []"
    and "ce_dec_root env = ve_dec_root ve" "ce_url env = ve_url ve" "ce_dec_rbac env = ve_dec_rbac ve"
    and "ce_get_file env (cs_repo cs) (cs_branch cs) (cs_path cs) w = (Inr data, w1)"
  shows "(\<exists>us w2. load_units env cs w = (Inr (root, us), w2) \<and> expand root = Inr us \<and>
      (\<forall>u \<in> set us. \<forall>body. ve_read ve (su_source_path u) = Some body \<longrightarrow>
         (\<exists>sd. manifest_parse (ve_dec_service ve) body = Inr sd))) \<and>
    (\<forall>rules w w'. ve_read ve ''rbac.yaml'' = Some rules \<longrightarrow>
       ce_get_file env (cs_repo cs) (cs_branch cs) (cs_rbac_path cs) w = (Inr rules, w') \<longrightarrow>
       (\<exists>cfg. load_rbac env cs w = (Inr cfg, w')))"
proof
  obtain us where us: "expand root = Inr us" "\<forall>u \<in> set us. manifest_ok ve (su_source_path u)" and rbac: "rbac_ok ve"
    using assms(1) validate_repo_config [OF assms(2,3)] by auto
  have resolved: "resolve_config r root = (root, [])" for r :: "nat \<Rightarrow> string \<Rightarrow> string + string list"
    using assms(4) by (simp add: unfolded_resolve declared_folders_def)
  show "\<exists>us w2. load_units env cs w = (Inr (root, us), w2) \<and> expand root = Inr us \<and>
      (\<forall>u \<in> set us. \<forall>body. ve_read ve (su_source_path u) = Some body \<longrightarrow>
         (\<exists>sd. manifest_parse (ve_dec_service ve) body = Inr sd))"
  proof -
    have "manifest_ok ve (su_source_path u) \<Longrightarrow> ve_read ve (su_source_path u) = Some body \<Longrightarrow>
        \<exists>sd. manifest_parse (ve_dec_service ve) body = Inr sd" for u body
      by (auto simp: manifest_ok_def split: sum.splits)
    moreover have "\<exists>w2. load_units env cs w = (Inr (root, us), w2)"
      using assms(3,5-8) us(1) by (simp add: load_units_def resolved split: prod.split)
    ultimately show ?thesis using us by blast
  qed
  show "\<forall>rules w w'. ve_read ve ''rbac.yaml'' = Some rules \<longrightarrow>
       ce_get_file env (cs_repo cs) (cs_branch cs) (cs_rbac_path cs) w = (Inr rules, w') \<longrightarrow>
       (\<exists>cfg. load_rbac env cs w = (Inr cfg, w'))"
    using rbac assms(7) by (auto simp: rbac_ok_def load_rbac_def)
qed

section \<open>Where commands arrive\<close>

lemma extract_flag_filter: "extract_flag as flag = (filter (\<lambda>a. a \<noteq> flag) as, flag \<in> set as)"
  by (induction as) auto

lemma two_args_Inr: "require_two_args args usage = Inr (a, b) \<longleftrightarrow> args = [a, b]"
  by (cases "(args, usage)" rule: require_two_args.cases) auto


section \<open>Witnesses\<close>

definition example_dir :: validate_env where
  "example_dir = \<lparr>ve_read = (\<lambda>p. if p = ''runcd.yaml'' then Some ''config'' else if p = ''web.yaml'' then Some ''web'' else None),
     ve_dec_root = (\<lambda>_. Inr (notify_root everything)), ve_strict_root = (\<lambda>_. True), ve_url = (\<lambda>_. Some (''https'', ''hooks'')),
     ve_dec_rbac = (\<lambda>_. Inr []), ve_strict_rbac = (\<lambda>_. True), ve_dec_service = (\<lambda>_. Inr example_service),
     ve_project_client = True, ve_project_ok = (\<lambda>p. p = ''p1''), ve_folder_client = False, ve_folder_ok = (\<lambda>_. True),
     ve_sink_ok = (\<lambda>url. url = ''https://hooks/1'')\<rparr>"

lemma example_service_parses: "\<exists>sd. manifest_parse (\<lambda>_. Inr example_service) data = Inr sd"
proof -
  have "distinct (keys (sd_env example_service))" by (simp add: example_service_def keys_def)
  then have "manifest_parse (\<lambda>_. Inr example_service) data = Inr (default_resource_type example_service)"
    using example_service_wf by (subst manifest_parse_Inr) (auto simp: sum.inject)
  then show ?thesis ..
qed

lemma example_dir_manifest: "manifest_ok example_dir p"
proof -
  have "case manifest_parse (\<lambda>_. Inr example_service) data of Inl e \<Rightarrow> False | Inr sd \<Rightarrow> True" for data
    using example_service_parses [of data] by auto
  then show ?thesis by (simp add: manifest_ok_def example_dir_def)
qed

lemma example_dir_valid: "fst (validate_repo example_dir False True)"
proof -
  obtain us where us: "expand (notify_root everything) = Inr us"
    using notify_root_expands [of everything] by (elim exE conjE)
  have "config_parse (ve_dec_root example_dir) (ve_url example_dir) ''config'' = Inr (notify_root everything)"
    using notify_root_parses [of everything "''config''"] by (simp add: example_dir_def)
  moreover have "rbac_ok example_dir" by (simp add: rbac_ok_def example_dir_def)
  moreover have "sinks_ok example_dir (notify_root everything)" by (simp add: sinks_ok_def example_dir_def keys_def)
  moreover have "ve_read example_dir ''runcd.yaml'' = Some ''config''" "ve_strict_root example_dir d" for d
    by (simp_all add: example_dir_def)
  ultimately show ?thesis using us by (simp add: validate_repo_config example_dir_manifest)
qed

theorem validate_iff_witness:
  "fst (validate_repo example_dir False True) \<and> \<not> fst (validate_repo example_dir True False) \<and>
   (\<exists>item. Fail item \<in> set (snd (validate_repo example_dir True False)))"
proof -
  obtain us where us: "expand (notify_root everything) = Inr us" and k: "map su_key us = [''web/p1'', ''web/p2'']"
    using notify_root_expands [of everything] by (elim exE conjE)
  have parse: "config_parse (ve_dec_root example_dir) (ve_url example_dir) ''config'' = Inr (notify_root everything)"
    using notify_root_parses [of everything "''config''"] by (simp add: example_dir_def)
  have "fst (validate_repo example_dir False True)" by (rule example_dir_valid)
  moreover have "\<not> fst (validate_repo example_dir True False)"
  proof
    assume "fst (validate_repo example_dir True False)"
    then have ok: "projects_ok example_dir us (declared_folders (notify_root everything))"
      using us parse unfolding validate_iff [THEN conjunct1] by (auto simp: example_dir_def)
    obtain t u where "us = [t, u]" "su_key u = ''web/p2''" using k by (auto simp: map_eq_Cons_conv)
    with ok have "su_project u = ''p1''" by (auto simp: projects_ok_def example_dir_def)
    with \<open>su_key u = ''web/p2''\<close> show False by (simp add: su_key_def unit_key_def)
  qed
  ultimately show ?thesis using validate_iff [THEN conjunct2, of example_dir True False] by blast
qed

theorem validated_loads_witness:
  "\<exists>us w2. load_units (repo_env True (notify_root everything)) repo_source ''world'' = (Inr (notify_root everything, us), w2) \<and>
     (\<forall>u \<in> set us. su_source_path u = ''web.yaml'' \<longrightarrow> (\<exists>sd. manifest_parse (\<lambda>_. Inr example_service) ''web'' = Inr sd))"
proof -
  have parse: "config_parse (ve_dec_root example_dir) (ve_url example_dir) ''config'' = Inr (notify_root everything)"
    using notify_root_parses [of everything "''config''"] by (simp add: example_dir_def)
  have "declared_folders (notify_root everything) = []" by (simp add: declared_folders_def notify_root_def)
  from validated_loads [OF example_dir_valid _ parse this, of "repo_env True (notify_root everything)" repo_source "''world''" "''world''"]
  show ?thesis by (auto simp: example_dir_def repo_env_def repo_source_def)
qed


section \<open>Where validation and controller part\<close>

text \<open>
  The validation never resolves folders before it expands, not even with \<open>--check-gcp\<close>, where it asks for each of
  them: an app that overrides a project its folder provides is reported not to expand, although a controller
  loads the same file.
\<close>

definition folder_dir :: validate_env where
  "folder_dir = example_dir\<lparr>ve_dec_root := (\<lambda>_. Inr folder_root), ve_url := (\<lambda>_. None), ve_folder_client := True,
     ve_project_ok := (\<lambda>_. True)\<rparr>"

definition folder_repo :: "(string, string) control_env" where
  "folder_repo = (repo_env True folder_root)\<lparr>ce_url := (\<lambda>_. None), ce_folders := (\<lambda>_ w. (\<lambda>_ _. Inr [''p1'', ''p2''], w))\<rparr>"

theorem folders_fail_validation:
  "\<not> fst (validate_repo folder_dir True False) \<and>
   (\<exists>us. load_units folder_repo repo_source w = (Inr (fst (resolve_config (\<lambda>_ _. Inr [''p1'', ''p2''] :: string + string list) folder_root), us), w))"
proof
  have parses: "config_parse (\<lambda>_. Inr folder_root) (\<lambda>_. None) data = Inr folder_root" for data
    using folder_outage_blocks_expand [THEN conjunct1] by (simp add: config_parse_def)
  have "expand folder_root = Inl (OverrideUnknownProject ''web'' ''p2'')"
    by (simp add: folder_root_def folder_env_def example_root_def expand_def lookup_environment_def unit_region_def unit_key_def
        check_app_projects_def first_some_Cons first_some_Nil check_def)
  then show "\<not> fst (validate_repo folder_dir True False)"
    using validate_repo_config [of folder_dir "''config''" folder_root True False] parses
    by (simp add: folder_dir_def example_dir_def)
  have "\<exists>us. expand (fst (resolve_config (\<lambda>_ _. Inr [''p1'', ''p2''] :: string + string list) folder_root)) = Inr us"
    by (simp add: resolve_config_def resolve_environment_def by_env_def folder_jobs_def resolve_all_def folder_root_def
        folder_env_def example_root_def expand_def lookup_environment_def unit_region_def unit_key_def
        check_app_projects_def first_some_Cons first_some_Nil check_def)
  then show "\<exists>us. load_units folder_repo repo_source w = (Inr (fst (resolve_config (\<lambda>_ _. Inr [''p1'', ''p2''] :: string + string list) folder_root), us), w)"
    using parses [of "''config''"]
    by (auto simp: load_units_def folder_repo_def repo_env_def repo_source_def split: prod.split)
qed

end
