(* ===== verification/Cli_Views.thy ===== *)
theory Cli_Views
  imports Cli
begin

text \<open>
  The values the HTTP API and its client exchange: the JSON objects the server's views are encoded as
  (the \<open>json\<close> tags of \<open>internal/api\<close>), the client's own copies of those types and how they are decoded
  (\<open>cmd/runcd/client.go\<close>), and what the client prints of them (\<open>render.go\<close>). A nil slice, which the server
  encodes as \<open>null\<close>, and an empty one are the same list here; both decode to the empty list.
\<close>

section \<open>JSON\<close>

datatype json = JNull | JBool bool | JNum int | JStr string | JArr "json list" | JObj "(string \<times> json) list"

text \<open>Fields are matched by name, ignoring case; the last one wins, \<open>null\<close> leaves a value as it is.\<close>

definition fold_case :: "string \<Rightarrow> string" where
  "fold_case = map (\<lambda>c. if CHR ''A'' \<le> c \<and> c \<le> CHR ''Z'' then char_of (of_char c + 32 :: nat) else c)"

type_synonym json_object = "(string \<times> json) list"

fun get_field :: "(json \<Rightarrow> string + 'a option) \<Rightarrow> string \<Rightarrow> 'a \<Rightarrow> json_object \<Rightarrow> string + 'a" where
  "get_field decode name a [] = Inr a"
| "get_field decode name a ((k, j) # o1) =
     (if fold_case k \<noteq> fold_case name then get_field decode name a o1
      else and_then (decode j) (\<lambda>found. get_field decode name (case found of None \<Rightarrow> a | Some b \<Rightarrow> b) o1))"

fun get_string :: "json \<Rightarrow> string + string option" where
  "get_string (JStr s) = Inr (Some s)"
| "get_string JNull = Inr None"
| "get_string j = Inl ''cannot unmarshal into string''"

fun get_bool :: "json \<Rightarrow> string + bool option" where
  "get_bool (JBool b) = Inr (Some b)"
| "get_bool JNull = Inr None"
| "get_bool j = Inl ''cannot unmarshal into bool''"

fun get_int :: "json \<Rightarrow> string + int option" where
  "get_int (JNum n) = Inr (Some n)"
| "get_int JNull = Inr None"
| "get_int j = Inl ''cannot unmarshal into int''"

text \<open>A pointer, a slice and a map are set to nil by \<open>null\<close>.\<close>

fun get_pointer :: "json \<Rightarrow> string + string option option" where
  "get_pointer (JStr s) = Inr (Some (Some s))"
| "get_pointer JNull = Inr (Some None)"
| "get_pointer j = Inl ''cannot unmarshal into string''"

fun traverse :: "('a \<Rightarrow> 'e + 'b) \<Rightarrow> 'a list \<Rightarrow> 'e + 'b list" where
  "traverse f [] = Inr []"
| "traverse f (x # xs) = and_then (f x) (\<lambda>y. and_then (traverse f xs) (\<lambda>ys. Inr (y # ys)))"

fun get_list :: "(json \<Rightarrow> string + 'a) \<Rightarrow> json \<Rightarrow> string + 'a list option" where
  "get_list decode (JArr js) = map_sum id Some (traverse decode js)"
| "get_list decode JNull = Inr (Some [])"
| "get_list decode j = Inl ''cannot unmarshal into slice''"

fun get_map :: "(json \<Rightarrow> string + 'a) \<Rightarrow> json \<Rightarrow> string + (string \<times> 'a) list option" where
  "get_map decode (JObj kvs) =
     map_sum id (\<lambda>ps. Some (foldl (\<lambda>m (k, a). put k a m) [] ps))
       (traverse (\<lambda>(k, j). map_sum id (Pair k) (decode j)) kvs)"
| "get_map decode JNull = Inr (Some [])"
| "get_map decode j = Inl ''cannot unmarshal into map''"

definition string_element :: "json \<Rightarrow> string + string" where
  "string_element j = map_sum id (case_option [] id) (get_string j)"

text \<open>A struct: \<open>null\<close> leaves its zero value.\<close>

fun get_struct :: "(json_object \<Rightarrow> string + 'a) \<Rightarrow> json \<Rightarrow> string + 'a" where
  "get_struct decode (JObj kvs) = decode kvs"
| "get_struct decode JNull = decode []"
| "get_struct decode j = Inl ''cannot unmarshal into struct''"

section \<open>What the server encodes\<close>

definition omit_empty :: "string \<Rightarrow> string \<Rightarrow> json_object" where
  "omit_empty k s = (if s = [] then [] else [(k, JStr s)])"

definition omit_empty_list :: "string \<Rightarrow> string list \<Rightarrow> json_object" where
  "omit_empty_list k xs = (if xs = [] then [] else [(k, JArr (map JStr xs))])"

text \<open>\<open>time.Time\<close> is encoded as its RFC 3339 text, which is an argument.\<close>

definition omit_nil_time :: "(time \<Rightarrow> string) \<Rightarrow> string \<Rightarrow> time option \<Rightarrow> json_object" where
  "omit_nil_time fmt k t = (case t of None \<Rightarrow> [] | Some t \<Rightarrow> [(k, JStr (fmt t))])"

definition encode_unit :: "(time \<Rightarrow> string) \<Rightarrow> unit_view \<Rightarrow> json" where
  "encode_unit fmt v = JObj
     ([(''app'', JStr (uv_app v)), (''project'', JStr (uv_project v)), (''env'', JStr (uv_env v)),
       (''region'', JStr (uv_region v)), (''auto'', JBool (uv_auto v))] @
      omit_empty ''desiredImage'' (uv_desired_image v) @ omit_empty ''liveImage'' (uv_live_image v) @
      omit_empty ''track'' (uv_track v) @ omit_empty ''version'' (uv_version v) @
      omit_empty ''repository'' (uv_repository v) @ omit_empty ''resourceType'' (uv_resource_type v) @
      [(''status'', JStr (uv_status v)), (''health'', JStr (uv_health v))] @
      omit_nil_time fmt ''lastReconciledAt'' (uv_last_reconciled v) @
      [(''canSync'', JBool (uv_can_sync v)), (''observing'', JBool (uv_observing v))] @
      omit_empty_list ''ignoreFields'' (uv_ignore_fields v) @
      omit_empty_list ''ignorePreconditions'' (uv_ignore_preconditions v))"

definition encode_event :: "(time \<Rightarrow> string) \<Rightarrow> sync_event \<Rightarrow> json" where
  "encode_event fmt e = JObj
     ([(''id'', JNum (se_id e)), (''trigger'', JStr (se_trigger e))] @ omit_empty ''actor'' (se_actor e) @
      omit_empty ''fromImage'' (se_from_image e) @
      [(''toImage'', JStr (se_to_image e)), (''startedAt'', JStr (fmt (se_started e)))] @
      omit_nil_time fmt ''finishedAt'' (se_finished e) @
      [(''result'', JStr (se_result e))] @ omit_empty ''error'' (se_error e))"

definition encode_dry_run :: "dry_run_view \<Rightarrow> json" where
  "encode_dry_run v = JObj
     ([(''app'', JStr (dv_app v)), (''project'', JStr (dv_project v)), (''status'', JStr (dv_status v)),
       (''health'', JStr (dv_health v))] @
      omit_empty ''desiredImage'' (dv_desired_image v) @ omit_empty ''liveImage'' (dv_live_image v) @
      [(''observing'', JBool (dv_observing v))])"

definition encode_sync :: "sync_response \<Rightarrow> json" where
  "encode_sync r = JObj [(''app'', JStr (sr_app r)), (''project'', JStr (sr_project r)),
     (''status'', JStr (sr_status r)), (''health'', JStr (sr_health r))]"

definition encode_rule :: "rbac_rule \<Rightarrow> json" where
  "encode_rule r = JObj [(''subject'', JStr (rule_subject r)), (''role'', JStr (rule_role r)),
     (''scope'', JArr (map JStr (rule_scope r)))]"

definition encode_orphan :: "orphan \<Rightarrow> json" where
  "encode_orphan x = JObj [(''project'', JStr (or_project x)), (''region'', JStr (or_region x)), (''app'', JStr (or_app x))]"

definition encode_env_rules :: "env_rules \<Rightarrow> json" where
  "encode_env_rules e = JObj [(''sink'', JStr (er_sink e)), (''rules'', JArr (map JStr (er_rules e)))]"

definition encode_config :: "config_view \<Rightarrow> json" where
  "encode_config v = JObj
     ([(''configRepo'', JStr (ri_config_repo (cv_runtime v))), (''configBranch'', JStr (ri_config_branch (cv_runtime v))),
       (''configPath'', JStr (ri_config_path (cv_runtime v))), (''rbacPath'', JStr (ri_rbac_path (cv_runtime v))),
       (''reconcileIntervalSeconds'', JNum (ri_interval_seconds (cv_runtime v))),
       (''managedFields'', JArr (map JStr (cv_managed_fields v))), (''notificationsEnabled'', JBool (cv_notifications v))] @
      (if cv_notify_by_env v = [] then []
       else [(''notifyByEnv'', JObj (map (\<lambda>(n, e). (n, encode_env_rules e)) (cv_notify_by_env v)))]))"

definition encode_batch :: "batch_result \<Rightarrow> json" where
  "encode_batch b = JObj
     ([(''app'', JStr (br_app b)), (''project'', JStr (br_project b))] @ omit_empty ''status'' (br_status b) @
      omit_empty ''health'' (br_health b) @ omit_empty ''skipped'' (br_skipped b) @
      (if br_deploy_failed b then [(''deployFailed'', JBool True)] else []))"

fun json_of :: "(time \<Rightarrow> string) \<Rightarrow> api_body \<Rightarrow> json option" where
  "json_of fmt (UnitsBody vs) = Some (JArr (map (encode_unit fmt) vs))"
| "json_of fmt (UnitBody v) = Some (encode_unit fmt v)"
| "json_of fmt (HistoryBody es) = Some (JArr (map (encode_event fmt) es))"
| "json_of fmt (DryRunBody v) = Some (encode_dry_run v)"
| "json_of fmt (RbacBody rs) = Some (JArr (map encode_rule rs))"
| "json_of fmt (ConfigBody v) = Some (encode_config v)"
| "json_of fmt (OrphansBody xs) = Some (JArr (map encode_orphan xs))"
| "json_of fmt (SyncBody r) = Some (encode_sync r)"
| "json_of fmt (BatchBody bs) = Some (JArr (map encode_batch bs))"
| "json_of fmt NoBody = None"

section \<open>What the client decodes\<close>

record cli_unit =
  cu_app :: string
  cu_project :: string
  cu_env :: string
  cu_region :: string
  cu_auto :: bool
  cu_desired_image :: string
  cu_live_image :: string
  cu_status :: string
  cu_health :: string
  cu_last_reconciled :: "string option"
  cu_can_sync :: bool
  cu_observing :: bool
  cu_ignore_fields :: "string list"
  cu_ignore_preconditions :: "string list"

record cli_event =
  he_id :: int
  he_trigger :: string
  he_actor :: string
  he_from_image :: string
  he_to_image :: string
  he_started :: string
  he_finished :: string
  he_result :: string
  he_error :: string

record cli_rule =
  cg_subject :: string
  cg_role :: string
  cg_scope :: "string list"

record cli_sync_response =
  cy_app :: string
  cy_project :: string
  cy_status :: string
  cy_health :: string

record cli_dry_run =
  cd_app :: string
  cd_project :: string
  cd_status :: string
  cd_health :: string
  cd_desired_image :: string
  cd_live_image :: string
  cd_observing :: bool

record cli_orphan =
  co_project :: string
  co_region :: string
  co_app :: string

record cli_env_notify =
  cn_sink :: string
  cn_rules :: "string list"

record cli_config =
  cc_repo :: string
  cc_branch :: string
  cc_path :: string
  cc_rbac_path :: string
  cc_interval_seconds :: int
  cc_managed_fields :: "string list"
  cc_notifications :: bool
  cc_notify_by_env :: "(string \<times> cli_env_notify) list"

abbreviation str_field :: "string \<Rightarrow> json_object \<Rightarrow> (string \<Rightarrow> string + 'a) \<Rightarrow> string + 'a" where
  "str_field name obj f \<equiv> and_then (get_field get_string name [] obj) f"

abbreviation flag_field :: "string \<Rightarrow> json_object \<Rightarrow> (bool \<Rightarrow> string + 'a) \<Rightarrow> string + 'a" where
  "flag_field name obj f \<equiv> and_then (get_field get_bool name False obj) f"

abbreviation strs_field :: "string \<Rightarrow> json_object \<Rightarrow> (string list \<Rightarrow> string + 'a) \<Rightarrow> string + 'a" where
  "strs_field name obj f \<equiv> and_then (get_field (get_list string_element) name [] obj) f"

definition decode_unit :: "json \<Rightarrow> string + cli_unit" where
  "decode_unit = get_struct (\<lambda>kvs.
     str_field ''app'' kvs (\<lambda>app. str_field ''project'' kvs (\<lambda>project. str_field ''env'' kvs (\<lambda>env.
     str_field ''region'' kvs (\<lambda>region. flag_field ''auto'' kvs (\<lambda>auto.
     str_field ''desiredImage'' kvs (\<lambda>desired. str_field ''liveImage'' kvs (\<lambda>live.
     str_field ''status'' kvs (\<lambda>status. str_field ''health'' kvs (\<lambda>health.
     and_then (get_field get_pointer ''lastReconciledAt'' None kvs) (\<lambda>last.
     flag_field ''canSync'' kvs (\<lambda>can_sync. flag_field ''observing'' kvs (\<lambda>observing.
     strs_field ''ignoreFields'' kvs (\<lambda>fields. strs_field ''ignorePreconditions'' kvs (\<lambda>preconditions.
       Inr \<lparr>cu_app = app, cu_project = project, cu_env = env, cu_region = region, cu_auto = auto,
         cu_desired_image = desired, cu_live_image = live, cu_status = status, cu_health = health,
         cu_last_reconciled = last, cu_can_sync = can_sync, cu_observing = observing, cu_ignore_fields = fields,
         cu_ignore_preconditions = preconditions\<rparr>)))))))))))))))"

definition decode_event :: "json \<Rightarrow> string + cli_event" where
  "decode_event = get_struct (\<lambda>kvs.
     and_then (get_field get_int ''id'' 0 kvs) (\<lambda>n. str_field ''trigger'' kvs (\<lambda>trigger.
     str_field ''actor'' kvs (\<lambda>actor. str_field ''fromImage'' kvs (\<lambda>source. str_field ''toImage'' kvs (\<lambda>target.
     str_field ''startedAt'' kvs (\<lambda>started. str_field ''finishedAt'' kvs (\<lambda>finished.
     str_field ''result'' kvs (\<lambda>outcome. str_field ''error'' kvs (\<lambda>err.
       Inr \<lparr>he_id = n, he_trigger = trigger, he_actor = actor, he_from_image = source, he_to_image = target,
         he_started = started, he_finished = finished, he_result = outcome, he_error = err\<rparr>))))))))))"

definition decode_dry_run :: "json \<Rightarrow> string + cli_dry_run" where
  "decode_dry_run = get_struct (\<lambda>kvs.
     str_field ''app'' kvs (\<lambda>app. str_field ''project'' kvs (\<lambda>project. str_field ''status'' kvs (\<lambda>status.
     str_field ''health'' kvs (\<lambda>health. str_field ''desiredImage'' kvs (\<lambda>desired.
     str_field ''liveImage'' kvs (\<lambda>live. flag_field ''observing'' kvs (\<lambda>observing.
       Inr \<lparr>cd_app = app, cd_project = project, cd_status = status, cd_health = health, cd_desired_image = desired,
         cd_live_image = live, cd_observing = observing\<rparr>))))))))"

definition decode_sync :: "json \<Rightarrow> string + cli_sync_response" where
  "decode_sync = get_struct (\<lambda>kvs.
     str_field ''app'' kvs (\<lambda>app. str_field ''project'' kvs (\<lambda>project. str_field ''status'' kvs (\<lambda>status.
     str_field ''health'' kvs (\<lambda>health.
       Inr \<lparr>cy_app = app, cy_project = project, cy_status = status, cy_health = health\<rparr>)))))"

definition decode_rule :: "json \<Rightarrow> string + cli_rule" where
  "decode_rule = get_struct (\<lambda>kvs.
     str_field ''subject'' kvs (\<lambda>subject. str_field ''role'' kvs (\<lambda>role. strs_field ''scope'' kvs (\<lambda>scope.
       Inr \<lparr>cg_subject = subject, cg_role = role, cg_scope = scope\<rparr>))))"

definition decode_orphan :: "json \<Rightarrow> string + cli_orphan" where
  "decode_orphan = get_struct (\<lambda>kvs.
     str_field ''project'' kvs (\<lambda>project. str_field ''region'' kvs (\<lambda>region. str_field ''app'' kvs (\<lambda>app.
       Inr \<lparr>co_project = project, co_region = region, co_app = app\<rparr>))))"

definition decode_env_notify :: "json \<Rightarrow> string + cli_env_notify" where
  "decode_env_notify = get_struct (\<lambda>kvs.
     str_field ''sink'' kvs (\<lambda>sink. strs_field ''rules'' kvs (\<lambda>rules. Inr \<lparr>cn_sink = sink, cn_rules = rules\<rparr>)))"

definition decode_config :: "json \<Rightarrow> string + cli_config" where
  "decode_config = get_struct (\<lambda>kvs.
     str_field ''configRepo'' kvs (\<lambda>repo. str_field ''configBranch'' kvs (\<lambda>branch. str_field ''configPath'' kvs (\<lambda>path.
     str_field ''rbacPath'' kvs (\<lambda>rbac. and_then (get_field get_int ''reconcileIntervalSeconds'' 0 kvs) (\<lambda>interval.
     strs_field ''managedFields'' kvs (\<lambda>managed. flag_field ''notificationsEnabled'' kvs (\<lambda>notifications.
     and_then (get_field (get_map decode_env_notify) ''notifyByEnv'' [] kvs) (\<lambda>by_env.
       Inr \<lparr>cc_repo = repo, cc_branch = branch, cc_path = path, cc_rbac_path = rbac, cc_interval_seconds = interval,
         cc_managed_fields = managed, cc_notifications = notifications, cc_notify_by_env = by_env\<rparr>)))))))))"

section \<open>What the client prints\<close>

definition newline :: char where "newline = CHR 0x0A"
definition tab :: char where "tab = CHR 0x09"

definition line :: "string \<Rightarrow> string" where "line s = s @ [newline]"

fun join_strings :: "string \<Rightarrow> string list \<Rightarrow> string" where
  "join_strings sep [] = []"
| "join_strings sep [s] = s"
| "join_strings sep (s # ss) = s @ sep @ join_strings sep ss"

definition show_bool :: "bool \<Rightarrow> string" where
  "show_bool b = (if b then ''true'' else ''false'')"

text \<open>The dash of the messages, in UTF-8.\<close>

definition em_dash :: string where "em_dash = [CHR 0xE2, CHR 0x80, CHR 0x94]"

definition or_dash :: "string \<Rightarrow> string" where
  "or_dash s = (if s = [] then ''-'' else s)"

text \<open>
  \<open>text/tabwriter\<close> with a padding of two blanks: the text is cut into lines and these at the tabs into cells; a cell
  that a tab ends is as wide, in runes, as the widest of the run of lines around it that have a cell ended by a tab in that
  column. Vertical tabs and form feeds, which it treats as separators too, are characters like others here.
\<close>

definition rune_count :: "string \<Rightarrow> nat" where
  "rune_count s = length (filter (\<lambda>c. of_char c div 64 \<noteq> (2 :: nat)) s)"

definition column_width :: "string list list \<Rightarrow> nat \<Rightarrow> nat \<Rightarrow> nat" where
  "column_width rows i j =
     (let in_column = (\<lambda>row. j + 1 < length row);
          block = takeWhile in_column (rev (take i rows)) @ takeWhile in_column (drop i rows)
      in foldr max (map (\<lambda>row. rune_count (row ! j)) block) 0 + 2)"

definition pad_row :: "string list list \<Rightarrow> nat \<Rightarrow> string" where
  "pad_row rows i =
     (let row = rows ! i in
      concat (map (\<lambda>j. row ! j @ replicate (column_width rows i j - rune_count (row ! j)) (CHR '' '')) [0..<length row - 1]) @ last row)"

definition tabulate :: "string \<Rightarrow> string" where
  "tabulate s = (let rows = map (split_at tab) (split_at newline s) in join_strings [newline] (map (pad_row rows) [0..<length rows]))"

definition tab_line :: "string list \<Rightarrow> string" where "tab_line cells = line (join_strings [tab] cells)"

definition render_units :: "cli_unit list \<Rightarrow> string" where
  "render_units us =
     (if us = [] then line ''No sync units configured.''
      else tabulate (tab_line [''ENV'', ''APP'', ''PROJECT'', ''STATUS'', ''HEALTH'', ''AUTO'', ''CAN SYNC''] @
        concat (map (\<lambda>u. tab_line [cu_env u, cu_app u, cu_project u, cu_status u, cu_health u, show_bool (cu_auto u),
          show_bool (cu_can_sync u)]) us)))"

definition render_unit :: "cli_unit \<Rightarrow> string" where
  "render_unit u =
     line (''App:             '' @ cu_app u) @ line (''Project:         '' @ cu_project u) @
     line (''Environment:     '' @ cu_env u) @ line (''Region:          '' @ cu_region u) @
     line (''Status:          '' @ cu_status u) @ line (''Health:          '' @ cu_health u) @
     line (''Auto-sync:       '' @ show_bool (cu_auto u)) @ line (''Can sync (you):  '' @ show_bool (cu_can_sync u)) @
     line (''Desired image:   '' @ or_dash (cu_desired_image u)) @ line (''Live image:      '' @ or_dash (cu_live_image u)) @
     line (''Last reconciled: '' @ (case cu_last_reconciled u of None \<Rightarrow> ''never'' | Some t \<Rightarrow> t)) @
     (if cu_observing u
      then line (''Observe mode:    on '' @ em_dash @ '' sync is disabled, status/health still tracked'') else []) @
     (if cu_ignore_fields u \<noteq> [] then line (''Ignores fields:  '' @ join_strings '', '' (cu_ignore_fields u)) else []) @
     (if cu_ignore_preconditions u \<noteq> []
      then line (''Ignores requires: '' @ join_strings '', '' (cu_ignore_preconditions u)) else [])"

definition render_history :: "cli_event list \<Rightarrow> string" where
  "render_history es =
     (if es = [] then line ''No sync attempts recorded yet for this unit.''
      else tabulate (tab_line [''STARTED'', ''TRIGGER'', ''ACTOR'', ''FROM'', ''TO'', ''RESULT'', ''ERROR''] @
        concat (map (\<lambda>e. tab_line [he_started e, he_trigger e, or_dash (he_actor e), short_digest (he_from_image e),
          short_digest (he_to_image e), he_result e, or_dash (he_error e)]) es)))"

definition render_rbac :: "cli_rule list \<Rightarrow> string" where
  "render_rbac rs =
     (if rs = [] then line (''No roles configured '' @ em_dash @ '' every sync request will be denied until rbac.yaml grants one.'')
      else tabulate (tab_line [''SUBJECT'', ''ROLE'', ''SCOPE''] @
        concat (map (\<lambda>r. tab_line [cg_subject r, cg_role r, join_strings '','' (cg_scope r)]) rs)))"

definition render_sync_response :: "cli_sync_response \<Rightarrow> string" where
  "render_sync_response r =
     line (cy_project r @ ''/'' @ cy_app r @ '': status='' @ cy_status r @ '' health='' @ cy_health r)"

definition render_dry_run :: "cli_dry_run \<Rightarrow> string" where
  "render_dry_run r =
     line (cd_project r @ ''/'' @ cd_app r @ '' (dry run '' @ em_dash @ '' nothing was deployed)'') @
     line (''Status:        '' @ cd_status r) @ line (''Health:        '' @ cd_health r) @
     line (''Desired image: '' @ or_dash (cd_desired_image r)) @ line (''Live image:    '' @ or_dash (cd_live_image r)) @
     (if cd_observing r
      then line (''Note:          this app is in observe mode '' @ em_dash @ '' a real sync would be blocked'') else [])"

definition render_orphans :: "cli_orphan list \<Rightarrow> string" where
  "render_orphans xs =
     (if xs = [] then line (''No orphaned services found '' @ em_dash @ '' every live Cloud Run service scanned is declared in config.'')
      else tabulate (tab_line [''PROJECT'', ''REGION'', ''SERVICE''] @
        concat (map (\<lambda>x. tab_line [co_project x, co_region x, co_app x]) xs)))"

definition render_config :: "cli_config \<Rightarrow> string" where
  "render_config c =
     line (''Config source:     '' @ cc_repo c @ ''@'' @ cc_branch c @ '':'' @ cc_path c) @
     line (''RBAC source:       '' @ cc_repo c @ ''@'' @ cc_branch c @ '':'' @ cc_rbac_path c) @
     line (''Reconcile interval: every '' @ show_int (cc_interval_seconds c) @ ''s'') @
     line (''Managed fields:    '' @ or_dash (join_strings '', '' (cc_managed_fields c))) @
     (if \<not> cc_notifications c then line ''Slack notifications: not configured''
      else line ''Slack notifications: enabled'' @
        (if cc_notify_by_env c = [] then []
         else line [] @ tabulate (tab_line [''ENVIRONMENT'', ''SINK'', ''RULES''] @
           concat (map (\<lambda>env. case lookup (cc_notify_by_env c) env of None \<Rightarrow> []
             | Some n \<Rightarrow> tab_line [env, cn_sink n, or_dash (join_strings '', '' (cn_rules n))])
             (sort (keys (cc_notify_by_env c)))))))"

text \<open>What a call of the API prints: its decoded body, which is the zero value when the body was empty.\<close>

fun respond :: "route \<Rightarrow> json \<Rightarrow> string + string" where
  "respond ListUnits j = map_sum id (render_units \<circ> case_option [] id) (get_list decode_unit j)"
| "respond UnitDetail j = map_sum id render_unit (decode_unit j)"
| "respond UnitHistory j = map_sum id (render_history \<circ> case_option [] id) (get_list decode_event j)"
| "respond DryRun j = map_sum id render_dry_run (decode_dry_run j)"
| "respond ListRbac j = map_sum id (render_rbac \<circ> case_option [] id) (get_list decode_rule j)"
| "respond ShowConfig j = map_sum id render_config (decode_config j)"
| "respond ListOrphans j = map_sum id (render_orphans \<circ> case_option [] id) (get_list decode_orphan j)"
| "respond SyncUnit j = map_sum id render_sync_response (decode_sync j)"
| "respond _ j = Inr []"

section \<open>What the views become\<close>

definition client_unit :: "(time \<Rightarrow> string) \<Rightarrow> unit_view \<Rightarrow> cli_unit" where
  "client_unit fmt v = \<lparr>cu_app = uv_app v, cu_project = uv_project v, cu_env = uv_env v, cu_region = uv_region v,
     cu_auto = uv_auto v, cu_desired_image = uv_desired_image v, cu_live_image = uv_live_image v,
     cu_status = uv_status v, cu_health = uv_health v, cu_last_reconciled = map_option fmt (uv_last_reconciled v),
     cu_can_sync = uv_can_sync v, cu_observing = uv_observing v, cu_ignore_fields = uv_ignore_fields v,
     cu_ignore_preconditions = uv_ignore_preconditions v\<rparr>"

definition client_event :: "(time \<Rightarrow> string) \<Rightarrow> sync_event \<Rightarrow> cli_event" where
  "client_event fmt e = \<lparr>he_id = se_id e, he_trigger = se_trigger e, he_actor = se_actor e,
     he_from_image = se_from_image e, he_to_image = se_to_image e, he_started = fmt (se_started e),
     he_finished = (case se_finished e of None \<Rightarrow> [] | Some t \<Rightarrow> fmt t), he_result = se_result e, he_error = se_error e\<rparr>"

definition client_dry_run :: "dry_run_view \<Rightarrow> cli_dry_run" where
  "client_dry_run v = \<lparr>cd_app = dv_app v, cd_project = dv_project v, cd_status = dv_status v, cd_health = dv_health v,
     cd_desired_image = dv_desired_image v, cd_live_image = dv_live_image v, cd_observing = dv_observing v\<rparr>"

definition client_sync :: "sync_response \<Rightarrow> cli_sync_response" where
  "client_sync r = \<lparr>cy_app = sr_app r, cy_project = sr_project r, cy_status = sr_status r, cy_health = sr_health r\<rparr>"

definition client_rule :: "rbac_rule \<Rightarrow> cli_rule" where
  "client_rule r = \<lparr>cg_subject = rule_subject r, cg_role = rule_role r, cg_scope = rule_scope r\<rparr>"

definition client_orphan :: "orphan \<Rightarrow> cli_orphan" where
  "client_orphan x = \<lparr>co_project = or_project x, co_region = or_region x, co_app = or_app x\<rparr>"

definition client_env_notify :: "env_rules \<Rightarrow> cli_env_notify" where
  "client_env_notify e = \<lparr>cn_sink = er_sink e, cn_rules = er_rules e\<rparr>"

definition client_config :: "config_view \<Rightarrow> cli_config" where
  "client_config v = \<lparr>cc_repo = ri_config_repo (cv_runtime v), cc_branch = ri_config_branch (cv_runtime v),
     cc_path = ri_config_path (cv_runtime v), cc_rbac_path = ri_rbac_path (cv_runtime v),
     cc_interval_seconds = ri_interval_seconds (cv_runtime v), cc_managed_fields = cv_managed_fields v,
     cc_notifications = cv_notifications v,
     cc_notify_by_env = map (\<lambda>(n, e). (n, client_env_notify e)) (cv_notify_by_env v)\<rparr>"

lemma fold_case_names:
  "map fold_case [
    ''app'', ''project'', ''env'', ''region'', ''auto'', ''desiredImage'', ''liveImage'', ''track'', ''version'',
    ''repository'', ''resourceType'', ''status'', ''health'', ''lastReconciledAt'', ''canSync'', ''observing'',
    ''ignoreFields'', ''ignorePreconditions'', ''id'', ''trigger'', ''actor'', ''fromImage'', ''toImage'',
    ''startedAt'', ''finishedAt'', ''result'', ''error'', ''subject'', ''role'', ''scope'', ''sink'', ''rules'',
    ''configRepo'', ''configBranch'', ''configPath'', ''rbacPath'', ''reconcileIntervalSeconds'', ''managedFields'',
    ''notificationsEnabled'', ''notifyByEnv''] = [
    ''app'', ''project'', ''env'', ''region'', ''auto'', ''desiredimage'', ''liveimage'', ''track'', ''version'',
    ''repository'', ''resourcetype'', ''status'', ''health'', ''lastreconciledat'', ''cansync'', ''observing'',
    ''ignorefields'', ''ignorepreconditions'', ''id'', ''trigger'', ''actor'', ''fromimage'', ''toimage'',
    ''startedat'', ''finishedat'', ''result'', ''error'', ''subject'', ''role'', ''scope'', ''sink'', ''rules'',
    ''configrepo'', ''configbranch'', ''configpath'', ''rbacpath'', ''reconcileintervalseconds'', ''managedfields'',
    ''notificationsenabled'', ''notifybyenv'']"
  by code_simp

lemma fold_case_simps:
  "fold_case ''app'' = ''app''" "fold_case ''project'' = ''project''" "fold_case ''env'' = ''env''"
  "fold_case ''region'' = ''region''" "fold_case ''auto'' = ''auto''" "fold_case ''desiredImage'' = ''desiredimage''"
  "fold_case ''liveImage'' = ''liveimage''" "fold_case ''track'' = ''track''" "fold_case ''version'' = ''version''"
  "fold_case ''repository'' = ''repository''" "fold_case ''resourceType'' = ''resourcetype''"
  "fold_case ''status'' = ''status''" "fold_case ''health'' = ''health''"
  "fold_case ''lastReconciledAt'' = ''lastreconciledat''" "fold_case ''canSync'' = ''cansync''"
  "fold_case ''observing'' = ''observing''" "fold_case ''ignoreFields'' = ''ignorefields''"
  "fold_case ''ignorePreconditions'' = ''ignorepreconditions''" "fold_case ''id'' = ''id''"
  "fold_case ''trigger'' = ''trigger''" "fold_case ''actor'' = ''actor''" "fold_case ''fromImage'' = ''fromimage''"
  "fold_case ''toImage'' = ''toimage''" "fold_case ''startedAt'' = ''startedat''"
  "fold_case ''finishedAt'' = ''finishedat''" "fold_case ''result'' = ''result''" "fold_case ''error'' = ''error''"
  "fold_case ''subject'' = ''subject''" "fold_case ''role'' = ''role''" "fold_case ''scope'' = ''scope''"
  "fold_case ''sink'' = ''sink''" "fold_case ''rules'' = ''rules''" "fold_case ''configRepo'' = ''configrepo''"
  "fold_case ''configBranch'' = ''configbranch''" "fold_case ''configPath'' = ''configpath''"
  "fold_case ''rbacPath'' = ''rbacpath''" "fold_case ''reconcileIntervalSeconds'' = ''reconcileintervalseconds''"
  "fold_case ''managedFields'' = ''managedfields''" "fold_case ''notificationsEnabled'' = ''notificationsenabled''"
  "fold_case ''notifyByEnv'' = ''notifybyenv''"
  using fold_case_names by simp_all

lemma and_then_assoc: "and_then (and_then x f) g = and_then x (\<lambda>a. and_then (f a) g)"
  by (cases x) simp_all

lemma get_field_append:
  "get_field d k a (xs @ ys) = and_then (get_field d k a xs) (\<lambda>b. get_field d k b ys)"
  by (induction d k a xs rule: get_field.induct) (auto simp: and_then_assoc intro!: arg_cong2 [where f = and_then])

lemma traverse_map: "(\<And>x. x \<in> set xs \<Longrightarrow> f (g x) = Inr (h x)) \<Longrightarrow> traverse f (map g xs) = Inr (map h xs)"
  by (induction xs) simp_all

lemma strings_decode [simp]: "traverse string_element (map JStr xs) = Inr xs"
  using traverse_map [of xs string_element JStr "\<lambda>x. x"] by (simp add: string_element_def)

text \<open>A field the server may leave out: another field does not read it, its own reads the value or the zero value.\<close>

lemma get_other_field:
  "fold_case n \<noteq> fold_case k \<Longrightarrow> get_field d k a (omit_empty n s) = Inr a"
  "fold_case n \<noteq> fold_case k \<Longrightarrow> get_field d k a (omit_empty_list n xs) = Inr a"
  "fold_case n \<noteq> fold_case k \<Longrightarrow> get_field d k a (omit_nil_time fmt n t) = Inr a"
  by (auto simp: omit_empty_def omit_empty_list_def omit_nil_time_def split: option.split)

lemma get_own_field:
  "get_field get_string k [] (omit_empty k s) = Inr s"
  "get_field (get_list string_element) k [] (omit_empty_list k xs) = Inr xs"
  "get_field get_pointer k None (omit_nil_time fmt k t) = Inr (map_option fmt t)"
  "get_field get_string k [] (omit_nil_time fmt k t) = Inr (case t of None \<Rightarrow> [] | Some t \<Rightarrow> fmt t)"
  by (auto simp: omit_empty_def omit_empty_list_def omit_nil_time_def split: option.split)

lemmas decode_simps = get_field_append get_own_field get_other_field fold_case_simps

text \<open>What the two sides agree on: the client decodes what the server encodes into its own view of it.\<close>

locale view_codec =
  fixes encode :: "'a \<Rightarrow> json" and decode :: "json \<Rightarrow> string + 'b" and view :: "'a \<Rightarrow> 'b"
  assumes round_trip: "decode (encode a) = Inr (view a)"
begin

lemma list_round_trip: "get_list decode (JArr (map encode xs)) = Inr (Some (map view xs))"
  by (simp add: traverse_map round_trip)

lemma map_round_trip:
  assumes "distinct (keys m)"
  shows "get_map decode (JObj (map (\<lambda>(n, a). (n, encode a)) m)) = Inr (Some (map (\<lambda>(n, a). (n, view a)) m))"
proof -
  have "traverse (\<lambda>(k, j). map_sum id (Pair k) (decode j)) (map (\<lambda>(n, a). (n, encode a)) m) = Inr (map (\<lambda>(n, a). (n, view a)) m)"
    by (rule traverse_map) (auto simp: round_trip)
  moreover have "foldl (\<lambda>m (k, a). put k a m) m0 ps = m0 @ ps"
    if "distinct (keys (m0 @ ps))" for m0 and ps :: "(string \<times> 'b) list"
    using that
  proof (induction ps arbitrary: m0)
    case (Cons p ps)
    then show ?case by (cases p) (auto simp: put_fresh keys_def)
  qed simp
  moreover have "keys (map (\<lambda>(n, a). (n, view a)) m) = keys m" by (induction m) (auto simp: keys_def)
  ultimately show ?thesis using assms by simp
qed

end

lemma decode_encode_unit: "decode_unit (encode_unit fmt v) = Inr (client_unit fmt v)"
  by (simp add: decode_unit_def encode_unit_def client_unit_def decode_simps)

lemma decode_encode_event: "decode_event (encode_event fmt e) = Inr (client_event fmt e)"
  by (simp add: decode_event_def encode_event_def client_event_def decode_simps)

lemma decode_encode_small:
  "decode_dry_run (encode_dry_run v) = Inr (client_dry_run v)" "decode_sync (encode_sync r) = Inr (client_sync r)"
  "decode_rule (encode_rule rule) = Inr (client_rule rule)" "decode_orphan (encode_orphan x) = Inr (client_orphan x)"
  "decode_env_notify (encode_env_rules e) = Inr (client_env_notify e)"
  by (simp_all add: decode_dry_run_def encode_dry_run_def client_dry_run_def decode_sync_def encode_sync_def client_sync_def
      decode_rule_def encode_rule_def client_rule_def decode_orphan_def encode_orphan_def client_orphan_def
      decode_env_notify_def encode_env_rules_def client_env_notify_def decode_simps)

interpretation units: view_codec "encode_unit fmt" decode_unit "client_unit fmt" for fmt
  by unfold_locales (rule decode_encode_unit)

interpretation events: view_codec "encode_event fmt" decode_event "client_event fmt" for fmt
  by unfold_locales (rule decode_encode_event)

interpretation rules: view_codec encode_rule decode_rule client_rule
  by unfold_locales (rule decode_encode_small)

interpretation orphans: view_codec encode_orphan decode_orphan client_orphan
  by unfold_locales (rule decode_encode_small)

interpretation env_rules: view_codec encode_env_rules decode_env_notify client_env_notify
  by unfold_locales (rule decode_encode_small)

lemma decode_encode_config:
  "distinct (keys (cv_notify_by_env v)) \<Longrightarrow> decode_config (encode_config v) = Inr (client_config v)"
  using env_rules.map_round_trip [of "cv_notify_by_env v"]
  by (cases "cv_notify_by_env v = []") (simp_all add: decode_config_def encode_config_def client_config_def decode_simps)

section \<open>Rows that break\<close>

text \<open>The error of a sync is printed verbatim: one with a line break takes more than its row of the history.\<close>

definition multi_line_event :: cli_event where
  "multi_line_event = \<lparr>he_id = 1, he_trigger = ''auto'', he_actor = [], he_from_image = [], he_to_image = [], he_started = ''t'',
     he_finished = [], he_result = ''failed'', he_error = ''revision is not ready:'' @ [newline] @ ''see logs''\<rparr>"

theorem history_row_split: "length (filter (\<lambda>c. c = newline) (render_history [multi_line_event])) = 3"
  by code_simp

section \<open>Round trip\<close>

text \<open>The client reads what the server writes. Every view of the API, encoded under the names of the server's
  types with their empty fields left out, decodes with the client's own types into a value with the same contents
  in each field the client knows.\<close>

theorem client_decodes_views:
  assumes "distinct (keys (cv_notify_by_env c))"
  shows "decode_unit (encode_unit fmt u) = Inr (client_unit fmt u) \<and> decode_event (encode_event fmt e) = Inr (client_event fmt e) \<and>
    decode_dry_run (encode_dry_run d) = Inr (client_dry_run d) \<and> decode_sync (encode_sync s) = Inr (client_sync s) \<and>
    decode_rule (encode_rule r) = Inr (client_rule r) \<and> decode_orphan (encode_orphan x) = Inr (client_orphan x) \<and>
    decode_config (encode_config c) = Inr (client_config c)"
  by (simp add: decode_encode_unit decode_encode_event decode_encode_small decode_encode_config assms)

definition example_config_view :: config_view where
  "example_config_view = \<lparr>cv_runtime = \<lparr>ri_config_repo = ''o/r'', ri_config_branch = ''main'', ri_config_path = ''runcd.yaml'',
       ri_rbac_path = ''rbac.yaml'', ri_interval_seconds = 30\<rparr>, cv_managed_fields = [], cv_notifications = True,
     cv_notify_by_env = [(''prd'', \<lparr>er_sink = ''default'', er_rules = [''syncFailed'']\<rparr>), (''dev'', \<lparr>er_sink = ''default'', er_rules = []\<rparr>)]\<rparr>"

theorem client_decodes_views_witness:
  "\<exists>c. decode_config (encode_config example_config_view) = Inr c \<and> cc_repo c = ''o/r'' \<and> cc_interval_seconds c = 30 \<and>
     map fst (cc_notify_by_env c) = [''prd'', ''dev''] \<and> cn_rules (snd (cc_notify_by_env c ! 0)) = [''syncFailed'']"
proof -
  have "distinct (keys (cv_notify_by_env example_config_view))" by (simp add: example_config_view_def keys_def)
  note round_trip = client_decodes_views [OF this]
  then have "decode_config (encode_config example_config_view) = Inr (client_config example_config_view)" by blast
  then show ?thesis by (simp add: client_config_def client_env_notify_def example_config_view_def)
qed

end
