(* ===== verification/Cli_Api.thy ===== *)
theory Cli_Api
  imports Cli_Views Api_Views Cli_Checks
begin

text \<open>
  The client and the server together: the whole command (\<open>run\<close> of \<open>cmd/runcd/main.go\<close>), the server's side of a
  request, and what a command prints in terms of the handler it reaches.
\<close>

section \<open>The whole command\<close>

datatype cli_output = Usage | Report "report_line list" | Printed string

text \<open>What is printed and the error; the parser of JSON is an argument.\<close>

definition cli_main ::
  "(string \<Rightarrow> string) \<Rightarrow> (string \<Rightarrow> string + string) \<Rightarrow> (string \<Rightarrow> validate_env) \<Rightarrow> 'w cli_transport \<Rightarrow>
     (string \<Rightarrow> string + json) \<Rightarrow> string list \<Rightarrow> 'w \<Rightarrow> (cli_output list \<times> cli_error option) \<times> 'w" where
  "cli_main getenv gcloud repo http parse args w =
     (case run_cli getenv gcloud args of
        Inl e \<Rightarrow> ((case e of NoCommand \<Rightarrow> [Usage] | UnknownCommand cmd \<Rightarrow> [Usage] | _ \<Rightarrow> [], Some e), w)
      | Inr (action, c) \<Rightarrow>
         (case action of
            ShowHelp \<Rightarrow> (([Usage], None), w)
          | Validate dir check_gcp check_slack \<Rightarrow>
              let (ok, lines) = validate_repo (repo dir) check_gcp check_slack
              in (([Report lines], if \<not> ok then Some ValidationFailed else None), w)
          | CallApi r meth path \<Rightarrow>
             (case cli_do http (\<lambda>body. and_then (parse body) (respond r)) c meth path w of
                (Inl e, w1) \<Rightarrow> (([], Some e), w1)
              | (Inr (Some text), w1) \<Rightarrow> (([Printed text], None), w1)
              | (Inr None, w1) \<Rightarrow> ((case respond r JNull of Inl e \<Rightarrow> [] | Inr text \<Rightarrow> [Printed text], None), w1))))"

text \<open>What the process writes to its error stream, and its exit status; \<open>http.StatusText\<close>, which is empty for a status it does
  not know, and the quoting of \<open>%q\<close> are arguments.\<close>

definition api_error_text :: "(nat \<Rightarrow> string) \<Rightarrow> nat \<Rightarrow> string \<Rightarrow> string" where
  "api_error_text status_text status body =
     (let text = status_text status; text = (if text = [] then ''HTTP '' @ show_nat status else text)
      in text @ '': '' @ trim_space body)"

definition cli_error_text :: "(nat \<Rightarrow> string) \<Rightarrow> (string \<Rightarrow> string) \<Rightarrow> cli_error \<Rightarrow> string" where
  "cli_error_text status_text quote e =
     (case e of
        NoCommand \<Rightarrow> ''no command given''
      | UnknownCommand cmd \<Rightarrow> ''unknown command '' @ quote cmd
      | UsageError usage \<Rightarrow> ''usage: runcd '' @ usage
      | ApiUrlRequired \<Rightarrow> ''RUNCD_API_URL is required''
      | TokenError err \<Rightarrow> ''gcloud auth print-identity-token: '' @ err
      | ValidationFailed \<Rightarrow> ''validation failed''
      | RequestFailed err \<Rightarrow> err
      | ResponseTooLong \<Rightarrow> ''response exceeded '' @ show_nat max_response_bytes @ '' byte limit''
      | ApiError status body \<Rightarrow> api_error_text status_text status body
      | DecodeFailed err \<Rightarrow> err)"

definition cli_process :: "(nat \<Rightarrow> string) \<Rightarrow> (string \<Rightarrow> string) \<Rightarrow> cli_error option \<Rightarrow> string \<times> nat" where
  "cli_process status_text quote err =
     (case err of None \<Rightarrow> ([], 0) | Some e \<Rightarrow> (line (''error: '' @ cli_error_text status_text quote e), 1))"

definition cli_program ::
  "(string \<Rightarrow> string) \<Rightarrow> (string \<Rightarrow> string + string) \<Rightarrow> (string \<Rightarrow> validate_env) \<Rightarrow> 'w cli_transport \<Rightarrow>
     (string \<Rightarrow> string + json) \<Rightarrow> (nat \<Rightarrow> string) \<Rightarrow> (string \<Rightarrow> string) \<Rightarrow> string list \<Rightarrow> 'w \<Rightarrow>
     (cli_output list \<times> string \<times> nat) \<times> 'w" where
  "cli_program getenv gcloud repo http parse status_text quote args w =
     (let ((printed, err), w1) = cli_main getenv gcloud repo http parse args w
      in ((printed, cli_process status_text quote err), w1))"

lemma trim_space_line: "trim_space (line s) = trim_space s"
proof -
  have nl: "newline \<in> {CHR 0x09, CHR 0x0A, CHR 0x0B, CHR 0x0C, CHR 0x0D}" by (simp add: newline_def)
  show ?thesis
  proof (cases "\<exists>c \<in> set s. \<not> (c = CHR '' '' \<or> c \<in> {CHR 0x09, CHR 0x0A, CHR 0x0B, CHR 0x0C, CHR 0x0D})")
    case True
    then show ?thesis using nl by (auto simp: trim_space_def line_def dropWhile_append1 Let_def)
  next
    case False
    with nl have "dropWhile (\<lambda>c. c = CHR '' '' \<or> c \<in> {CHR 0x09, CHR 0x0A, CHR 0x0B, CHR 0x0C, CHR 0x0D}) (line s) = []"
      "dropWhile (\<lambda>c. c = CHR '' '' \<or> c \<in> {CHR 0x09, CHR 0x0A, CHR 0x0B, CHR 0x0C, CHR 0x0D}) s = []"
      by (auto simp: line_def dropWhile_eq_Nil_conv)
    then show ?thesis unfolding trim_space_def Let_def by (metis rev.simps(1))
  qed
qed

section \<open>The server's side\<close>

definition response_of :: "(time \<Rightarrow> string) \<Rightarrow> (json \<Rightarrow> string) \<Rightarrow> api_body http_reply \<Rightarrow> http_response" where
  "response_of fmt print reply =
     (case reply of
        HttpError status msg \<Rightarrow> \<lparr>hp_status = status, hp_body = (line msg, None)\<rparr>
      | HttpJson status b \<Rightarrow> \<lparr>hp_status = status,
          hp_body = (case json_of fmt b of None \<Rightarrow> [] | Some j \<Rightarrow> line (print j), None)\<rparr>)"

definition api_server ::
  "string \<Rightarrow> (time \<Rightarrow> string) \<Rightarrow> (json \<Rightarrow> string) \<Rightarrow> 'w handler \<Rightarrow> 'w rec_world cli_transport" where
  "api_server base fmt print h req w =
     (case cut_prefix (cq_url req) base of
        None \<Rightarrow> (Inl ''no such host'', w)
      | Some path \<Rightarrow>
         (case mux_match (cq_method req) path of
            None \<Rightarrow> (Inr \<lparr>hp_status = 404, hp_body = (line ''404 page not found'', None)\<rparr>, w)
          | Some (r, values) \<Rightarrow>
              let (reply, w1) = serve h r \<lparr>rq_headers = (case cq_auth req of None \<Rightarrow> [] | Some a \<Rightarrow> [(''Authorization'', a)]),
                    rq_path = values, rq_query = []\<rparr> w
              in (Inr (response_of fmt print reply), w1)))"

section \<open>What a command prints\<close>

fun shown :: "(time \<Rightarrow> string) \<Rightarrow> api_body \<Rightarrow> string" where
  "shown fmt (UnitsBody vs) = render_units (map (client_unit fmt) vs)"
| "shown fmt (UnitBody v) = render_unit (client_unit fmt v)"
| "shown fmt (HistoryBody es) = render_history (map (client_event fmt) es)"
| "shown fmt (DryRunBody v) = render_dry_run (client_dry_run v)"
| "shown fmt (RbacBody rs) = render_rbac (map client_rule rs)"
| "shown fmt (ConfigBody v) = render_config (client_config v)"
| "shown fmt (OrphansBody xs) = render_orphans (map client_orphan xs)"
| "shown fmt (SyncBody r) = render_sync_response (client_sync r)"
| "shown fmt _ = []"

definition fits :: "route \<Rightarrow> api_body \<Rightarrow> bool" where
  "fits r b \<longleftrightarrow>
     (case b of UnitsBody vs \<Rightarrow> r = ListUnits | UnitBody v \<Rightarrow> r = UnitDetail | HistoryBody es \<Rightarrow> r = UnitHistory
      | DryRunBody v \<Rightarrow> r = DryRun | RbacBody rs \<Rightarrow> r = ListRbac | OrphansBody xs \<Rightarrow> r = ListOrphans
      | SyncBody s \<Rightarrow> r = SyncUnit | ConfigBody v \<Rightarrow> r = ShowConfig \<and> distinct (keys (cv_notify_by_env v))
      | _ \<Rightarrow> False)"

lemma respond_shown: "fits r b \<Longrightarrow> \<exists>j. json_of fmt b = Some j \<and> respond r j = Inr (shown fmt b)"
  by (cases b)
    (simp_all add: fits_def units.list_round_trip events.list_round_trip rules.list_round_trip orphans.list_round_trip
      decode_encode_unit decode_encode_small decode_encode_config del: get_list.simps)

text \<open>Which replies a handler gives.\<close>

definition reply_ok :: "(api_body \<Rightarrow> bool) \<Rightarrow> api_body http_reply \<Rightarrow> bool" where
  "reply_ok P reply \<longleftrightarrow> (case reply of HttpError s m \<Rightarrow> 400 \<le> s | HttpJson s b \<Rightarrow> P b)"

lemma reply_ok_encode:
  "reply_ok P (encode f x) \<longleftrightarrow> (case x of HttpError s m \<Rightarrow> 400 \<le> s | HttpJson s b \<Rightarrow> P (f b))"
  by (cases x) (simp_all add: reply_ok_def)

lemmas handlers = handle_list_units_def handle_unit_detail_def handle_unit_history_def handle_dry_run_def
  handle_list_rbac_def handle_config_def handle_orphans_def handle_sync_def verify_def

lemma serve_reply:
  assumes "r \<noteq> SyncBatch" "r \<noteq> ImageEvent"
    and "\<And>e. ha_notifier h = Some (EvaluatorNotifier e) \<Longrightarrow> distinct (keys (ev_environments e))"
  shows "reply_ok (fits r) (fst (serve h r rq w))"
proof -
  have envs: "keys (resolved_rules e d) = keys (ev_environments e)" for e d
    by (induction "ev_environments e" arbitrary: e) (auto simp: resolved_rules_def keys_def)
  have none: "keys ([] :: (string \<times> env_rules) list) = []" by (simp add: keys_def)
  show ?thesis
    using assms
    by (cases r)
      (auto simp: reply_ok_encode fits_def handlers Let_def envs none split: sum.split option.split prod.split notifier.split)
qed

lemma run_cli_call:
  assumes "cli_call cmd rest = Inr action" and "getenv ''RUNCD_API_URL'' \<noteq> []"
    and "identity_token gcloud (getenv ''RUNCD_IAP_AUDIENCE'') = Inr token"
  shows "run_cli getenv gcloud (cmd # rest) = Inr (action, cli_new_client (getenv ''RUNCD_API_URL'') token)"
proof -
  have "cmd \<in> {''units'', ''get'', ''history'', ''sync'', ''rbac'', ''config'', ''orphans''}"
    using assms(1) by (auto split: if_splits)
  then show ?thesis using assms by (auto simp: run_cli_def simp del: cli_call.simps)
qed

text \<open>The request that the server sees of a call.\<close>

definition bearer_headers :: "string \<Rightarrow> (string \<times> string) list" where
  "bearer_headers token = (if token \<noteq> [] then [(''Authorization'', ''Bearer '' @ token)] else [])"

lemma api_server_call:
  assumes "mux_match meth path = Some (r, vs)"
    and "serve h r \<lparr>rq_headers = bearer_headers token, rq_path = vs, rq_query = []\<rparr> w = (reply, w')"
  shows "cli_do (api_server (trim_suffix url ''/'') fmt print h) decode (cli_new_client url token) meth path w =
    cli_do (\<lambda>req w. (Inr (response_of fmt print reply), w')) decode (cli_new_client url token) meth path w"
  using assms by (auto simp: cli_do_def api_server_def cli_new_client_def bearer_headers_def)

lemma cli_do_response:
  assumes "length body \<le> max_response_bytes"
  shows "cli_do (\<lambda>req w. (Inr \<lparr>hp_status = s, hp_body = (body, None)\<rparr>, w')) decode c meth path w =
    (if s < 200 \<or> s \<ge> 300 then Inl (ApiError s body) else if body = [] then Inr None
     else case decode body of Inl e \<Rightarrow> Inl (DecodeFailed e) | Inr a \<Rightarrow> Inr (Some a), w')"
  using assms by (simp add: cli_do_def limited_def)

lemma line_ne [simp]: "line s \<noteq> []" by (simp add: line_def)

lemma cli_call_outcome:
  assumes "cli_call cmd rest = Inr (CallApi r meth path)" and "mux_match meth path = Some (r, vs)"
    and "getenv ''RUNCD_API_URL'' \<noteq> []" and "identity_token gcloud (getenv ''RUNCD_IAP_AUDIENCE'') = Inr token"
    and "serve h r \<lparr>rq_headers = bearer_headers token, rq_path = vs, rq_query = []\<rparr> w = (reply, w')"
    and "length (fst (hp_body (response_of fmt print reply))) \<le> max_response_bytes"
    and "\<And>s b j. reply = HttpJson s b \<Longrightarrow> json_of fmt b = Some j \<Longrightarrow> parse (line (print j)) = Inr j"
    and "\<And>e. ha_notifier h = Some (EvaluatorNotifier e) \<Longrightarrow> distinct (keys (ev_environments e))"
  shows "cli_main getenv gcloud repo (api_server (trim_suffix (getenv ''RUNCD_API_URL'') ''/'') fmt print h) parse (cmd # rest) w =
    (case reply of
       HttpError s msg \<Rightarrow> ([], Some (ApiError s (line msg)))
     | HttpJson s b \<Rightarrow>
         if s < 200 \<or> s \<ge> 300 then ([], Some (ApiError s (fst (hp_body (response_of fmt print reply)))))
         else ([Printed (shown fmt b)], None), w')"
proof -
  have "r \<noteq> SyncBatch" "r \<noteq> ImageEvent" using assms(1) by (auto simp: and_then_Inr split: if_splits prod.splits)
  then have ok: "reply_ok (fits r) reply" using serve_reply [OF _ _ assms(8)] assms(5) by (metis fst_conv)
  note run = run_cli_call [OF assms(1,3,4)] api_server_call [OF assms(2,5)]
  show ?thesis
  proof (cases reply)
    case (HttpError s msg)
    then show ?thesis
      using ok assms(6) by (simp add: cli_main_def run response_of_def cli_do_response reply_ok_def)
  next
    case (HttpJson s b)
    then obtain j where j: "json_of fmt b = Some j" "respond r j = Inr (shown fmt b)"
      using ok respond_shown [of r b fmt] by (auto simp: reply_ok_def)
    with HttpJson assms(7) have "parse (line (print j)) = Inr j" by blast
    with j HttpJson show ?thesis
      using assms(6) by (simp add: cli_main_def run response_of_def cli_do_response)
  qed
qed

text \<open>C38: what a command prints is what its handler answers. A command that a running server receives whose reply
  fits the client's limit prints, on a success, the very view the handler computed for the caller that the
  token names, field by field, and exits with status 0; otherwise it prints nothing, reports the handler's status and
  message on its error stream and exits with status 1. The server is left as the handler leaves it.\<close>

theorem cli_end_to_end:
  assumes "cli_call cmd rest = Inr (CallApi r meth path)" and "mux_match meth path = Some (r, vs)"
    and "getenv ''RUNCD_API_URL'' \<noteq> []" and "identity_token gcloud (getenv ''RUNCD_IAP_AUDIENCE'') = Inr token"
    and "serve h r \<lparr>rq_headers = bearer_headers token, rq_path = vs, rq_query = []\<rparr> w = (reply, w')"
    and "length (fst (hp_body (response_of fmt print reply))) \<le> max_response_bytes"
    and "\<And>s b j. reply = HttpJson s b \<Longrightarrow> json_of fmt b = Some j \<Longrightarrow> parse (line (print j)) = Inr j"
    and "\<And>e. ha_notifier h = Some (EvaluatorNotifier e) \<Longrightarrow> distinct (keys (ev_environments e))"
  shows "cli_program getenv gcloud repo (api_server (trim_suffix (getenv ''RUNCD_API_URL'') ''/'') fmt print h) parse
      status_text quote (cmd # rest) w =
    (case reply of
       HttpError s msg \<Rightarrow> ([], line (''error: '' @ api_error_text status_text s msg), 1)
     | HttpJson s b \<Rightarrow>
         if s < 200 \<or> s \<ge> 300
         then ([], line (''error: '' @ api_error_text status_text s (fst (hp_body (response_of fmt print reply)))), 1)
         else ([Printed (shown fmt b)], [], 0), w')"
proof -
  have "api_error_text status_text s (line msg) = api_error_text status_text s msg" for s msg
    by (simp add: api_error_text_def trim_space_line)
  then show ?thesis
    using cli_call_outcome [OF assms, where repo = repo]
    by (auto simp: cli_program_def cli_process_def cli_error_text_def split: http_reply.splits)
qed

definition cli_env :: "string \<Rightarrow> string" where
  "cli_env key = (if key = ''RUNCD_API_URL'' then ''http://api/'' else [])"

definition some_status_text :: "nat \<Rightarrow> string" where
  "some_status_text s = (if s = 404 then ''Not Found'' else [])"

theorem cli_end_to_end_witness:
  "cli_program cli_env (\<lambda>_. Inl []) (\<lambda>_. example_dir) (api_server ''http://api'' show_int (\<lambda>_. ''[]'') (api_handler web_rules))
     (\<lambda>_. Inr (JArr (map encode_rule web_rules))) some_status_text id [''rbac''] example_rec_world =
       (([Printed (render_rbac (map client_rule web_rules))], [], 0), example_rec_world) \<and>
   fst (cli_program cli_env (\<lambda>_. Inl []) (\<lambda>_. example_dir) (api_server ''http://api'' show_int (\<lambda>_. ''[]'') (api_handler web_rules))
     (\<lambda>_. Inr JNull) some_status_text id [''sync'', ''p'', ''nope''] example_rec_world) =
       ([], line ''error: Not Found: unknown app/project'', 1)"
proof
  have tok: "identity_token g (cli_env ''RUNCD_IAP_AUDIENCE'') = Inr []" for g by (simp add: identity_token_def cli_env_def)
  have url: "cli_env ''RUNCD_API_URL'' \<noteq> []" "trim_suffix (cli_env ''RUNCD_API_URL'') ''/'' = ''http://api''"
    by (simp_all add: cli_env_def trim_suffix_def has_suffix_def)
  have rules: "serve (api_handler web_rules) ListRbac rq w = (HttpJson 200 (RbacBody web_rules), w)" for rq w
    by (simp add: handle_list_rbac_def verify_def)
  have none: "ha_notifier (api_handler web_rules) \<noteq> Some (EvaluatorNotifier e)" for e by (simp add: api_handler_def)
  have small: "length (fst (hp_body (response_of show_int (\<lambda>_. ''[]'') (HttpJson 200 (RbacBody web_rules))))) \<le> max_response_bytes"
    by (simp add: response_of_def line_def max_response_bytes_def)
  show "cli_program cli_env (\<lambda>_. Inl []) (\<lambda>_. example_dir) (api_server ''http://api'' show_int (\<lambda>_. ''[]'') (api_handler web_rules))
     (\<lambda>_. Inr (JArr (map encode_rule web_rules))) some_status_text id [''rbac''] example_rec_world =
       (([Printed (render_rbac (map client_rule web_rules))], [], 0), example_rec_world)"
    using cli_end_to_end [where cmd = "''rbac''" and rest = "[]" and r = ListRbac and meth = "''GET''" and path = "''/api/rbac''"
        and vs = "[]" and repo = "\<lambda>_. example_dir" and parse = "\<lambda>_. Inr (JArr (map encode_rule web_rules))"
        and status_text = some_status_text and quote = id,
        OF _ _ url(1) tok rules small] none
    by (simp add: url mux_match_def match_route_def)
  have lost: "serve (api_handler web_rules) SyncUnit \<lparr>rq_headers = bearer_headers [],
       rq_path = [(''project'', ''p''), (''app'', ''nope'')], rq_query = []\<rparr> w = (HttpError 404 ''unknown app/project'', w)" for w
    by (simp add: handle_sync_def verify_def get_value_def static_find_def app_key_def)
  have msg_text: "api_error_text some_status_text 404 ''unknown app/project'' = ''Not Found: unknown app/project''"
    by (simp add: api_error_text_def some_status_text_def trim_space_def)
  show "fst (cli_program cli_env (\<lambda>_. Inl []) (\<lambda>_. example_dir) (api_server ''http://api'' show_int (\<lambda>_. ''[]'') (api_handler web_rules))
     (\<lambda>_. Inr JNull) some_status_text id [''sync'', ''p'', ''nope''] example_rec_world) =
       ([], line ''error: Not Found: unknown app/project'', 1)"
    using cli_end_to_end [where cmd = "''sync''" and rest = "[''p'', ''nope'']" and r = SyncUnit and meth = "''POST''"
        and path = "''/api/sync/'' @ unit_path ''p'' ''nope''" and vs = "[(''project'', ''p''), (''app'', ''nope'')]"
        and repo = "\<lambda>_. example_dir" and parse = "\<lambda>_. Inr JNull"
        and fmt = show_int and print = "\<lambda>_. ''[]''" and w = example_rec_world and status_text = some_status_text and quote = id,
        OF _ mux_match_unit(2) url(1) tok lost] none msg_text
    by (simp add: url response_of_def line_def max_response_bytes_def)
qed

section \<open>A partial scan\<close>

text \<open>
  The server answers an orphan scan that could not read every project with 206, so that it is not read as
  definitive; the client prints the same table, without a remark, for a 206 as for a 200.
\<close>

theorem partial_scan_silent:
  "cli_main getenv gcloud repo (\<lambda>_ w. (Inr \<lparr>hp_status = 206, hp_body = b\<rparr>, w)) parse [''orphans''] w =
   cli_main getenv gcloud repo (\<lambda>_ w. (Inr \<lparr>hp_status = 200, hp_body = b\<rparr>, w)) parse [''orphans''] w"
proof -
  have same: "cli_do (\<lambda>_ w. (Inr \<lparr>hp_status = 206, hp_body = b\<rparr>, w)) d c meth path w =
      cli_do (\<lambda>_ w. (Inr \<lparr>hp_status = 200, hp_body = b\<rparr>, w)) d c meth path w"
    for d :: "string \<Rightarrow> string + string" and c meth path
    by (cases "limited b") (auto simp: cli_do_def split: option.split)
  show ?thesis
    by (cases "run_cli getenv gcloud [''orphans'']") (auto simp: cli_main_def same split: cli_action.split)
qed

end
