(* ===== verification/Process.thy ===== *)
theory Process
  imports Controller
begin

text \<open>
  The process around the controller (\<open>run\<close> and \<open>randomID\<close> of \<open>cmd/controller/main.go\<close>, \<open>NewClient\<close> of
  \<open>internal/githubapp\<close>): the name under which a replica claims the lease, the private key it signs with, and how
  the process ends.
\<close>

section \<open>Identity\<close>

definition hex_digit :: "nat \<Rightarrow> char" where
  "hex_digit d = char_of (if d < 10 then 48 + d else 87 + d)"

definition hex_encode :: "string \<Rightarrow> string" where
  "hex_encode bs = concat (map (\<lambda>c. [hex_digit (of_char c div 16), hex_digit (of_char c mod 16)]) bs)"

text \<open>The bytes of \<open>crypto/rand\<close>, or none when reading them fails.\<close>

definition random_id :: "string option \<Rightarrow> time \<Rightarrow> string" where
  "random_id bytes now = (case bytes of None \<Rightarrow> ''fallback-'' @ show_int now | Some bs \<Rightarrow> hex_encode bs)"

section \<open>The private key\<close>

datatype key_error = NoPemBlock | BadKey string | NotRsa

text \<open>\<open>pem.Decode\<close>'s block, and the two parsers of it; a key that is no RSA key is \<^term>\<open>None\<close>.\<close>

record 'k key_decoders =
  kd_pem :: "string \<Rightarrow> string option"
  kd_pkcs1 :: "string \<Rightarrow> string + 'k"
  kd_pkcs8 :: "string \<Rightarrow> string + 'k option"

fun unescape_newlines :: "string \<Rightarrow> string" where
  "unescape_newlines (a # b # s) =
     (if a = CHR 0x5C \<and> b = CHR ''n'' then CHR 0x0A # unescape_newlines s else a # unescape_newlines (b # s))"
| "unescape_newlines s = s"

definition parse_app_key :: "'k key_decoders \<Rightarrow> string \<Rightarrow> key_error + 'k" where
  "parse_app_key kd pem =
     (case (case kd_pem kd pem of None \<Rightarrow> kd_pem kd (unescape_newlines pem) | Some block \<Rightarrow> Some block) of
        None \<Rightarrow> Inl NoPemBlock
      | Some block \<Rightarrow>
         (case kd_pkcs1 kd block of
            Inr key \<Rightarrow> Inr key
          | Inl e \<Rightarrow>
             (case kd_pkcs8 kd block of Inl e2 \<Rightarrow> Inl (BadKey e) | Inr None \<Rightarrow> Inl NotRsa | Inr (Some key) \<Rightarrow> Inr key)))"

section \<open>The end of the process\<close>

definition shutdown_grace :: int where "shutdown_grace = 10 * second"
definition shutdown_wait_timeout :: int where "shutdown_wait_timeout = 15 * second"

text \<open>When and why \<open>run\<close> stops waiting: a signal, or the server failing; \<open>pick\<close> is the choice of \<open>select\<close> when both are
  there.\<close>

definition stop_at :: "bool \<Rightarrow> time option \<Rightarrow> (time \<times> string) option \<Rightarrow> (time \<times> string option) option" where
  "stop_at pick signal failure =
     (case (signal, failure) of
        (None, None) \<Rightarrow> None
      | (Some t, None) \<Rightarrow> Some (t, None)
      | (None, Some (t, e)) \<Rightarrow> Some (t, Some e)
      | (Some t, Some (t', e)) \<Rightarrow> if t < t' \<or> (t = t' \<and> pick) then Some (t, None) else Some (t', Some e))"

text \<open>The shutdown of the server takes as long as \<open>drain\<close>, at most the deadline of its context; each of the goroutines
  returns some time after its context is cancelled, or never. The result: when \<open>run\<close> returns, with which error, and
  whether it gave up waiting.\<close>

definition run_until ::
  "bool \<Rightarrow> time option \<Rightarrow> (time \<times> string) option \<Rightarrow> (time \<Rightarrow> int) \<Rightarrow> (time \<Rightarrow> time option) list \<Rightarrow>
     (time \<times> string option \<times> bool) option" where
  "run_until pick signal failure drain goroutines =
     (case stop_at pick signal failure of
        None \<Rightarrow> None
      | Some (t, err) \<Rightarrow>
          let t1 = t + min shutdown_grace (drain t); deadline = t1 + shutdown_wait_timeout;
              exits = map (\<lambda>g. g t) goroutines
          in if list_all (\<lambda>x. case x of None \<Rightarrow> False | Some d \<Rightarrow> d \<le> deadline) exits
             then Some (foldr (\<lambda>x d. case x of None \<Rightarrow> d | Some e \<Rightarrow> max e d) exits t1, err, False)
             else Some (deadline, err, True))"

section \<open>What is shown\<close>

lemma hex_digit_inj: "\<lbrakk> hex_digit a = hex_digit b; a < 16; b < 16 \<rbrakk> \<Longrightarrow> a = b"
proof -
  have "inj_on hex_digit {0..<16}"
    unfolding inj_on_def hex_digit_def by (auto simp: char_of_eq_iff of_char_of take_bit_eq_mod)
  then show "\<lbrakk> hex_digit a = hex_digit b; a < 16; b < 16 \<rbrakk> \<Longrightarrow> a = b" by (auto simp: inj_on_def)
qed

lemma hex_encode_inj: "hex_encode bs = hex_encode cs \<Longrightarrow> bs = cs"
proof (induction bs arbitrary: cs)
  case Nil
  then show ?case by (cases cs) (auto simp: hex_encode_def)
next
  case (Cons b bs)
  then obtain c cs' where cs: "cs = c # cs'" by (cases cs) (auto simp: hex_encode_def)
  have less: "of_char x div 16 < (16 :: nat)" "of_char x mod 16 < (16 :: nat)" for x
    using nat_of_char_less_256 [of x] by (auto intro: less_mult_imp_div_less)
  have "of_char b div 16 = (of_char c div 16 :: nat)" "of_char b mod 16 = (of_char c mod 16 :: nat)"
    using Cons.prems less by (auto simp: cs hex_encode_def dest!: hex_digit_inj)
  then have "(of_char b :: nat) = of_char c" by (metis mult_div_mod_eq)
  moreover have "bs = cs'" using Cons by (simp add: cs hex_encode_def)
  ultimately show ?case by (simp add: cs of_char_eq_iff)
qed

lemma length_hex_encode: "length (hex_encode bs) = 2 * length bs"
  by (induction bs) (auto simp: hex_encode_def)

lemma read_settings_holder:
  "read_settings getenv pd random = Inr s \<Longrightarrow> st_holder s = env_or_default getenv ''K_REVISION'' ''controller'' @ CHR ''-'' # random"
  by (auto simp: read_settings_def required_env_def Let_def split: if_splits option.splits)

text \<open>Replicas do not share a name. Two processes that drew their random bytes claim the leader lease under the same
  holder exactly when they run the same revision and drew the same eight bytes; in particular a shared host name or
  revision does not make two replicas one holder, which is what the exclusion of the lease rests on.\<close>

theorem holders_distinct:
  assumes "read_settings getenv pd (random_id (Some bs) now) = Inr s" and "read_settings getenv' pd' (random_id (Some bs') now') = Inr s'"
    and "length bs = 8" and "length bs' = 8"
  shows "st_holder s = st_holder s' \<longleftrightarrow>
    env_or_default getenv ''K_REVISION'' ''controller'' = env_or_default getenv' ''K_REVISION'' ''controller'' \<and> bs = bs'"
proof -
  have "length (hex_encode bs) = length (hex_encode bs')" by (simp add: length_hex_encode assms)
  then show ?thesis
    using read_settings_holder [OF assms(1)] read_settings_holder [OF assms(2)] hex_encode_inj [of bs bs']
    by (auto simp: random_id_def)
qed

lemma unescape_newlines_id: "CHR 0x5C \<notin> set s \<Longrightarrow> unescape_newlines s = s"
  by (induction s rule: unescape_newlines.induct) auto

definition escape_newlines :: "string \<Rightarrow> string" where
  "escape_newlines s = concat (map (\<lambda>c. if c = CHR 0x0A then [CHR 0x5C, CHR ''n''] else [c]) s)"

lemma unescape_escape: "CHR 0x5C \<notin> set s \<Longrightarrow> unescape_newlines (escape_newlines s) = s"
proof (induction s)
  case (Cons c s)
  then have IH: "unescape_newlines (escape_newlines s) = s" and c: "c \<noteq> CHR 0x5C" by auto
  have "escape_newlines (c # s) = (if c = CHR 0x0A then [CHR 0x5C, CHR ''n''] else [c]) @ escape_newlines s"
    by (simp add: escape_newlines_def)
  moreover have "unescape_newlines (c # t) = c # unescape_newlines t" for t using c by (cases t) auto
  ultimately show ?case using IH by simp
qed (simp add: escape_newlines_def)

text \<open>A key survives the way into an environment variable. A PEM text in which every line break became the two
  characters \<open>\n\<close> is accepted as the key the text itself is, as long as it is not itself a PEM text.\<close>

theorem key_either_spelling:
  assumes "CHR 0x5C \<notin> set pem" and "kd_pem kd (escape_newlines pem) = None"
  shows "parse_app_key kd (escape_newlines pem) = parse_app_key kd pem"
  using assms by (auto simp: parse_app_key_def unescape_escape unescape_newlines_id split: option.split)

lemma stop_at_cause:
  assumes "stop_at pick signal failure = Some (t, err)"
  shows "(\<forall>s. signal = Some s \<longrightarrow> t \<le> s) \<and> (\<forall>s e. failure = Some (s, e) \<longrightarrow> t \<le> s) \<and>
    (case err of None \<Rightarrow> signal = Some t | Some e \<Rightarrow> failure = Some (t, e))"
  using assms by (auto simp: stop_at_def split: option.splits if_splits)

lemma last_exit:
  fixes t1 :: time
  assumes "t1 \<le> deadline"
  shows "t1 \<le> foldr (\<lambda>x d. case x of None \<Rightarrow> d | Some e \<Rightarrow> max e d) xs t1 \<and>
    (\<forall>d. Some d \<in> set xs \<longrightarrow> d \<le> foldr (\<lambda>x d. case x of None \<Rightarrow> d | Some e \<Rightarrow> max e d) xs t1) \<and>
    ((\<forall>d. Some d \<in> set xs \<longrightarrow> d \<le> deadline) \<longrightarrow> foldr (\<lambda>x d. case x of None \<Rightarrow> d | Some e \<Rightarrow> max e d) xs t1 \<le> deadline)"
  using assms by (induction xs) (auto split: option.split)

text \<open>What becomes of the wait: all goroutines in time, or the deadline.\<close>

lemma run_until_cases:
  assumes "\<And>t. 0 \<le> drain t" and "stop_at pick signal failure = Some (t, err)"
  obtains at where "run_until pick signal failure drain goroutines = Some (at, err, False)" "t \<le> at" "at \<le> t + 25 * second"
      "\<forall>g \<in> set goroutines. \<exists>d. g t = Some d \<and> d \<le> at"
  | at where "run_until pick signal failure drain goroutines = Some (at, err, True)" "t \<le> at" "at \<le> t + 25 * second"
      "\<not> (\<forall>g \<in> set goroutines. \<exists>d. g t = Some d \<and> d \<le> at)"
proof -
  define t1 deadline exits where "t1 = t + min shutdown_grace (drain t)" and "deadline = t1 + shutdown_wait_timeout"
    and "exits = map (\<lambda>g. g t) goroutines"
  let ?last = "foldr (\<lambda>x d. case x of None \<Rightarrow> d | Some e \<Rightarrow> max e d) exits t1"
  let ?in_time = "list_all (\<lambda>x. case x of None \<Rightarrow> False | Some d \<Rightarrow> d \<le> deadline) exits"
  have t1: "t \<le> t1" "t1 \<le> deadline" "deadline \<le> t + 25 * second"
    using assms(1) [of t] by (auto simp: t1_def deadline_def shutdown_grace_def shutdown_wait_timeout_def second_def)
  note last = last_exit [OF t1(2), of exits]
  have run: "run_until pick signal failure drain goroutines = (if ?in_time then Some (?last, err, False) else Some (deadline, err, True))"
    unfolding run_until_def assms(2) deadline_def t1_def exits_def Let_def by simp
  have all: "?in_time \<longleftrightarrow> (\<forall>g \<in> set goroutines. \<exists>d. g t = Some d \<and> d \<le> deadline)"
    by (fastforce simp: exits_def list_all_iff split: option.splits)
  show thesis
  proof (cases ?in_time)
    case True
    then have "\<forall>d. Some d \<in> set exits \<longrightarrow> d \<le> deadline" using all by (auto simp: exits_def dest: bspec)
    moreover have "\<exists>d. g t = Some d \<and> d \<le> ?last" if g: "g \<in> set goroutines" for g
    proof -
      obtain d where d: "g t = Some d" using all True g by blast
      then have "Some d \<in> set exits" using g by (auto simp: exits_def intro: rev_image_eqI)
      then show ?thesis using d last by blast
    qed
    ultimately show thesis using that(1) [of ?last] True last t1 by (auto simp: run)
  next
    case False
    then show thesis using that(2) [of deadline] all t1 by (simp add: run)
  qed
qed


section \<open>Witnesses\<close>


theorem holders_distinct_witness:
  "\<exists>s s' :: settings. read_settings (\<lambda>_. ''x'') (\<lambda>_. Some 30) (random_id (Some ''abcdefgh'') 0) = (Inr s :: string start_error + _) \<and>
     read_settings (\<lambda>_. ''x'') (\<lambda>_. Some 30) (random_id (Some ''abcdefgi'') 0) = (Inr s' :: string start_error + _) \<and>
     st_holder s \<noteq> st_holder s'"
proof -
  obtain s s' where runs: "read_settings (\<lambda>_. ''x'') (\<lambda>_. Some 30) (random_id (Some ''abcdefgh'') 0) = (Inr s :: string start_error + _)"
    "read_settings (\<lambda>_. ''x'') (\<lambda>_. Some 30) (random_id (Some ''abcdefgi'') 0) = (Inr s' :: string start_error + _)"
    by (simp add: read_settings_def required_env_def Let_def)
  from holders_distinct [OF runs] have "st_holder s \<noteq> st_holder s'" by simp
  with runs show ?thesis by blast
qed

theorem key_either_spelling_witness:
  "parse_app_key \<lparr>kd_pem = (\<lambda>s. if CHR 0x0A \<in> set s then Some s else None), kd_pkcs1 = (\<lambda>s. Inl ''not PKCS1''), kd_pkcs8 = (\<lambda>s. Inr (Some s))\<rparr>
     (escape_newlines [CHR ''a'', CHR 0x0A, CHR ''b'']) = Inr [CHR ''a'', CHR 0x0A, CHR ''b'']"
  by (subst key_either_spelling) (simp_all add: escape_newlines_def parse_app_key_def)

end
