(* ===== verification/Slack.thy ===== *)
theory Slack
  imports Notify
begin

text \<open>
  The Slack sink (\<open>internal/notify/slack.go\<close>): one request per message. The encoding of the payload, the
  check of the address by \<open>http.NewRequest\<close> and the transport are arguments.
\<close>

record slack_request =
  sk_method :: string
  sk_url :: string
  sk_content_type :: string
  sk_body :: string

datatype slack_error = BuildSlackRequest string | SendSlackWebhook string | SlackStatus nat

record 'w slack_env =
  sl_marshal_text :: "string \<Rightarrow> string"
  sl_bad_url :: "string \<Rightarrow> string option"
  sl_http :: "slack_request \<Rightarrow> 'w \<Rightarrow> (string + nat) \<times> 'w"

definition slack_send :: "'w slack_env \<Rightarrow> string \<Rightarrow> string \<Rightarrow> 'w \<Rightarrow> slack_error option \<times> 'w" where
  "slack_send env url message w =
     (case sl_bad_url env url of
        Some e \<Rightarrow> (Some (BuildSlackRequest e), w)
      | None \<Rightarrow>
         (case sl_http env \<lparr>sk_method = ''POST'', sk_url = url, sk_content_type = ''application/json'',
                 sk_body = sl_marshal_text env message\<rparr> w of
            (Inl e, w1) \<Rightarrow> (Some (SendSlackWebhook e), w1)
          | (Inr status, w1) \<Rightarrow> (if status \<ge> 300 then Some (SlackStatus status) else None, w1)))"

text \<open>The message \<open>runcd validate --check-slack\<close> sends to a webhook.\<close>

definition test_message :: "string \<Rightarrow> string" where
  "test_message name = ''runcd validate --check-slack: this is a test message confirming the '' @ [CHR 0x22] @ name @ [CHR 0x22] @
     '' webhook is configured correctly. No action needed.''"

text \<open>A message counts as sent exactly when the one request that carries it was answered below 300; an address that is
  no URL is never called.\<close>

lemma slack_sent_iff:
  "slack_send env url message w = (None, w') \<longleftrightarrow>
     sl_bad_url env url = None \<and>
     (\<exists>status < 300. sl_http env \<lparr>sk_method = ''POST'', sk_url = url, sk_content_type = ''application/json'',
        sk_body = sl_marshal_text env message\<rparr> w = (Inr status, w'))"
  by (auto simp: slack_send_def split: option.splits prod.splits sum.splits)

lemma slack_bad_url_silent: "sl_bad_url env url = Some e \<Longrightarrow> slack_send env url message w = (Some (BuildSlackRequest e), w)"
  by (simp add: slack_send_def)

end
