(* ===== verification/Spec2Isabelle.thy ===== *)
theory Spec2Isabelle
  imports Sync_Windows Config Expander Rbac Manifest Expiring_Cache Gitsource Registry Cloudrun Diff_Health
    Folders Preconditions Leader Sync_Result Notify Reconcile_Store Reconcile Reconcile_Pass
    Orphans Auth Api Api_Access Api_Views Metrics Githubapp Imageupdater Tag_Client Leadership Controller Controller_Ticks Nudges
    Cli Cli_Checks Cli_Views Cli_Api Process Slack
begin

text \<open>
  RunCD keeps Cloud Run services, worker pools and jobs at the state a Git repository declares. A
  controller reads \<open>runcd.yaml\<close>, expands it into sync units (an app in a project), and for each unit on
  each tick fetches its service definition, checks its preconditions, compares the desired state with
  what runs, and deploys where policy allows; it records every attempt in Postgres and notifies Slack.
  Several replicas run; one of them leads. This development models that logic and proves what makes it
  correct.

  \<^bold>\<open>Theories and code.\<close>
  \<^item> \<open>RunCD_Prelude\<close>: the part of Go's library the code uses (strings, maps as association lists, clock
    arithmetic, loops that stop at the first error) and the faults of a database statement.
  \<^item> \<open>Sync_Windows\<close>, \<open>Config\<close>: \<open>internal/config\<close>. The decoded \<open>runcd.yaml\<close> is a record; \<open>config_parse\<close> is
    \<open>Parse\<close> with every check in order, \<open>windows_allow\<close> is \<open>WindowsAllow\<close>, \<open>merge\<close> is \<open>SyncPolicy.Merge\<close>.
  \<^item> \<open>Expander\<close>: \<open>internal/expander\<close>. \<open>expand\<close> is \<open>Expand\<close>.
  \<^item> \<open>Rbac\<close>: \<open>internal/rbac\<close>. Rules, scopes and the swapped configuration of \<open>Store\<close>.
  \<^item> \<open>Manifest\<close>: \<open>internal/manifest\<close>. \<open>manifest_parse\<close> is \<open>Parse\<close>.
  \<^item> \<open>Expiring_Cache\<close>: the two cache disciplines of the code (entries that expire, and entries that are
    also kept as a fallback) as locales, proved once and interpreted by \<open>Gitsource\<close>
    (\<open>internal/gitsource\<close>), \<open>Registry\<close> (\<open>internal/registry\<close>), \<open>Folders\<close> (\<open>internal/folders\<close>) and
    \<open>Preconditions\<close> (\<open>internal/precondition\<close>).
  \<^item> \<open>Cloudrun\<close>: \<open>internal/cloudrun\<close>, the client of the Admin API. \<open>Diff_Health\<close>: \<open>internal/diff\<close> and
    \<open>internal/health\<close>, and what a deploy leaves to be read back.
  \<^item> \<open>Leader\<close>: \<open>internal/leader\<close>. \<open>Notify\<close>: \<open>internal/notify\<close>.
  \<^item> \<open>Sync_Result\<close>, \<open>Reconcile_Store\<close>, \<open>Reconcile\<close>, \<open>Reconcile_Pass\<close>, \<open>Orphans\<close>: \<open>internal/reconcile\<close>, with
    the tables of \<open>internal/store/migrations\<close>.
  \<^item> \<open>Auth\<close>: \<open>internal/auth\<close>. \<open>Api\<close>: the handlers of \<open>internal/api\<close> and the routes that lead to them
    (\<open>serve\<close>); \<open>Api_Access\<close> and \<open>Api_Views\<close> hold what is shown of them. \<open>Metrics\<close>: the cached snapshot of
    \<open>internal/api/metrics.go\<close>.
  \<^item> \<open>Githubapp\<close>: \<open>internal/githubapp\<close>. \<open>Imageupdater\<close>: \<open>internal/imageupdater\<close>, its regular expression
    and the template it expands included; \<open>Tag_Client\<close>: its resolver (\<open>gcp.go\<close>), over the registry client it shares with
    the reconciler.
  \<^item> \<open>Leadership\<close>: the leadership context and the election loop of \<open>cmd/controller/main.go\<close> on top of \<open>Leader\<close>.
    \<open>Controller\<close>: its settings, start, loading and ticks, from the components above; \<open>Controller_Ticks\<close> holds what
    is shown of them. \<open>Nudges\<close>: the loop while image events and the ticker arrive beside it. \<open>Process\<close>: the name of a replica, the private key (\<open>NewClient\<close> of \<open>internal/githubapp\<close>) and
    how \<open>run\<close> ends. \<open>Slack\<close>: the sink of \<open>internal/notify/slack.go\<close>.
  \<^item> \<open>Cli\<close>: the client \<open>cmd/runcd\<close>, its commands, requests and offline validation (\<open>validate_repo\<close>), and the patterns
    of the API's mux; \<open>Cli_Checks\<close> holds what is shown of them. \<open>Cli_Views\<close>: the JSON of the API's views, what the client
    decodes of it and prints (\<open>render.go\<close>, with the columns of \<open>text/tabwriter\<close>). \<open>Cli_Api\<close>: a command run against
    the handlers.

  \<^bold>\<open>Interfaces.\<close> What a component relies on and another promises is a locale, interpreted on the definitions of
  the code: the caches of \<open>Expiring_Cache\<close>; \<open>authenticator\<close> in \<open>Auth\<close> for the three schemes of \<open>internal/auth\<close>;
  \<open>unit_lookup\<close> in \<open>Api\<close> for the units the handlers are given, fixed or reloaded; \<open>view_codec\<close> in \<open>Cli_Views\<close> for
  what the server encodes and the client decodes.

  \<^bold>\<open>Conventions.\<close> A Go error result is a sum with the error on the left, each \<open>fmt.Errorf\<close> of the source a
  constructor. Strings are byte lists, instants are nanoseconds, Go maps are association lists with
  distinct keys in an arbitrary order. What is not the repository's code is an argument: the YAML
  decoder, \<open>url.Parse\<close>, \<open>golang.org/x/mod/semver\<close>, the Google APIs, the clock. A \<open>singleflight\<close> call is
  given either the shared result (\<open>Join\<close>) or the outcome of its own call (\<open>Lead\<close>). A database statement
  is a function of the database clock and its tables; a script says how long each takes and whether it
  fails before or after its effect. Systems of several processes are step relations: the replicas and
  the lease (\<open>lease_step\<close>), the attempts on a unit's lock (\<open>lock_step\<close>), the reconcile loop beside the server
  (\<open>loop_step\<close>).

  \<^bold>\<open>What is shown.\<close> Parsing accepts exactly the well formed inputs and expansion yields exactly the
  declared units. Sync windows agree with the intervals they denote. Access control decides by the
  rules' meaning and depends on no other folder than the ones it asks for. Caches never serve an entry
  older than their time to live, and folders fall back to what they last knew. Version constraints
  resolve to the highest release that satisfies them. A deploy of the client is read back as in sync.
  At most one replica leads and at most one attempt holds a unit's lock, whatever statements fail or
  lose their acknowledgement. A reconciliation deploys only when its dry run allows it, never without an
  audit row, records the outcome, and leaves a service in sync; a pass over all units persists a result
  for each. Notifications of one rule are spaced by the debounce interval. The HTTP API lets a caller reach
  and change nothing but the units the access rules grant, answers a sync as its audit row says, and
  reports bounded histories, whole batches and exactly the orphans in the caller's scopes. The image
  updater changes one digest and nothing else in a manifest, and settles. Among all replicas at most one
  pass context is live, the election refines a register one pass holds, and a lease that fails is retried
  with a bounded delay. A leader's tick covers the fleet, a follower's touches nothing, and configuration, rules and
  memberships reload independently, keeping the last good state. An image event is followed by a tick, and a tick out of turn
  is due to an authenticated event on the leader. The process ends in bounded time once it is told to.
  Offline validation accepts exactly what it says, and what it accepts a controller loads, folders apart; a
  command of the client arrives at its handler with its arguments intact and prints what the handler answered.

  \<^bold>\<open>Bounds.\<close> No definition needs fuel: every loop of the code ranges over a list, except the run loop of
  the lease, which consumes its events. Durations computed from configured numbers wrap around at 64
  bits (\<open>wrap64\<close>).

  \<^bold>\<open>Not modelled.\<close> The goroutines of one pass run one after the other, in any order of the units; what they
  share across passes and replicas is the database, whose interleavings the step relations cover. Contexts
  appear as the faults and outcomes they cause, timeouts as failures. Outside the model, since they only
  call a library: logging, HTTP transport and TLS, the metrics exposition, the SQL drivers and the migration runner,
  the listeners and goroutines \<open>run\<close> starts (their ends are arguments of \<open>run_until\<close>), the constructors and \<open>Close\<close>
  methods of Google's clients, the usage text of the client and the test helpers.
\<close>

end
